(* ===== verification/Prelude.thy ===== *)
theory Prelude
  imports Main "HOL-Library.Word"
begin

text \<open>
  Shared ground of the development: bytes and byte strings, the outcome type of a Rust
  computation (\<open>Result\<close> plus panic), checked slicing and indexing, and the list lemmas
  the component theories use.

  A Rust \<open>u8\<close> is an \<open>8 word\<close>, a \<open>&[u8]\<close>, \<open>Vec<u8>\<close> or \<open>String\<close> is a list of
  them (a \<open>String\<close> being its UTF-8 bytes), and a \<open>usize\<close> is a \<open>nat\<close>: every length and
  offset in the sources is bounded by the length of a frame that is already in memory.
\<close>

section \<open>Bytes\<close>

type_synonym byte = "8 word"

type_synonym bytes = "byte list"

text \<open>Byte string literals: \<open>b"CA"\<close> is \<open>ascii ''CA''\<close>.\<close>

definition ascii :: "string \<Rightarrow> bytes" where
  "ascii s = map of_char s"

section \<open>Outcomes\<close>

text \<open>
  \<open>Ok\<close> and \<open>Err\<close> are the variants of \<open>Result\<close>; \<open>Panic\<close> is an unwinding panic (an
  index or slice out of range, an \<open>expect\<close> on the wrong variant). Sequencing is the
  \<open>?\<close> operator.
\<close>

datatype ('a, 'e) res = Ok 'a | Err 'e | Panic

fun rbind :: "('a, 'e) res \<Rightarrow> ('a \<Rightarrow> ('b, 'e) res) \<Rightarrow> ('b, 'e) res" where
  "rbind (Ok x) f = f x"
| "rbind (Err e) f = Err e"
| "rbind Panic f = Panic"

fun rmap :: "('a \<Rightarrow> 'b) \<Rightarrow> ('a, 'e) res \<Rightarrow> ('b, 'e) res" where
  "rmap f (Ok x) = Ok (f x)"
| "rmap f (Err e) = Err e"
| "rmap f Panic = Panic"

text \<open>\<open>opt.ok_or(e)\<close>\<close>

fun ok_or :: "'e \<Rightarrow> 'a option \<Rightarrow> ('a, 'e) res" where
  "ok_or e None = Err e"
| "ok_or e (Some x) = Ok x"

text \<open>\<open>&xs[a..b]\<close> and \<open>xs[i]\<close>: out of range is a panic.\<close>

definition slice :: "'a list \<Rightarrow> nat \<Rightarrow> nat \<Rightarrow> ('a list, 'e) res" where
  "slice xs a b = (if a \<le> b \<and> b \<le> length xs then Ok (take (b - a) (drop a xs)) else Panic)"

definition index :: "'a list \<Rightarrow> nat \<Rightarrow> ('a, 'e) res" where
  "index xs i = (if i < length xs then Ok (xs ! i) else Panic)"

text \<open>\<open>xs.get(i)\<close> and \<open>xs.first()\<close>\<close>

definition get :: "'a list \<Rightarrow> nat \<Rightarrow> 'a option" where
  "get xs i = (if i < length xs then Some (xs ! i) else None)"

definition first :: "'a list \<Rightarrow> 'a option" where
  "first xs = get xs 0"

text \<open>\<open>xs.iter().position(p)\<close>\<close>

fun position :: "('a \<Rightarrow> bool) \<Rightarrow> 'a list \<Rightarrow> nat option" where
  "position p [] = None"
| "position p (x # xs) = (if p x then Some 0 else map_option Suc (position p xs))"

section \<open>Automation\<close>

text \<open>
  \<open>res_simps\<close> unfolds the outcome plumbing on concrete data; \<open>eval_simps\<close> are the
  definitions a closed evaluation needs.
\<close>

named_theorems res_simps
named_theorems eval_simps

declare ascii_def [eval_simps] slice_def [eval_simps] index_def [eval_simps]
  get_def [eval_simps] first_def [eval_simps]

section \<open>Outcome lemmas\<close>

lemma rbind_Ok_iff: "rbind m f = Ok y \<longleftrightarrow> (\<exists>x. m = Ok x \<and> f x = Ok y)"
  by (cases m) auto

lemma rbind_Panic_iff: "rbind m f = Panic \<longleftrightarrow> m = Panic \<or> (\<exists>x. m = Ok x \<and> f x = Panic)"
  by (cases m) auto

lemma rmap_Ok_iff [simp]: "rmap f m = Ok y \<longleftrightarrow> (\<exists>x. m = Ok x \<and> y = f x)"
  by (cases m) auto

lemma rmap_Panic_iff [simp]: "rmap f m = Panic \<longleftrightarrow> m = Panic"
  by (cases m) auto

lemma ok_or_not_Panic [simp]: "ok_or e x \<noteq> Panic"
  by (cases x) auto

lemma ok_or_Ok_iff [simp]: "ok_or e x = Ok y \<longleftrightarrow> x = Some y"
  by (cases x) auto

lemma slice_Panic_iff [simp]: "slice xs a b = Panic \<longleftrightarrow> \<not> (a \<le> b \<and> b \<le> length xs)"
  by (simp add: slice_def)

lemma slice_not_Err [simp]: "slice xs a b \<noteq> Err e"
  by (simp add: slice_def)

lemma index_Panic_iff [simp]: "index xs i = Panic \<longleftrightarrow> length xs \<le> i"
  by (auto simp: index_def)

section \<open>List lemmas\<close>

lemma ascii_Nil [simp]: "ascii [] = []"
  by (simp add: ascii_def)

lemma length_ascii [simp]: "length (ascii s) = length s"
  by (simp add: ascii_def)

lemma first_Nil [simp]: "first [] = None"
  by (simp add: first_def get_def)

lemma first_Cons [simp]: "first (x # xs) = Some x"
  by (simp add: first_def get_def)

lemma position_delimiter: "d \<notin> set xs \<Longrightarrow> position (\<lambda>b. b = d) (xs @ d # ys) = Some (length xs)"
  by (induction xs) auto

lemma position_Some_less: "position p xs = Some i \<Longrightarrow> i < length xs"
  by (induction xs arbitrary: i) (auto split: if_splits)

lemma length_ge_2_cases:
  assumes "2 \<le> length xs"
  obtains a b ys where "xs = a # b # ys"
  using assms by (cases xs; cases "tl xs") auto

lemma ascii_inj: "ascii s = ascii t \<longleftrightarrow> s = t"
proof -
  have "inj (of_char :: char \<Rightarrow> byte)"
  proof (rule injI)
    fix c d :: char
    assume "(of_char c :: byte) = of_char d"
    then have "unat (of_char c :: byte) = unat (of_char d :: byte)" by simp
    moreover have "unat (of_char e :: byte) = of_char e" for e :: char
      by (cases e) (simp add: of_char_def horner_sum_simps unat_word_ariths split: if_splits)
    ultimately have "(of_char c :: nat) = of_char d" by simp
    then show "c = d" by (simp add: of_char_eq_iff)
  qed
  then show ?thesis by (simp add: ascii_def inj_map_eq_map)
qed

lemma distinct_map_ascii: "distinct (map ascii xs) = distinct xs"
  by (simp add: distinct_map inj_on_def ascii_inj)

lemma find_SomeD: "find p xs = Some x \<Longrightarrow> x \<in> set xs \<and> p x"
  by (induction xs) (auto split: if_splits)

lemma find_rev_unique:
  assumes "distinct (concat (map f hs))" and "h \<in> set hs" and "c \<in> set (f h)"
  shows "find (\<lambda>h. c \<in> set (f h)) (rev hs) = Some h"
  using assms
proof (induction hs rule: rev_induct)
  case (snoc x xs)
  show ?case
  proof (cases "h = x")
    case True
    with snoc.prems show ?thesis by simp
  next
    case False
    with snoc.prems have h: "h \<in> set xs" by simp
    with snoc.prems have "c \<notin> set (f x)" by auto
    with h snoc show ?thesis by auto
  qed
qed simp

end
