(* ===== verification/Evidence.thy ===== *)
theory Evidence
  imports Prelude
begin

text \<open>
  The evidence the handlers carry (\<open>src/src/handlers/grounding.rs\<close> and the \<open>grounding()\<close> method of
  every handler): what was decided about a command, why, and how it was verified. The texts are
  the UTF-8 bytes of the Rust literals; characters outside ASCII, and the quotation marks, are
  named below.
\<close>

section \<open>Types\<close>

datatype wire_grounding = VecThru | DiffXprov | Cited | NoWire

datatype crypto_grounding = Vec | TwoImpl | ApcOnly | NoCrypto

datatype proof_ref = LiveTest bytes | ManualCite bytes | Gated bytes

record evidence =
  ev_decision :: bytes
  ev_because :: bytes
  ev_wire :: wire_grounding
  ev_crypto :: crypto_grounding
  ev_proof :: proof_ref

fun wire_label :: "wire_grounding \<Rightarrow> bytes" where
  "wire_label VecThru = ascii ''vec-thru''"
| "wire_label DiffXprov = ascii ''diff-xprov''"
| "wire_label Cited = ascii ''cited''"
| "wire_label NoWire = ascii ''none''"

fun crypto_label :: "crypto_grounding \<Rightarrow> bytes" where
  "crypto_label Vec = ascii ''vec''"
| "crypto_label TwoImpl = ascii ''2impl''"
| "crypto_label ApcOnly = ascii ''apc''"
| "crypto_label NoCrypto = ascii ''none''"

fun proof_label :: "proof_ref \<Rightarrow> bytes" where
  "proof_label (LiveTest t) = ascii ''live test `'' @ t @ ascii ''`''"
| "proof_label (ManualCite c) = ascii ''manual: '' @ c"
| "proof_label (Gated r) = ascii ''gated (68): '' @ r"

fun live_test :: "proof_ref \<Rightarrow> bytes option" where
  "live_test (LiveTest t) = Some t"
| "live_test _ = None"

section \<open>Characters\<close>

abbreviation quote_mark :: bytes where "quote_mark \<equiv> [0x22]"
abbreviation apostrophe :: bytes where "apostrophe \<equiv> [0x27]"
abbreviation section_sign :: bytes where "section_sign \<equiv> [0xC2, 0xA7]"
abbreviation times_sign :: bytes where "times_sign \<equiv> [0xC3, 0x97]"
abbreviation en_dash :: bytes where "en_dash \<equiv> [0xE2, 0x80, 0x93]"
abbreviation em_dash :: bytes where "em_dash \<equiv> [0xE2, 0x80, 0x94]"
abbreviation right_arrow :: bytes where "right_arrow \<equiv> [0xE2, 0x86, 0x92]"
abbreviation at_most_sign :: bytes where "at_most_sign \<equiv> [0xE2, 0x89, 0xA4]"
abbreviation at_least_sign :: bytes where "at_least_sign \<equiv> [0xE2, 0x89, 0xA5]"

section \<open>PIN commands\<close>

definition PinHandler_grounding :: "evidence list" where
  "PinHandler_grounding =
    [\<lparr> ev_decision = concat
         [ascii ''CA/CC wire: src key, dst key, MaxPINLen(2N), 16H source PIN block, src + dst '',
          ascii ''PIN-block-format codes(2N each: 01=ISO0, 47=ISO3), PAN(12N). Format codes are the standard '',
          ascii ''Thales 2N values, NOT a 00/01/03/04 scheme.''],
       ev_because = concat
         [ascii ''PUGD0537-004 Rev A p.282/285. Verified live across all src/dst format combos (ISO0/ISO3) '',
          ascii ''and both CA/CC: a valid block is minted via generate_pin_data, translated through the '',
          ascii ''proxy, then BOTH proxy output and original input are canonicalized to deterministic ISO '',
          ascii ''Format 0 under a shared key and compared '', em_dash, ascii '' immune to ISO-3'', apostrophe,
          ascii ''s random fill.''],
       ev_wire = DiffXprov, ev_crypto = ApcOnly,
       ev_proof = LiveTest (ascii ''pin_translate_ca_cc_differential'') \<rparr>,
     \<lparr> ev_decision = ascii ''G0 (BDK DUKPT translate) and BQ (Translate PIN Algorithm) return Unsupported (68).'',
       ev_because = concat
         [ascii ''G0 carries optional source/destination KSNs needing DUKPT validation against APC; BQ is the '',
          ascii ''proprietary Visa'', right_arrow,
          ascii ''Racal LMK-PIN algorithm with no APC equivalent (PUGD0537-004 Rev A p.294). Gated rather '',
          ascii ''than parsed from an unverified layout.''],
       ev_wire = NoWire, ev_crypto = NoCrypto,
       ev_proof = Gated (ascii ''G0 needs DUKPT validation; BQ has no APC equivalent'') \<rparr>]"

definition PinChangeHandler_grounding :: "evidence list" where
  "PinChangeHandler_grounding =
    [\<lparr> ev_decision = concat
         [ascii ''DU verifies the current PIN by IBM 3624 offset and generates a new offset; CU does the same '',
          ascii ''by Visa PVV. Each is atomic: the current PIN is verified first (APC verify_pin_data), and '',
          ascii ''only on a match is the new datum generated (APC generate_pin_data with Ibm3624PinOffset / '',
          ascii ''VisaPinVerificationValue for the new PIN block). On mismatch the response is error 01 and '',
          ascii ''no datum is returned. The IBM 12H current offset is F-padded and trimmed to APC'', apostrophe,
          ascii ''s ^[0-9]+$ before the verify call.''],
       ev_because = concat
         [ascii ''PUGD0537-004 Rev A p.255 (DU) / p.259 (CU). Verified live end-to-end: for both methods the '',
          ascii ''proxy verifies a valid current PIN and returns a new offset/PVV that a direct APC '',
          ascii ''verify_pin_data then confirms against the new PIN block, across randomized PAN. The live '',
          ascii ''differential caught two DU offset bugs: the F-padded current offset was passed to APC'', apostrophe,
          ascii ''s pin_offset (which requires ^[0-9]+$) so every valid current PIN was rejected '', em_dash,
          ascii '' fixed by stripping the padding (as GO/CK/DA do); and the generated New Offset was returned '',
          ascii ''unpadded, but the DV response field is 12H left-justified F-padded (p.255) '', em_dash,
          ascii '' fixed by re-padding.''],
       ev_wire = DiffXprov, ev_crypto = ApcOnly,
       ev_proof = LiveTest (ascii ''pin_change_du_cu_differential'') \<rparr>,
     \<lparr> ev_decision = concat
         [ascii ''The Visa PVV primitive '', em_dash, ascii '' APC'', apostrophe,
          ascii ''s generate_pin_data VisaPinVerificationValue, the exact call CU makes to mint a new PVV, '',
          ascii ''and the same algorithm APC uses to verify a PVV (DC/EC) '', em_dash,
          ascii '' is additionally cross-validated against a second implementation (2impl), beyond agreement '',
          ascii ''with APC alone.''],
       ev_because = concat
         [ascii ''APC'', apostrophe,
          ascii ''s generate_pin_data VisaPinVerificationValue agrees with CyberChef Payments '', em_dash,
          ascii '' a purpose-built, inspectable payment-cryptography implementation, a separate codebase in a '',
          ascii ''different language '', em_dash,
          ascii '' over randomized PAN / PVKI / PIN with a shared clear PVK: both derive the same 4-digit PVV '',
          ascii ''(verified live, 8/8). The PIN is carried to APC as an ISO-0 block encrypted under a shared '',
          ascii ''PEK, so a match also confirms the PIN-block encoding round-trips through APC. Combined with '',
          ascii ''the proxy==APC differential above, the proxy'', apostrophe,
          ascii ''s Visa PVV agrees with a second implementation. Honest strength: CyberChef Payments shares '',
          ascii ''an author with this proxy, so it cross-checks the implementation (catching coding-level '',
          ascii ''divergence) rather than being a neutral third-party oracle, and it is less battle-tested '',
          ascii ''than APC '', em_dash,
          ascii '' so this is corroboration; APC (AWS) is the independent reference. Run separately from this '',
          ascii ''repository'', apostrophe, ascii ''s automated tests.''],
       ev_wire = NoWire, ev_crypto = TwoImpl,
       ev_proof = ManualCite (concat
         [ascii ''cross-validated against CyberChef Payments (a second implementation by the same author); '',
          ascii ''run separately'']) \<rparr>]"

definition DieboldPinHandler_grounding :: "evidence list" where
  "DieboldPinHandler_grounding =
    [\<lparr> ev_decision = concat
         [ascii ''GA (derive PIN, Diebold method) and CE (generate Diebold PIN offset) return Unsupported '',
          ascii ''(68).''],
       ev_because = concat
         [ascii ''The Diebold method is not an IBM 3624 variant: instead of a DES encrypt-and-decimalize of '',
          ascii ''the transformed account number, the HSM indexes a randomizing conversion table loaded into '',
          ascii ''its user storage, and the derived PIN depends entirely on that table'', apostrophe,
          ascii ''s contents. APC exposes no user-storage table and no generation attribute that reproduces a '',
          ascii ''Diebold lookup, so it cannot be modeled. Mapping onto Ibm3624NaturalPin/Ibm3624PinOffset '',
          ascii ''would silently produce a DIFFERENT PIN '', em_dash,
          ascii '' a correctness failure, not a missing feature '', em_dash,
          ascii '' so we reject rather than emit an incorrect APC call. Migration: re-issue affected PINs '',
          ascii ''under IBM 3624 (EE/DE) or Visa PVV (DG/FW).''],
       ev_wire = NoWire, ev_crypto = NoCrypto,
       ev_proof = Gated (concat
         [ascii ''no APC equivalent '', em_dash, ascii '' Diebold user-storage conversion table'']) \<rparr>]"

definition RandomPinHandler_grounding :: "evidence list" where
  "RandomPinHandler_grounding =
    [\<lparr> ev_decision = ascii ''JA (Generate a Random PIN) returns Unsupported (68).'',
       ev_because = concat
         [ascii ''PUGD0537-004 Rev A p.215 ('', quote_mark, ascii ''Generate a Random PIN'', quote_mark,
          ascii ''). JB returns the generated PIN encrypted under the LMK '', em_dash,
          ascii '' a PIN block cryptographically bound to the account number '', em_dash,
          ascii '' and carries no keys in the request. APC has no Local Master Key and cannot emit an '',
          ascii ''LMK-encrypted PIN block, so JA'', apostrophe,
          ascii ''s defining output has no equivalent. (generate_pin_data + Ibm3624RandomPin is a fused '',
          ascii ''random-PIN/offset/ZPK-encrypt flow returning a ZPK-encrypted block; it does not reproduce JA'',
          apostrophe, ascii ''s LMK-bound output or wire format.) Migration: issue PINs via generate_pin_data as '',
          ascii ''ZPK-encrypted blocks with a verification value.''],
       ev_wire = NoWire, ev_crypto = NoCrypto,
       ev_proof = Gated (concat
         [ascii ''no APC equivalent '', em_dash, ascii '' LMK-encrypted PIN output'']) \<rparr>]"

definition DukptPinVerifyHandler_grounding :: "evidence list" where
  "DukptPinVerifyHandler_grounding =
    [\<lparr> ev_decision = concat
         [ascii ''CK verifies a DUKPT-encrypted PIN against an IBM 3624 offset (original single-length DUKPT, '',
          ascii ''Tdes2Key). The 12H wire offset is F-padded; the padding is stripped before the APC call.''],
       ev_because = concat
         [ascii ''PUGD0538-003 p.112 (CK). Verified live: proxy CK verdict == APC verify_pin_data verdict '',
          ascii ''(IBM3624 + DUKPT) for valid PINs across randomized PAN/KSN. CK had the same offset '',
          ascii ''F-padding bug as GO (APC pin_offset is ^[0-9]+$) '', em_dash, ascii '' fixed the same way.''],
       ev_wire = DiffXprov, ev_crypto = ApcOnly,
       ev_proof = LiveTest (ascii ''dukpt_pin_verify_ck_differential'') \<rparr>,
     \<lparr> ev_decision = ascii ''CM (Visa PVV DUKPT verify) returns Unsupported (68).'',
       ev_because = concat
         [ascii ''CM makes the byte-identical verify_pin_data + DukptAttributes + VisaPin call as GQ, which '',
          ascii ''APC answers with InternalServerException (verified live for GQ, us-east-1 + us-west-2). '',
          ascii ''Gated on that basis; the CM wire parser was removed. Workaround: translate the DUKPT PIN '',
          ascii ''block to a ZPK, then verify the PVV non-DUKPT.''],
       ev_wire = NoWire, ev_crypto = NoCrypto,
       ev_proof = Gated (ascii ''same APC single-call DUKPT+VisaPin 500 as GQ'') \<rparr>,
     \<lparr> ev_decision = ascii ''CO (Diebold) and CQ (Encrypted PIN) DUKPT verify return Unsupported (68).'',
       ev_because = concat
         [ascii ''Diebold indexes a conversion table in HSM user storage and CQ compares against an '',
          ascii ''LMK-encrypted reference PIN '', em_dash,
          ascii '' neither has an APC equivalent (APC verify_pin_data does IBM3624 offset / Visa PVV only).''],
       ev_wire = NoWire, ev_crypto = NoCrypto,
       ev_proof = Gated (ascii ''no APC equivalent (Diebold table / LMK-compare)'') \<rparr>]"

definition DukptPinVerifyAesHandler_grounding :: "evidence list" where
  "DukptPinVerifyAesHandler_grounding =
    [\<lparr> ev_decision = concat
         [ascii ''GO (IBM3624 DUKPT PIN verify) wire: Mode + BDK + PVK + KSN-descriptor(3H)+KSN + PIN block + '',
          ascii ''fmt code + check len + PAN + decim table + PIN validation data + offset(12H, F-padded). The '',
          ascii ''12H offset'', apostrophe, ascii ''s F-padding is STRIPPED before APC.''],
       ev_because = concat
         [ascii ''PUGD0537-004 Rev A p.349. Verified live: proxy GO verdict == APC verify_pin_data verdict '',
          ascii ''(IBM3624 + 3DES DUKPT) for valid PINs across randomized PAN/KSN. The live differential '',
          ascii ''CAUGHT a real bug: APC'', apostrophe, ascii ''s pin_offset is ^[0-9]+$, so the wire'', apostrophe,
          ascii ''s F-padded offset was rejected (GO returned 41 for every valid PIN) until the strip was '',
          ascii ''added.''],
       ev_wire = DiffXprov, ev_crypto = ApcOnly,
       ev_proof = LiveTest (ascii ''dukpt_pin_verify_go_differential'') \<rparr>,
     \<lparr> ev_decision = ascii ''GQ (Visa PVV DUKPT verify) returns Unsupported (68).'',
       ev_because = concat
         [ascii ''APC single-call verify_pin_data + DukptAttributes + VisaPin returns InternalServerException '',
          ascii ''(500), verified live us-east-1 + us-west-2 on schema-valid inputs. Isolated: the IBM3624 '',
          ascii ''sibling (GO) works single-call, non-DUKPT Visa PVV works, and a two-call '',
          ascii ''translate-then-verify works. Gated honestly rather than inject an intermediate interchange '',
          ascii ''key into the PIN path. Repro filed for AWS.''],
       ev_wire = NoWire, ev_crypto = NoCrypto,
       ev_proof = Gated (ascii ''APC single-call DUKPT+VisaPin verify returns 500; see handler doc'') \<rparr>,
     \<lparr> ev_decision = ascii ''GS (Diebold) and GU (Encrypted PIN) DUKPT verify return Unsupported (68).'',
       ev_because = concat
         [ascii ''Diebold indexes a conversion table in HSM user storage and GU compares against an '',
          ascii ''LMK-encrypted reference PIN '', em_dash,
          ascii '' neither has an APC equivalent (APC verify_pin_data does IBM3624 offset / Visa PVV only). '',
          ascii ''PUGD0537-004 Rev A p.355/358.''],
       ev_wire = NoWire, ev_crypto = NoCrypto,
       ev_proof = Gated (ascii ''no APC equivalent (Diebold table / LMK-compare)'') \<rparr>]"

definition PinVerifyNonDukptHandler_grounding :: "evidence list" where
  "PinVerifyNonDukptHandler_grounding =
    [\<lparr> ev_decision = concat
         [ascii ''DA/EA verify an IBM 3624 PIN and DC/EC a Visa PVV, all via APC verify_pin_data with no '',
          ascii ''DUKPT. DA/DC carry a TPK and EA/EC a ZPK; both are P0 encryption keys in APC, so each pair '',
          ascii ''shares one code path. The IBM 12H offset is F-padded on the wire and trimmed to APC'', apostrophe,
          ascii ''s ^[0-9]+$ before the call (same handling as GO/CK).''],
       ev_because = concat
         [ascii ''PUGD0537-004 Rev A p.263 (DA) / p.273 (DC) / p.266 (EA) / p.275 (EC). Verified live: the '',
          ascii ''proxy'', apostrophe,
          ascii ''s verify verdict matches a direct APC verify_pin_data verdict across randomized PAN, both '',
          ascii ''methods, and all four command codes. A valid PIN is minted via generate_pin_data (IBM3624 '',
          ascii ''natural PIN offset 0, or Visa PVV read back from PinData::VerificationValue); a wrong field '',
          ascii ''offset would feed APC a different block, which it rejects, so proxy and oracle verdicts '',
          ascii ''diverge.''],
       ev_wire = DiffXprov, ev_crypto = ApcOnly,
       ev_proof = LiveTest (ascii ''pin_verify_non_dukpt_differential'') \<rparr>]"

section \<open>Card data commands\<close>

definition EncryptDecryptHandler_grounding :: "evidence list" where
  "EncryptDecryptHandler_grounding =
    [\<lparr> ev_decision = concat
         [ascii ''HE encrypts / HG decrypts a single 64-bit block (16H) under a data key (TR31_D0), TDES-ECB. '',
          ascii ''Wire: key then 16H data.''],
       ev_because = concat
         [ascii ''PUGD0538-003 p.107 (HE) / p.108 (HG). Verified live: proxy HE ciphertext == APC '',
          ascii ''encrypt_data (TDES-ECB, deterministic), and the HE'', right_arrow,
          ascii ''HG round-trip recovers the plaintext, over random plus all-zero / all-F blocks. Operational '',
          ascii ''note (verified live): APC rejects encrypt+decrypt alone for a D0 key '', em_dash,
          ascii '' the mapped key must use NoRestrictions (or encrypt+decrypt+wrap+unwrap) for both HE and HG '',
          ascii ''to work.''],
       ev_wire = DiffXprov, ev_crypto = ApcOnly,
       ev_proof = LiveTest (ascii ''encrypt_decrypt_he_hg_differential'') \<rparr>]"

definition InternationalEncryptHandler_grounding :: "evidence list" where
  "InternationalEncryptHandler_grounding =
    [\<lparr> ev_decision = concat
         [ascii ''M0 encrypts and M2 decrypts a data block, TDES-ECB, under a D0 symmetric data key. Only ECB '',
          ascii ''('', apostrophe, ascii ''00'', apostrophe, ascii '') and hex I/O ('', apostrophe, ascii ''1'',
          apostrophe,
          ascii '') are accepted; other modes/formats are rejected. Response is a 4H byte-length prefix + '',
          ascii ''data hex.''],
       ev_because = concat
         [ascii ''Field layout per PUGD0539-003 Applications Manual '', section_sign, ascii ''2.2.1 (M0) / '',
          section_sign, ascii ''2.3.1 (M2) '', em_dash,
          ascii '' command-structure tables match this parse, including Mode '', apostrophe, ascii ''00'', apostrophe,
          ascii ''=ECB with 8-byte-multiple input and Key Type '', apostrophe, ascii ''00A'', apostrophe, ascii ''/'',
          apostrophe, ascii ''00B'', apostrophe, ascii ''. Verified live: M0'', apostrophe,
          ascii ''s ciphertext equals a direct APC encrypt_data ECB oracle across length-randomised plaintext '',
          ascii ''(1..4 blocks), and M2 round-trips the proxy'', apostrophe,
          ascii ''s own ciphertext back to plaintext. diff-xprov (manual-cited layout + APC differential), '',
          ascii ''not vec (no published TDES-ECB vectors checked yet).''],
       ev_wire = DiffXprov, ev_crypto = ApcOnly,
       ev_proof = LiveTest (ascii ''intl_encrypt_m0_m2_m4_differential'') \<rparr>,
     \<lparr> ev_decision = concat
         [ascii ''M4 translates a data block from a source key to a destination key (TDES-ECB) using two APC '',
          ascii ''calls: decrypt_data under the source key, then encrypt_data under the destination key.''],
       ev_because = concat
         [ascii ''APC'', apostrophe,
          ascii ''s single-call re_encrypt_data requires KeyModesOfUse=Encrypt (AWS Payment Cryptography Data '',
          ascii ''API, ReEncryptData: '', quote_mark,
          ascii ''The KeyArn ... must be in a compatible key state with KeyModesOfUse set to Encrypt'', quote_mark,
          ascii ''), but a D0 symmetric data key can only be created as NoRestrictions (encrypt flag false); '',
          ascii ''re_encrypt_data then rejects it with '', quote_mark, ascii ''KeyUsages not allowed'', quote_mark,
          ascii '' (confirmed live). Decrypt-then-encrypt is semantically identical for ECB and works with D0 '',
          ascii ''NoRestrictions keys. Verified live: M4 translates the M0 ciphertext src'', right_arrow,
          ascii ''dst and a direct APC decrypt under the dst key recovers the original plaintext. TRADE-OFF: '',
          ascii ''the plaintext transits the proxy between the two calls (zeroized on drop) '', em_dash,
          ascii '' the same trust boundary M0/M2 already cross for this key class, not a new exposure.''],
       ev_wire = DiffXprov, ev_crypto = ApcOnly,
       ev_proof = LiveTest (ascii ''intl_encrypt_m0_m2_m4_differential'') \<rparr>]"

section \<open>MAC commands\<close>

definition DukptMacHandler_grounding :: "evidence list" where
  "DukptMacHandler_grounding =
    [\<lparr> ev_decision = concat
         [ascii ''GW generate/verify a DUKPT MAC (Alg1/Alg3/CMAC, MAC size '', apostrophe, ascii ''0'', apostrophe,
          ascii ''=4 bytes / '', apostrophe, ascii ''1'', apostrophe, ascii ''=2 bytes). Half MACs (size '',
          apostrophe, ascii ''1'', apostrophe,
          ascii '') verify by regenerating the full MAC and comparing the leading bytes, because APC '',
          ascii ''verify_mac only accepts an 8H or 16H MAC.''],
       ev_because = concat
         [ascii ''PUGD0537-004 Rev A p.361 (GW). Verified live across every algorithm'', times_sign,
          ascii ''size combo: proxy MAC == APC generate_mac (Dukpt Alg1/Alg3/CMAC, 3DES), plus the verify '',
          ascii ''round-trip. The live differential caught a bug: GW verify of a 2-byte half MAC was passed '',
          ascii ''straight to APC verify_mac, which rejects it ('', apostrophe, ascii ''valid length of 8 or 16'',
          apostrophe, ascii '') '', em_dash,
          ascii '' fixed with the regenerate-and-compare-prefix path (mirrors M6 CMAC). APC constraints '',
          ascii ''(verified live): DUKPT MAC needs message '', at_least_sign,
          ascii ''8 bytes; the CBC-MAC variants (Alg1/Alg3) require a block-aligned ('', times_sign,
          ascii ''8 byte) message '', em_dash, ascii '' APC does not pad '', em_dash,
          ascii '' while CMAC accepts any length.''],
       ev_wire = DiffXprov, ev_crypto = ApcOnly,
       ev_proof = LiveTest (ascii ''dukpt_mac_gw_differential'') \<rparr>,
     \<lparr> ev_decision = ascii ''The APC DukptKeyVariant is hardcoded to Request (terminal MAC direction).'',
       ev_because = concat
         [ascii ''payShield GW carries no direction field, so the variant is a documented assumption. The '',
          ascii ''differential proves proxy == APC under Request; it does NOT verify Request is what a real '',
          ascii ''payShield derives. Host-response MACs (Response variant) are a known gap.''],
       ev_wire = Cited, ev_crypto = ApcOnly,
       ev_proof = ManualCite (concat
         [ascii ''PUGD0537-004 Rev A p.361; direction not in the wire '', em_dash,
          ascii '' assumption, not HSM-verified'']) \<rparr>]"

definition IssuerScriptMacHandler_grounding :: "evidence list" where
  "IssuerScriptMacHandler_grounding =
    [\<lparr> ev_decision = concat
         [ascii ''JU (UnionPay CUP) and KU Mode-0 (integrity only) generate an issuer-script MAC '', right_arrow,
          ascii '' APC generate_mac with EmvMac attributes; APC performs the whole IMK-SMI '', right_arrow,
          ascii '' SK-SMI derivation. Scheme '', right_arrow, ascii '' session method: JU '', apostrophe, ascii ''1'',
          apostrophe, ascii '' '', right_arrow, ascii '' EMV2000+ATC; KU '', apostrophe, ascii ''0'', apostrophe,
          ascii '' '', right_arrow, ascii '' VISA+ATC, '', apostrophe, ascii ''1'', apostrophe, ascii '' '',
          right_arrow, ascii '' Mastercard+AC(RANDi), '', apostrophe, ascii ''2'', apostrophe, ascii '' '',
          right_arrow, ascii '' AMEX+ATC, '', apostrophe, ascii ''5'', apostrophe, ascii '' '', right_arrow,
          ascii '' EMV_COMMON+AC, '', apostrophe, ascii ''6'', apostrophe, ascii '' '', right_arrow,
          ascii '' UNION_PAY+ATC.''],
       ev_because = concat
         [ascii ''PUGD0537-004 Rev A p.475 (KU); PUGD0538-003 '', section_sign,
          ascii ''7 p.124 (JU). Verified live: a created E2 IMK-SMI (DeriveKey mode) + EmvMac returns a MAC '',
          ascii ''for each session method, and the SessionKeyDerivationValue union requires ATC for '',
          ascii ''EMV2000/AMEX/VISA and ApplicationCryptogram for EMV_COMMON/MASTERCARD. The differential '',
          ascii ''confirms the proxy'', apostrophe,
          ascii ''s wire parse + EmvMac mapping equals a direct APC generate_mac. Crypto grade is `apc` '',
          ascii ''(agrees with APC): unlike the ARQC family there is not yet an independent from-spec '',
          ascii ''SMI-derivation anchor.''],
       ev_wire = DiffXprov, ev_crypto = ApcOnly,
       ev_proof = LiveTest (ascii ''issuer_script_mac_differential'') \<rparr>,
     \<lparr> ev_decision = concat
         [ascii ''KY, all confidentiality / PIN-change modes (1'', en_dash, ascii ''4), KU schemes '', apostrophe,
          ascii ''3'', apostrophe, ascii ''/'', apostrophe, ascii ''4'', apostrophe,
          ascii '' return Unsupported (68).''],
       ev_because = concat
         [ascii ''KY Mode-0 EMV2000 secure-messaging derivation takes an IV-SMI and a branch/height key-tree '',
          ascii ''that APC'', apostrophe,
          ascii ''s EmvMac does not model (PUGD0537-004 Rev A p.480), so it cannot be faithfully mapped '',
          ascii ''without a payShield reference. Modes 1'', en_dash,
          ascii ''4 add confidentiality / PIN change and need APC'', apostrophe,
          ascii ''s separate GenerateMacEmvPinChange operation plus an E1 key. KU '', apostrophe, ascii ''3'',
          apostrophe, ascii ''/'', apostrophe, ascii ''4'', apostrophe,
          ascii '' (JCB CVN01/02) have no APC session-key method. Gated rather than emit a MAC under the '',
          ascii ''wrong key.''],
       ev_wire = NoWire, ev_crypto = NoCrypto,
       ev_proof = Gated (concat
         [ascii ''KY IV-SMI/key-tree not modelled by APC EmvMac; confidentiality/PIN-change need '',
          ascii ''GenerateMacEmvPinChange; JCB has no APC session method'']) \<rparr>]"

section \<open>EMV commands\<close>

definition CapArqcHandler_grounding :: "evidence list" where
  "CapArqcHandler_grounding =
    [\<lparr> ev_decision = concat
         [ascii ''KS verifies a CAP/EMV Authorisation Request Cryptogram '', right_arrow,
          ascii '' APC verify_auth_request_cryptogram (SessionKeyDerivation::Emv2000, '',
          ascii ''MajorKeyDerivationMode::EmvOptionA). ARQC mismatch '', right_arrow, ascii '' 01.''],
       ev_because = concat
         [ascii ''PUGD0537-004 Rev A p.488 (KS). Verified live end-to-end: APC mints a valid ARQC via '',
          ascii ''generate_auth_request_cryptogram (available in aws-sdk-paymentcryptographydata >= 1.110) '',
          ascii ''under a created IMK-AC (E0, DeriveKey mode), the proxy'', apostrophe,
          ascii ''s KS handler verifies it through APC and ACCEPTS (00), and a one-bit-corrupted ARQC is '',
          ascii ''REJECTED (01), across randomized PAN / PSN / ATC / txn length.''],
       ev_wire = DiffXprov, ev_crypto = ApcOnly,
       ev_proof = LiveTest (ascii ''arqc_verify_ks_differential'') \<rparr>,
     \<lparr> ev_decision = concat
         [ascii ''K2 verifies a Mastercard CAP cryptogram '', right_arrow,
          ascii '' APC verify_auth_request_cryptogram (SessionKeyDerivation::Mastercard + UN, '',
          ascii ''MajorKeyDerivationMode::EmvOptionA). ARQC mismatch '', right_arrow, ascii '' 01.''],
       ev_because = concat
         [ascii ''PUGD0537-004 Rev A p.485 (K2). Verified live: APC mints a valid Mastercard ARQC via '',
          ascii ''generate_auth_request_cryptogram under a created E0 IMK (DeriveKey mode), the proxy'', apostrophe,
          ascii ''s K2 handler verifies it through APC and ACCEPTS (00), and a one-bit-corrupted ARQC is '',
          ascii ''REJECTED (01), across randomized PAN / PSN / ATC / UN / txn length. The ICC master key is '',
          ascii ''derived with Option A because the 8-byte BCD PAN field carries '', at_most_sign,
          ascii ''14 digits and APC rejects Option B for any PAN '', at_most_sign, ascii '' 16 (see #42).''],
       ev_wire = DiffXprov, ev_crypto = ApcOnly,
       ev_proof = LiveTest (ascii ''arqc_verify_k2_differential'') \<rparr>]"

definition EmvDecryptHandler_grounding :: "evidence list" where
  "EmvDecryptHandler_grounding =
    [\<lparr> ev_decision = concat
         [ascii ''K0 decrypts EMV-encrypted counters / application data under an IMK-ENC (E1) master key. APC '',
          ascii ''derives an EMV session key (Option A) from the master key + PAN/PSN + ATC, then '',
          ascii ''CBC-decrypts. Wire PAN+Seq is 8B BCD (Option-A pre-format); ATC and DataLen are 2B binary; '',
          ascii ''ciphertext is binary and hex-encoded before the APC call. SessionDerivationData = ATC(4H) + '',
          ascii ''12 zero hex chars.''],
       ev_because = concat
         [ascii ''PUGD0537-004 Rev A p.490. Verified live via round-trip: APC encrypt_data (EMV-CBC, built '',
          ascii ''from the same field values) mints the ciphertext, and the proxy'', apostrophe,
          ascii ''s K0 recovers the original plaintext across randomized PAN/PSN/ATC and 1..4 cipher blocks. '',
          ascii ''A wrong PAN/PSN/ATC offset derives a different session key, so the round-trip would not '',
          ascii ''close.''],
       ev_wire = DiffXprov, ev_crypto = ApcOnly,
       ev_proof = LiveTest (ascii ''emv_decrypt_k0_differential'') \<rparr>]"

definition KqArqcHandler_grounding :: "evidence list" where
  "KqArqcHandler_grounding =
    [\<lparr> ev_decision = concat
         [ascii ''KQ verifies an ARQC and optionally generates an ARPC '', right_arrow,
          ascii '' APC verify_auth_request_cryptogram. Scheme ID selects the session-key method on EMV Option '',
          ascii ''A: Visa (Scheme '', apostrophe, ascii ''0'', apostrophe, ascii ''), Mastercard M/Chip (Scheme '',
          apostrophe, ascii ''1'', apostrophe, ascii ''), Amex AEIPS (Scheme '', apostrophe, ascii ''2'', apostrophe,
          ascii ''). Skip-verify modes 3/4 are rejected as having no APC equivalent. Mode 1/2 map to ARPC '',
          ascii ''Method 1 (ARC) / Method 2 (CSU + proprietary data).''],
       ev_because = concat
         [ascii ''PUGD0537-004 Rev A p.468 (KQ). Verified live for the Mastercard scheme ('', apostrophe, ascii ''1'',
          apostrophe, ascii '', Option A + Mastercard proprietary SKD): APC mints a valid ARQC via '',
          ascii ''generate_auth_request_cryptogram under a created E0 IMK (DeriveKey mode), the proxy'', apostrophe,
          ascii ''s KQ handler verifies it through APC and ACCEPTS (00), and a one-bit-corrupted ARQC is '',
          ascii ''REJECTED (01), across randomized PAN / PSN / ATC / Unpredictable Number / txn length '', em_dash,
          ascii '' the differential confirms the UN is forwarded to APC'', apostrophe,
          ascii ''s Mastercard session-key derivation. The Amex scheme ('', apostrophe, ascii ''2'', apostrophe,
          ascii '', Option A + Amex SKD) is verified the same way in arqc_verify_kq_amex_differential. The '',
          ascii ''Visa scheme ('', apostrophe, ascii ''0'', apostrophe,
          ascii '', Option A + Visa SKD: PAN + PAN seq, no ATC/UN in derivation) is verified the same way in '',
          ascii ''arqc_verify_kq_visa_differential: APC mints a valid Visa ARQC under '',
          ascii ''SessionKeyDerivation::Visa, the proxy ACCEPTS (00), and a one-bit-corrupted ARQC is '',
          ascii ''REJECTED (01) across 32 randomized cases. (This corrected an earlier over-conservative gate '',
          em_dash, ascii '' Visa VIS is not static-only; APC exposes SessionKeyDerivation::Visa, AWS'', apostrophe,
          ascii ''s payShield migration maps KQ Scheme 0 Visa -> it, and this repo'', apostrophe,
          ascii ''s KU handler already uses it.) ARPC generation is also verified live: the proxy'', apostrophe,
          ascii ''s ARPC equals a direct APC verify with the same response attributes '', em_dash,
          ascii '' Method 1 (ARC) in arqc_verify_kq_arpc_method1_differential and Method 2 (CSU + proprietary '',
          ascii ''auth data, incl. empty) in arqc_verify_kq_arpc_method2_differential. The error plumbing '',
          ascii ''(key-not-found '', right_arrow, ascii '' 10, unsupported-mode '', right_arrow,
          ascii '' 15) stays mock-tested.''],
       ev_wire = DiffXprov, ev_crypto = ApcOnly,
       ev_proof = LiveTest (ascii ''arqc_verify_kq_differential'') \<rparr>]"

definition KwArqcHandler_grounding :: "evidence list" where
  "KwArqcHandler_grounding =
    [\<lparr> ev_decision = concat
         [ascii ''KW verifies an ARQC and optionally generates an ARPC for the EMV / Cloud-Based SKD methods '',
          right_arrow,
          ascii '' APC verify_auth_request_cryptogram. The Scheme ID selects the session method (EMV2000 / '',
          ascii ''EMV Common / UnionPay); the explicit Derivation Method byte ('', apostrophe, ascii ''A'',
          apostrophe, ascii ''/'', apostrophe, ascii ''B'', apostrophe,
          ascii '') selects the EMV Option A/B major key and is authoritative (#23) rather than inferring it '',
          ascii ''from the Scheme ID'', apostrophe,
          ascii ''s even/odd convention. Cloud / LUK / Option-C / JCB schemes are rejected as having no APC '',
          ascii ''equivalent.''],
       ev_because = concat
         [ascii ''PUGD0537-004 Rev A p.471 (KW). Verified live for the Option-A schemes: APC mints a valid '',
          ascii ''ARQC via generate_auth_request_cryptogram under a created E0 IMK (DeriveKey mode), the proxy'',
          apostrophe,
          ascii ''s KW handler verifies it through APC and ACCEPTS (00), and a one-bit-corrupted ARQC is '',
          ascii ''REJECTED (01), across randomized inputs '', em_dash, ascii '' sweeping schemes '', apostrophe,
          ascii ''0'', apostrophe, ascii ''/'', apostrophe, ascii ''1'', apostrophe, ascii '' (EMV2000), '',
          apostrophe, ascii ''2'', apostrophe, ascii ''/'', apostrophe, ascii ''3'', apostrophe,
          ascii '' (EMV Common) and '', apostrophe, ascii ''C'', apostrophe, ascii '' (UnionPay, Vers 4.2 '', em_dash,
          ascii '' p.471), all Option A (arqc_verify_kw_differential). Scheme '', apostrophe, ascii ''C'', apostrophe,
          ascii '' maps onto APC'', apostrophe,
          ascii ''s native UnionPay session method, added 2026-07-15; it was gated as having no APC '',
          ascii ''equivalent before that. The Option-B schemes ('', apostrophe, ascii ''1'', apostrophe, ascii ''/'',
          apostrophe, ascii ''3'', apostrophe, ascii '') need a PAN > 16 digits, which the 8-byte BCD PAN field can'',
          apostrophe, ascii ''t carry (see the EMV PAN-length gap), and the ARPC Method 1/2 generation path stays '',
          ascii ''mock-tested; those are the next step.''],
       ev_wire = DiffXprov, ev_crypto = ApcOnly,
       ev_proof = LiveTest (ascii ''arqc_verify_kw_differential'') \<rparr>]"

definition UnionPayArqcHandler_grounding :: "evidence list" where
  "UnionPayArqcHandler_grounding =
    [\<lparr> ev_decision = concat
         [ascii ''JS verifies a UnionPay (CUP) Authorisation Request Cryptogram '', right_arrow,
          ascii '' APC verify_auth_request_cryptogram. Response code JT.''],
       ev_because = concat
         [ascii ''PUGD0538-003 '', section_sign,
          ascii ''7 p.122. Verified live end-to-end: APC mints a valid ARQC via '',
          ascii ''generate_auth_request_cryptogram (UnionPay, Option A) under a created IMK-AC (E0, DeriveKey '',
          ascii ''mode), the proxy'', apostrophe,
          ascii ''s JS handler verifies it through APC and ACCEPTS (00), and a one-bit-corrupted ARQC is '',
          ascii ''REJECTED (01), across randomized PAN / PSN / ATC / txn length (32/32, us-east-1). CUP was '',
          ascii ''mapped onto EMV2000 until APC added a native UnionPay method on 2026-07-15. A live '',
          ascii ''cross-check settles that the earlier mapping was not wrong: minting under EMV2000 and '',
          ascii ''verifying under UnionPay ACCEPTS all 32 cases while a one-bit-corrupted ARQC is still '',
          ascii ''REJECTED, so APC'', apostrophe,
          ascii ''s UnionPay derivation is functionally identical to EMV2000 over PAN + PAN seq + ATC. The '',
          ascii ''switch is for faithfulness to the scheme, not a behaviour change.''],
       ev_wire = DiffXprov, ev_crypto = ApcOnly,
       ev_proof = LiveTest (ascii ''arqc_verify_js_differential'') \<rparr>]"

section \<open>More MAC commands\<close>

definition HmacHandler_grounding :: "evidence list" where
  "HmacHandler_grounding =
    [\<lparr> ev_decision = concat
         [ascii ''LQ (generate HMAC) and LS (verify HMAC) return Unsupported (68) '', em_dash,
          ascii '' gated pending wire-format validation, NOT because APC lacks the capability.''],
       ev_because = concat
         [ascii ''APC supports HMAC via generate_mac/verify_mac (AWS Payment Cryptography Data API: '',
          ascii ''generation attributes accept HMAC with a TR31_M7_HMAC_KEY, and the valid algorithms include '',
          ascii ''HMAC_SHA224/256/384/512 '', em_dash,
          ascii '' so the SHA-224 variant is confirmed available). LQ/LS are therefore a realistic future '',
          ascii ''mapping, gated only because the previous handler parsed a fabricated layout that does not '',
          ascii ''match the authoritative wire format (PUGD0537-004 Rev A p.405/407): a 2N hash id, a '',
          ascii ''byte-length HMAC-truncation field, a length-prefixed inline key, and a raw-byte (not hex) '',
          ascii ''message. A faithful mapping must resolve the HMAC-length truncation and the raw-byte '',
          ascii ''key/message representation against APC'', apostrophe,
          ascii ''s hex-message generate_mac/verify_mac before enabling. Until then, returning 68 is correct '',
          ascii ''rather than proxying a guessed layout. (Forward note: APC'', apostrophe,
          ascii ''s HMAC primitive is already cross-validated against CyberChef Payments, a separate '',
          ascii ''payment-cryptography implementation '', em_dash,
          ascii '' APC HMAC-SHA256 == CyberChef Payments over random keys/messages '', em_dash,
          ascii '' so when LQ/LS is implemented the APC crypto leg is already corroborated 2impl; only the '',
          ascii ''wire mapping remains.)''],
       ev_wire = NoWire, ev_crypto = NoCrypto,
       ev_proof = Gated (ascii ''wire format not yet validated against APC (deferred implementation)'') \<rparr>]"

definition MacHandler_grounding :: "evidence list" where
  "MacHandler_grounding =
    [\<lparr> ev_decision = concat
         [ascii ''M6/M8 wire: Mode+InputFormat+MACSize+MACAlgo+PadMethod(5'', times_sign,
          ascii ''1N)+KeyType(3H) before the key. MAC size '', apostrophe, ascii ''0'', apostrophe,
          ascii ''=4 bytes, '', apostrophe, ascii ''1'', apostrophe, ascii ''=8 bytes.''],
       ev_because = concat
         [ascii ''PUGD0537-004 Rev A p.365/368. Verified live: proxy M6 MAC == APC generate_mac (ISO9797 '',
          ascii ''Alg3) over randomized message lengths, plus an M8 verify round-trip. Note: APC returns a '',
          ascii ''4-byte MAC for ISO9797_ALGORITHM3, so size '', apostrophe, ascii ''0'', apostrophe,
          ascii '' is the faithful case (verified live).''],
       ev_wire = DiffXprov, ev_crypto = ApcOnly,
       ev_proof = LiveTest (ascii ''mac_m6_m8_differential'') \<rparr>,
     \<lparr> ev_decision = concat
         [ascii ''C2/C4 wire: BlockNumber+KeyType+MACMode+MessageType(4'', times_sign, ascii ''1N) before the key '',
          em_dash, ascii '' a DISTINCT header from M6. MAC generation Mode selects the algorithm: '', apostrophe,
          ascii ''0'', apostrophe, ascii ''=X9.9'', right_arrow, ascii ''ISO9797 Alg1, '', apostrophe, ascii ''1'',
          apostrophe, ascii ''=X9.19'', right_arrow, ascii ''ISO9797 Alg3.''],
       ev_because = concat
         [ascii ''PUGD0537-004 Rev A p.583 (C2) / p.587 (C4). Verified live for both algorithms: proxy C2 MAC '',
          ascii ''== APC generate_mac (Alg1 via M1 key, Alg3 via M3 key) over randomized mode + message '',
          ascii ''length, plus a C4 verify round-trip.''],
       ev_wire = DiffXprov, ev_crypto = ApcOnly,
       ev_proof = LiveTest (ascii ''mac_c2_c4_differential'') \<rparr>,
     \<lparr> ev_decision = concat
         [ascii ''The ISO 9797-1 Algorithm 3 (Retail MAC) primitive is additionally cross-validated against a '',
          ascii ''second implementation (2impl). This covers the Alg3 path '', em_dash,
          ascii '' M6/M8 and the C2/C4 Alg3 mode. The Alg1 mode (C2/C4 mode '', apostrophe, ascii ''0'', apostrophe,
          ascii '') is NOT yet cross-validated.''],
       ev_because = concat
         [ascii ''APC'', apostrophe, ascii ''s generate_mac ISO9797_ALGORITHM3 agrees with CyberChef Payments '',
          em_dash, ascii '' a purpose-built payment-cryptography implementation, a separate codebase '', em_dash,
          ascii '' over randomized TDES key and block-aligned message, and BOTH match a from-spec Retail-MAC '',
          ascii ''computation written directly from ISO 9797-1. Combined with the proxy==APC differentials '',
          ascii ''above, the proxy'', apostrophe,
          ascii ''s ISO9797-Alg3 MAC agrees with a second implementation plus a genuinely independent '',
          ascii ''from-spec check. Honest strength: CyberChef Payments shares an author with this proxy (so '',
          ascii ''it cross-checks the implementation, not a neutral oracle) and is less battle-tested than '',
          ascii ''APC '', em_dash,
          ascii '' but the from-spec agreement is an author-independent anchor, and APC (AWS) is independent '',
          ascii ''too. Run separately from this repository'', apostrophe,
          ascii ''s automated tests; Alg1 out of scope.''],
       ev_wire = NoWire, ev_crypto = TwoImpl,
       ev_proof = ManualCite (concat
         [ascii ''cross-validated against CyberChef Payments + a from-spec ISO 9797-1 computation (Alg3 '',
          ascii ''only); run separately'']) \<rparr>]"

definition MacTranslateHandler_grounding :: "evidence list" where
  "MacTranslateHandler_grounding =
    [\<lparr> ev_decision = concat
         [ascii ''MY verifies an inbound MAC under one key, then generates an outbound MAC under a second key '',
          ascii ''for the same message (per-direction MAC size/algorithm). A half inbound MAC (size '', apostrophe,
          ascii ''1'', apostrophe,
          ascii '' = 2 bytes) is verified by regenerating the full MAC and comparing the leading bytes.''],
       ev_because = concat
         [ascii ''PUGD0537-004 Rev A p.371. Verified live (ISO9797 Alg1) across all inbound'', times_sign,
          ascii ''outbound MAC-size combos: proxy outbound MAC == APC generate_mac under the outbound key. '',
          ascii ''The live differential caught the same half-MAC verify bug as GW '', em_dash,
          ascii '' the inbound half MAC was handed to APC verify_mac, which rejects it '', em_dash,
          ascii '' fixed with the regenerate-and-compare-prefix path.''],
       ev_wire = DiffXprov, ev_crypto = ApcOnly,
       ev_proof = LiveTest (ascii ''mac_translate_my_differential'') \<rparr>,
     \<lparr> ev_decision = concat
         [ascii ''ALG3 and CMAC directions, and differing inbound/outbound algorithms, are parsed but not yet '',
          ascii ''covered by a live differential (only ALG1 is).''],
       ev_because = concat
         [ascii ''PUGD0537-004 Rev A p.371 '', em_dash,
          ascii '' same per-direction generate/verify mapping as the live-verified ALG1 path; broadening the '',
          ascii ''differential is the tracked next step.''],
       ev_wire = Cited, ev_crypto = NoCrypto,
       ev_proof = ManualCite (ascii ''PUGD0537-004 Rev A p.371; ALG3/CMAC not yet live-differentialed'') \<rparr>]"

definition LegacyMacHandler_grounding :: "evidence list" where
  "LegacyMacHandler_grounding =
    [\<lparr> ev_decision = concat
         [ascii ''MA/MC ('', apostrophe, ascii ''~'', apostrophe,
          ascii ''-terminated) and MK/MM (3H-length-prefixed) generate/verify an ISO 9797-1 Alg1 MAC under a '',
          ascii ''TAK. APC'', apostrophe, ascii ''s Alg1 MAC is truncated to the 8H (4-byte) wire width.''],
       ev_because = concat
         [ascii ''PUGD0538-003 pp.90-104. Verified live across both wire styles and randomized data lengths: '',
          ascii ''proxy MAC == APC generate_mac (Iso9797Algorithm1), and the MC/MM verify round-trip accepts '',
          ascii ''the proxy'', apostrophe,
          ascii ''s MAC. Note: APC returns a 4-byte Alg1 MAC (verified live), so the handler'', apostrophe,
          ascii ''s 8H truncation is a no-op '', em_dash,
          ascii '' correcting an earlier comment that claimed APC returns 16H.''],
       ev_wire = DiffXprov, ev_crypto = ApcOnly,
       ev_proof = LiveTest (ascii ''legacy_mac_ma_mc_mk_mm_differential'') \<rparr>,
     \<lparr> ev_decision = concat
         [ascii ''ME/MO (verify-then-re-MAC), MU/MW (mode-prefixed Alg1), MQ (ZAK Alg1), MS (Alg3 X9.19) '',
          ascii ''share the same generate/verify paths but are not yet covered by a live differential.''],
       ev_because = concat
         [ascii ''PUGD0538-003 pp.90-104 '', em_dash,
          ascii '' manual-cited layout and the same ISO9797 Alg1/Alg3 APC mapping as the live-verified '',
          ascii ''commands; a live differential for these is the tracked next step.''],
       ev_wire = Cited, ev_crypto = NoCrypto,
       ev_proof = ManualCite (ascii ''PUGD0538-003 pp.90-104; not yet live-differentialed'') \<rparr>]"

section \<open>Card verification values\<close>

definition CvvHandler_grounding :: "evidence list" where
  "CvvHandler_grounding =
    [\<lparr> ev_decision = concat
         [ascii ''CW/CY wire: CVK(32H) then a VARIABLE-LENGTH '', apostrophe, ascii '';'', apostrophe,
          ascii ''-terminated PAN, then expiry(4N) + service code(3N) '', em_dash, ascii '' not a fixed-16 PAN.''],
       ev_because = concat
         [ascii ''PUGD0537-004 Rev A p.250 (CW) / p.303 (CY). A fixed-16 parse mis-reads Amex(15)/19-digit '',
          ascii ''PANs. Verified live: proxy CVV == APC generate_card_validation_data across randomized PAN '',
          ascii ''lengths (incl. 15) and service codes, plus a CY round-trip.''],
       ev_wire = DiffXprov, ev_crypto = ApcOnly,
       ev_proof = LiveTest (ascii ''cvv_cw_cy_differential'') \<rparr>,
     \<lparr> ev_decision = concat
         [ascii ''The CVV primitive is additionally cross-validated against a second implementation (2impl) '',
          em_dash, ascii '' beyond agreement with APC alone.''],
       ev_because = concat
         [ascii ''APC'', apostrophe, ascii ''s generate_card_validation_data agrees with CyberChef Payments '',
          em_dash,
          ascii '' a purpose-built, inspectable payment-cryptography implementation, a separate codebase in a '',
          ascii ''different language '', em_dash,
          ascii '' over randomized PAN / expiry / service code with a shared clear CVK. Combined with the '',
          ascii ''proxy==APC differential above, the proxy'', apostrophe,
          ascii ''s CVV agrees with a second implementation. Honest strength: CyberChef Payments shares an '',
          ascii ''author with this proxy, so it cross-checks the implementation (catching coding-level '',
          ascii ''divergence) rather than being a neutral third-party oracle, and it is less battle-tested '',
          ascii ''than APC '', em_dash,
          ascii '' so this is corroboration; APC (AWS) is the independent reference. Run separately from this '',
          ascii ''repository'', apostrophe, ascii ''s automated tests.''],
       ev_wire = NoWire, ev_crypto = TwoImpl,
       ev_proof = ManualCite (concat
         [ascii ''cross-validated against CyberChef Payments (a second implementation by the same author); '',
          ascii ''run separately'']) \<rparr>,
     \<lparr> ev_decision = ascii ''NY (Mastercard CVC3) and RY (Amex CSC) return Unsupported (68).'',
       ev_because = concat
         [ascii ''NY'', apostrophe,
          ascii ''s NZ response returns two values (IVCVC3 + CVC3) and RY validates 3 CSC lengths at once / '',
          ascii ''includes AEVV '', em_dash, ascii '' neither reproducible as APC'', apostrophe,
          ascii ''s single generate/verify_card_validation_data call (PUGD0537-004 Rev A p.493 (NY) / p.315 '',
          ascii ''(RY)).''],
       ev_wire = NoWire, ev_crypto = NoCrypto,
       ev_proof = Gated (ascii ''no single-call APC equivalent; see handler doc'') \<rparr>]"

definition DynamicCvvHandler_grounding :: "evidence list" where
  "DynamicCvvHandler_grounding =
    [\<lparr> ev_decision = ascii ''QY (Generate a Dynamic CVV) and PM (Verify a Dynamic CVV/CVC) return Unsupported (68).'',
       ev_because = concat
         [ascii ''PUGD0537-004 Rev A p.306 (QY) / p.308 (PM). These are EMV multi-scheme dynamic-CVV '',
          ascii ''operations '', em_dash,
          ascii '' not the static-CVK CW/CY algorithm. The wire begins with a Scheme ID and derives a '',
          ascii ''card-unique key from an EMV issuer master key (E-type) via an explicit Option A/B method. '',
          ascii ''Only Visa dCVV (Scheme '', apostrophe, ascii ''0'', apostrophe, ascii '') plausibly maps to APC'',
          apostrophe,
          ascii ''s DynamicCardVerificationValue, but APC requires a PAN sequence number the Visa-dCVV wire '',
          ascii ''does not carry, and the ATC width/encoding and card-key derivation must be validated '',
          ascii ''end-to-end before a mapping can be trusted. The other schemes (Visa AV/dCVV2, Mastercard '',
          ascii ''CVC3, Amex, Discover, Oberthur, JCB, Gemalto) have no APC equivalent. Gated to avoid '',
          ascii ''emitting a cryptographically wrong dCVV.''],
       ev_wire = NoWire, ev_crypto = NoCrypto,
       ev_proof = Gated (ascii ''EMV card-unique-key dCVV; no validated APC mapping yet'') \<rparr>]"

section \<open>Heartbeat and unavailable commands\<close>

definition HeartbeatHandler_grounding :: "evidence list" where
  "HeartbeatHandler_grounding =
    [\<lparr> ev_decision = ascii ''B2 is a heartbeat/echo: returns success with an empty payload and makes no APC call.'',
       ev_because = concat
         [ascii ''PUGD0537-004 Rev A p.433 (B2, '', quote_mark, ascii ''Echo Command'', quote_mark,
          ascii ''). No cryptography and no key material are involved, so the proxy answers locally '', em_dash,
          ascii '' host health checks succeed without a data-plane round-trip. Nothing to differentially '',
          ascii ''verify against APC.''],
       ev_wire = Cited, ev_crypto = NoCrypto,
       ev_proof = ManualCite (concat
         [ascii ''PUGD0537-004 Rev A p.433 '', em_dash, ascii '' B2 Echo Command, empty success response'']) \<rparr>]"

definition NotAvailableHandler_grounding :: "evidence list" where
  "NotAvailableHandler_grounding =
    [\<lparr> ev_decision = concat
         [ascii ''PIN operations return 68 (AQ, BA, BC, BE, BK, CG, DE, DG, EE, EG, FW, JC, JE, JG, LE, LG, '',
          ascii ''LO, NG).''],
       ev_because = concat
         [ascii ''Each needs an APC path that does not exist: RSA-encrypted PIN decrypt, LMK-encrypted PIN '',
          ascii ''I/O, decrypt-and-compare verification, or clear-PIN input/output (rejected under PCI PIN). '',
          ascii ''APC PinVerificationAttributes is IBM3624/VisaPVV only and has no LMK concept.''],
       ev_wire = NoWire, ev_crypto = NoCrypto,
       ev_proof = Gated (concat
         [ascii ''no APC equivalent '', em_dash, ascii '' RSA/LMK/clear-PIN paths'']) \<rparr>,
     \<lparr> ev_decision = ascii ''Encrypt/hash operations return 68 (EM, EU, EW, EY, GM).'',
       ev_because = concat
         [ascii ''Key-block format conversion, RSA signature generate/verify, and generic data hashing have '',
          ascii ''no corresponding APC data-plane operation.''],
       ev_wire = NoWire, ev_crypto = NoCrypto,
       ev_proof = Gated (concat
         [ascii ''no APC op '', em_dash, ascii '' key-block conv / RSA sig / hash'']) \<rparr>,
     \<lparr> ev_decision = concat
         [ascii ''Key-management operations return 68 '',
          ascii ''(A0/A4/A6/A8/AA/AC/AE/AG/AK/AM/AS/AU/AW/BI/B0/B8/BG/BU/BW/BS/BY/CS/DW/DY/FA/FC/FE/FG/FK/GC/G'',
          ascii ''E/GG/GK/GY/HA/HC/HY/IA/J6/J8/JK/K8/KA/KC/KG/KI/L0/LU/LW/MG/MI).''],
       ev_because = concat
         [ascii ''These generate, import, export, translate, or manage keys under an LMK, or compute key '',
          ascii ''check values / derive card-unique keys. APC keys are provisioned externally through the '',
          ascii ''control plane, not minted or wrapped via this transaction proxy, so none map to a '',
          ascii ''data-plane call.''],
       ev_wire = NoWire, ev_crypto = NoCrypto,
       ev_proof = Gated (concat
         [ascii ''key management is control-plane / LMK '', em_dash, ascii '' out of proxy scope'']) \<rparr>,
     \<lparr> ev_decision = concat
         [ascii ''RTKS / AS2805.6.2 Transaction Key Scheme commands return 68 (RI/HI, RK/HK, RU/HU, RW/HW, '',
          ascii ''RM/HM, RO/HO, RQ/HQ, RS/HS).''],
       ev_because = concat
         [ascii ''The Racal (Rx) and Australian / AS2805.6.2 (Hx) Transaction Key Scheme is a per-transaction '',
          ascii ''key-management technique closely coupled with message authentication: a single command '',
          ascii ''bundles transaction-key derivation, MAC-residue key evolution, PIN-block processing, and '',
          ascii ''MAC generate/verify (PUGD0537-004 Rev A '', section_sign,
          ascii ''5.5). APC models none of this as a unit '', em_dash,
          ascii '' there is no bundled TKS abstraction and no MAC-residue concept, and the individual steps '',
          ascii ''map to different APC calls depending on the active TKS configuration, so the command cannot '',
          ascii ''be reassembled faithfully from spec without live traffic. Gated rather than emit a partial, '',
          ascii ''unverifiable decomposition.''],
       ev_wire = NoWire, ev_crypto = NoCrypto,
       ev_proof = Gated (concat
         [ascii ''RTKS/AS2805.6.2 transaction key scheme '', em_dash,
          ascii '' no bundled APC abstraction; MAC residue and per-transaction key derivation have no APC '',
          ascii ''representation'']) \<rparr>,
     \<lparr> ev_decision = concat
         [ascii ''Administrative/diagnostic operations return 68 (N0, NC, NI, NO, Q0, Q6, Q8, QH, RA, SE, TG, '',
          ascii ''TY, UI, VW, VY, WC, WQ, WW, WY).''],
       ev_because = concat
         [ascii ''Random-value generation, host/connectivity queries, and vendor-specific admin/diagnostic '',
          ascii ''commands have no APC data-plane equivalent.''],
       ev_wire = NoWire, ev_crypto = NoCrypto,
       ev_proof = Gated (concat
         [ascii ''admin/diagnostic '', em_dash, ascii '' no APC data-plane equivalent'']) \<rparr>]"

end
