(* ===== verification/Rust_Std.thy ===== *)
theory Rust_Std
  imports Prelude
begin

text \<open>
  The parts of the Rust standard library (and of the \<open>hex\<close> encoder the sources wrap) that
  the proxy relies on: UTF-8 validation and lossy decoding, integer parsing, ASCII case,
  trimming, hexadecimal text and string slicing at character boundaries. They are written
  out on bytes because the proxy feeds them attacker-controlled wire data: what
  \<open>String::from_utf8_lossy\<close> does to a stray \<open>0xFF\<close>, or that \<open>usize::from_str_radix\<close>
  accepts a leading plus sign, is visible at the wire.
\<close>

section \<open>UTF-8\<close>

definition is_cont :: "byte \<Rightarrow> bool" where
  "is_cont b \<longleftrightarrow> 0x80 \<le> b \<and> b \<le> 0xBF"

text \<open>The byte after the current one, or zero past the end (never a continuation byte).\<close>

definition safe_get :: "bytes \<Rightarrow> nat \<Rightarrow> byte" where
  "safe_get bs i = (if i < length bs then bs ! i else 0)"

text \<open>Which second bytes a three- or four-byte lead admits (no overlong forms, no surrogates).\<close>

definition second3 :: "byte \<Rightarrow> byte \<Rightarrow> bool" where
  "second3 b c \<longleftrightarrow>
     (if b = 0xE0 then 0xA0 \<le> c \<and> c \<le> 0xBF
      else if b = 0xED then 0x80 \<le> c \<and> c \<le> 0x9F
      else is_cont c)"

definition second4 :: "byte \<Rightarrow> byte \<Rightarrow> bool" where
  "second4 b c \<longleftrightarrow>
     (if b = 0xF0 then 0x90 \<le> c \<and> c \<le> 0xBF
      else if b = 0xF4 then 0x80 \<le> c \<and> c \<le> 0x8F
      else is_cont c)"

text \<open>
  One step of the decoder at lead byte \<open>b\<close> with the rest \<open>bs\<close>: whether a whole character
  is there, and how many bytes the character, or the ill-formed prefix that one
  replacement character stands for, takes up.
\<close>

definition utf8_step :: "byte \<Rightarrow> bytes \<Rightarrow> bool \<times> nat" where
  "utf8_step b bs =
     (if b < 0x80 then (True, 1)
      else if 0xC2 \<le> b \<and> b \<le> 0xDF then
        (if is_cont (safe_get bs 0) then (True, 2) else (False, 1))
      else if 0xE0 \<le> b \<and> b \<le> 0xEF then
        (if \<not> second3 b (safe_get bs 0) then (False, 1)
         else if \<not> is_cont (safe_get bs 1) then (False, 2)
         else (True, 3))
      else if 0xF0 \<le> b \<and> b \<le> 0xF4 then
        (if \<not> second4 b (safe_get bs 0) then (False, 1)
         else if \<not> is_cont (safe_get bs 1) then (False, 2)
         else if \<not> is_cont (safe_get bs 2) then (False, 3)
         else (True, 4))
      else (False, 1))"

lemma utf8_step_pos: "0 < snd (utf8_step b bs)"
  by (simp add: utf8_step_def)

function utf8_valid :: "bytes \<Rightarrow> bool" where
  "utf8_valid [] = True"
| "utf8_valid (b # bs) =
     (fst (utf8_step b bs) \<and> utf8_valid (drop (snd (utf8_step b bs) - 1) bs))"
  by pat_completeness auto
termination
  by (relation "measure length") auto

text \<open>The UTF-8 encoding of U+FFFD.\<close>

definition replacement :: bytes where
  "replacement = [0xEF, 0xBF, 0xBD]"

function from_utf8_lossy :: "bytes \<Rightarrow> bytes" where
  "from_utf8_lossy [] = []"
| "from_utf8_lossy (b # bs) =
     (case utf8_step b bs of (ok, n) \<Rightarrow>
        (if ok then b # take (n - 1) bs else replacement) @ from_utf8_lossy (drop (n - 1) bs))"
  by pat_completeness auto
termination
  by (relation "measure length") auto

definition from_utf8 :: "bytes \<Rightarrow> bytes option" where
  "from_utf8 bs = (if utf8_valid bs then Some bs else None)"

definition is_ascii :: "bytes \<Rightarrow> bool" where
  "is_ascii bs \<longleftrightarrow> (\<forall>b \<in> set bs. b < 0x80)"

text \<open>
  \<open>s.is_char_boundary(n)\<close> and \<open>&s[..n]\<close>: slicing a string inside a character, or past its
  end, is a panic.
\<close>

definition is_char_boundary :: "bytes \<Rightarrow> nat \<Rightarrow> bool" where
  "is_char_boundary s n \<longleftrightarrow> n = 0 \<or> n = length s \<or> (n < length s \<and> \<not> is_cont (s ! n))"

definition str_prefix :: "bytes \<Rightarrow> nat \<Rightarrow> (bytes, 'e) res" where
  "str_prefix s n = (if is_char_boundary s n then Ok (take n s) else Panic)"

text \<open>\<open>s.chars().count()\<close>\<close>

definition char_count :: "bytes \<Rightarrow> nat" where
  "char_count s = length (filter (\<lambda>b. \<not> is_cont b) s)"

section \<open>Integers in text\<close>

text \<open>\<open>char::to_digit\<close>\<close>

definition to_digit :: "nat \<Rightarrow> byte \<Rightarrow> nat option" where
  "to_digit radix b =
     (let d = (if 0x30 \<le> b \<and> b \<le> 0x39 then Some (unat b - 0x30)
               else if 0x61 \<le> b \<and> b \<le> 0x7A then Some (unat b - 0x61 + 10)
               else if 0x41 \<le> b \<and> b \<le> 0x5A then Some (unat b - 0x41 + 10)
               else None)
      in case d of None \<Rightarrow> None | Some v \<Rightarrow> if v < radix then Some v else None)"

fun digits_value :: "nat \<Rightarrow> nat \<Rightarrow> bytes \<Rightarrow> nat option" where
  "digits_value radix acc [] = Some acc"
| "digits_value radix acc (b # bs) =
     (case to_digit radix b of
        None \<Rightarrow> None
      | Some d \<Rightarrow> digits_value radix (acc * radix + d) bs)"

text \<open>
  \<open>usize::from_str_radix\<close>: the empty string and a lone sign are errors, one leading plus
  sign is skipped, and a value that does not fit 64 bits is an error.
\<close>

definition from_str_radix :: "nat \<Rightarrow> bytes \<Rightarrow> nat option" where
  "from_str_radix radix s =
     (if s = [] \<or> s = [0x2B] \<or> s = [0x2D] then None
      else case digits_value radix 0 (if hd s = 0x2B then tl s else s) of
             None \<Rightarrow> None
           | Some v \<Rightarrow> if v < 2 ^ 64 then Some v else None)"

text \<open>\<open>str::parse::<i32>\<close>\<close>

definition parse_i32 :: "bytes \<Rightarrow> int option" where
  "parse_i32 s =
     (if s = [] \<or> s = [0x2B] \<or> s = [0x2D] then None
      else if hd s = 0x2D then
        (case digits_value 10 0 (tl s) of
           None \<Rightarrow> None
         | Some v \<Rightarrow> if v \<le> 2 ^ 31 then Some (- int v) else None)
      else case digits_value 10 0 (if hd s = 0x2B then tl s else s) of
             None \<Rightarrow> None
           | Some v \<Rightarrow> if v < 2 ^ 31 then Some (int v) else None)"

section \<open>Hexadecimal text\<close>

definition hex_digit :: "nat \<Rightarrow> byte" where
  "hex_digit n = (if n < 10 then of_nat (0x30 + n) else of_nat (0x37 + n))"

text \<open>\<open>hex::encode_upper\<close>\<close>

definition encode_upper :: "bytes \<Rightarrow> bytes" where
  "encode_upper bs = concat (map (\<lambda>b. [hex_digit (unat b div 16), hex_digit (unat b mod 16)]) bs)"

text \<open>\<open>Display\<close> of a \<open>usize\<close>.\<close>

fun display_nat :: "nat \<Rightarrow> bytes" where
  "display_nat n = (if n < 10 then [0x30 + of_nat n] else display_nat (n div 10) @ [0x30 + of_nat (n mod 10)])"

declare display_nat.simps [simp del]

definition is_ascii_hexdigit :: "byte \<Rightarrow> bool" where
  "is_ascii_hexdigit b \<longleftrightarrow>
     (0x30 \<le> b \<and> b \<le> 0x39) \<or> (0x41 \<le> b \<and> b \<le> 0x46) \<or> (0x61 \<le> b \<and> b \<le> 0x66)"

text \<open>\<open>format!("{n:X}")\<close> and \<open>format!("{n:04X}")\<close>\<close>

fun hex_nat :: "nat \<Rightarrow> bytes" where
  "hex_nat n = (if n < 16 then [hex_digit n] else hex_nat (n div 16) @ [hex_digit (n mod 16)])"

declare hex_nat.simps [simp del]

definition fmt_04X :: "nat \<Rightarrow> bytes" where
  "fmt_04X n = (let h = hex_nat n in replicate (4 - length h) 0x30 @ h)"

section \<open>ASCII case, trimming, padding\<close>

definition ascii_upper :: "byte \<Rightarrow> byte" where
  "ascii_upper b = (if 0x61 \<le> b \<and> b \<le> 0x7A then b - 0x20 else b)"

definition to_ascii_uppercase :: "bytes \<Rightarrow> bytes" where
  "to_ascii_uppercase s = map ascii_upper s"

definition eq_ignore_ascii_case :: "bytes \<Rightarrow> bytes \<Rightarrow> bool" where
  "eq_ignore_ascii_case s t \<longleftrightarrow> to_ascii_uppercase s = to_ascii_uppercase t"

definition starts_with :: "bytes \<Rightarrow> bytes \<Rightarrow> bool" where
  "starts_with p s \<longleftrightarrow> take (length p) s = p"

definition trim_end_matches :: "byte \<Rightarrow> bytes \<Rightarrow> bytes" where
  "trim_end_matches c s = rev (dropWhile (\<lambda>b. b = c) (rev s))"

definition trim_start_matches :: "byte \<Rightarrow> bytes \<Rightarrow> bytes" where
  "trim_start_matches c s = dropWhile (\<lambda>b. b = c) s"

text \<open>The UTF-8 encodings of the characters with the Unicode property \<open>White_Space\<close>.\<close>

definition whitespace :: "bytes list" where
  "whitespace =
     [[0x09], [0x0A], [0x0B], [0x0C], [0x0D], [0x20], [0xC2, 0x85], [0xC2, 0xA0],
      [0xE1, 0x9A, 0x80],
      [0xE2, 0x80, 0x80], [0xE2, 0x80, 0x81], [0xE2, 0x80, 0x82], [0xE2, 0x80, 0x83],
      [0xE2, 0x80, 0x84], [0xE2, 0x80, 0x85], [0xE2, 0x80, 0x86], [0xE2, 0x80, 0x87],
      [0xE2, 0x80, 0x88], [0xE2, 0x80, 0x89], [0xE2, 0x80, 0x8A], [0xE2, 0x80, 0xA8],
      [0xE2, 0x80, 0xA9], [0xE2, 0x80, 0xAF], [0xE2, 0x81, 0x9F], [0xE3, 0x80, 0x80]]"

text \<open>Remove every leading occurrence of one of the given non-empty strings.\<close>

function strip_any :: "bytes list \<Rightarrow> bytes \<Rightarrow> bytes" where
  "strip_any ps s =
     (case find (\<lambda>p. p \<noteq> [] \<and> starts_with p s) ps of
        None \<Rightarrow> s
      | Some p \<Rightarrow> strip_any ps (drop (length p) s))"
  by pat_completeness auto
termination
proof (relation "measure (length o snd)")
  show "wf (measure (length o snd))" by simp
next
  fix ps s p
  assume "find (\<lambda>p. p \<noteq> [] \<and> starts_with p s) ps = Some p"
  then have "p \<noteq> []" and "take (length p) s = p"
    by (auto simp: find_Some_iff starts_with_def)
  then have "0 < length p" and "s \<noteq> []" by auto
  then show "((ps, drop (length p) s), ps, s) \<in> measure (length o snd)" by simp
qed

declare strip_any.simps [simp del]

definition trim_start :: "bytes \<Rightarrow> bytes" where
  "trim_start s = strip_any whitespace s"

definition trim_end :: "bytes \<Rightarrow> bytes" where
  "trim_end s = rev (strip_any (map rev whitespace) (rev s))"

definition trim :: "bytes \<Rightarrow> bytes" where
  "trim s = trim_end (trim_start s)"

text \<open>\<open>format!("{s:c<w}")\<close>: pad on the right to \<open>w\<close> characters, never truncating.\<close>

definition pad_right :: "byte \<Rightarrow> nat \<Rightarrow> bytes \<Rightarrow> bytes" where
  "pad_right c w s = s @ replicate (w - char_count s) c"

section \<open>Facts about decoding\<close>

declare utf8_valid.simps [simp del] from_utf8_lossy.simps [simp del]

lemmas utf8_eval = utf8_valid.simps from_utf8_lossy.simps utf8_step_def is_cont_def
  second3_def second4_def safe_get_def replacement_def

declare from_utf8_def [eval_simps] from_str_radix_def [eval_simps] to_digit_def [eval_simps]
  parse_i32_def [eval_simps] encode_upper_def [eval_simps] hex_digit_def [eval_simps]
  is_ascii_hexdigit_def [eval_simps] fmt_04X_def [eval_simps] ascii_upper_def [eval_simps]
  to_ascii_uppercase_def [eval_simps] eq_ignore_ascii_case_def [eval_simps]
  starts_with_def [eval_simps] trim_end_matches_def [eval_simps]
  trim_start_matches_def [eval_simps] str_prefix_def [eval_simps]
  is_char_boundary_def [eval_simps] pad_right_def [eval_simps] char_count_def [eval_simps]
  utf8_eval [eval_simps] hex_nat.simps [eval_simps]

lemma utf8_step_ascii: "b < 0x80 \<Longrightarrow> utf8_step b bs = (True, 1)"
  by (simp add: utf8_step_def)

lemma safe_get_cont: "is_cont (safe_get bs i) \<Longrightarrow> i < length bs"
  by (auto simp: safe_get_def is_cont_def split: if_splits)

lemma safe_get_second3: "second3 b (safe_get bs i) \<Longrightarrow> i < length bs"
  by (auto simp: safe_get_def second3_def is_cont_def split: if_splits)

lemma safe_get_second4: "second4 b (safe_get bs i) \<Longrightarrow> i < length bs"
  by (auto simp: safe_get_def second4_def is_cont_def split: if_splits)

lemma utf8_step_shape:
  obtains "\<And>cs. utf8_step b cs = (True, 1)"
  | "utf8_step b bs = (False, 1)"
  | "\<And>cs. safe_get cs 0 = safe_get bs 0 \<Longrightarrow> utf8_step b cs = (True, 2)" "0 < length bs"
  | "utf8_step b bs = (False, 2)" "0 < length bs"
  | "\<And>cs. safe_get cs 0 = safe_get bs 0 \<Longrightarrow> safe_get cs 1 = safe_get bs 1 \<Longrightarrow>
       utf8_step b cs = (True, 3)" "1 < length bs"
  | "utf8_step b bs = (False, 3)" "1 < length bs"
  | "\<And>cs. safe_get cs 0 = safe_get bs 0 \<Longrightarrow> safe_get cs 1 = safe_get bs 1 \<Longrightarrow>
       safe_get cs 2 = safe_get bs 2 \<Longrightarrow> utf8_step b cs = (True, 4)" "2 < length bs"
proof -
  define k1 k2 k3 k4 where "k1 = (b < 0x80)" and "k2 = (0xC2 \<le> b \<and> b \<le> 0xDF)"
    and "k3 = (0xE0 \<le> b \<and> b \<le> 0xEF)" and "k4 = (0xF0 \<le> b \<and> b \<le> 0xF4)"
  note step = utf8_step_def [of b, folded k1_def k2_def k3_def k4_def]
  note len = safe_get_cont [of bs 0] safe_get_cont [of bs 1] safe_get_cont [of bs 2]
    safe_get_second3 [of b bs 0] safe_get_second4 [of b bs 0]
  show thesis
    by (cases k1; cases k2; cases k3; cases k4; cases "is_cont (safe_get bs 0)";
        cases "is_cont (safe_get bs 1)"; cases "is_cont (safe_get bs 2)";
        cases "second3 b (safe_get bs 0)"; cases "second4 b (safe_get bs 0)")
      (use that len in \<open>simp_all add: step\<close>)
qed

lemma utf8_step_le: "snd (utf8_step b bs) \<le> Suc (length bs)"
  by (rule utf8_step_shape [where b = b and bs = bs]) (auto simp: Suc_le_eq)

text \<open>Only the bytes of the character itself decide whether it is well formed.\<close>

lemma utf8_step_local:
  assumes "fst (utf8_step b bs)"
  shows "utf8_step b (take (snd (utf8_step b bs) - 1) bs @ xs) = utf8_step b bs"
proof -
  have get: "safe_get (take n bs @ xs) i = safe_get bs i"
    if "i < n" "n \<le> length bs" for n i
    using that by (auto simp: safe_get_def nth_append)
  show ?thesis
    by (rule utf8_step_shape [where b = b and bs = bs]) (use assms in \<open>simp_all add: get Suc_le_eq\<close>)
qed

lemma is_ascii_utf8_valid: "is_ascii bs \<Longrightarrow> utf8_valid bs"
  by (induction bs) (auto simp: is_ascii_def utf8_valid.simps utf8_step_ascii)

lemma utf8_valid_lossy_id: "utf8_valid bs \<Longrightarrow> from_utf8_lossy bs = bs"
proof (induction bs rule: from_utf8_lossy.induct)
  case 1
  show ?case by (simp add: from_utf8_lossy.simps)
next
  case (2 b bs)
  obtain ok n where st: "utf8_step b bs = (ok, n)" by force
  with 2 show ?case
    by (simp add: utf8_valid.simps from_utf8_lossy.simps)
qed

lemma is_ascii_lossy_id: "is_ascii bs \<Longrightarrow> from_utf8_lossy bs = bs"
  by (simp add: is_ascii_utf8_valid utf8_valid_lossy_id)

lemma utf8_valid_replacement_append: "utf8_valid xs \<Longrightarrow> utf8_valid (replacement @ xs)"
  by (simp add: utf8_eval)

lemma utf8_valid_step_append:
  assumes "utf8_step b bs = (True, n)" and "utf8_valid xs"
  shows "utf8_valid (b # take (n - 1) bs @ xs)"
proof -
  have loc: "utf8_step b (take (n - 1) bs @ xs) = (True, n)"
    using utf8_step_local [of b bs xs] assms(1) by simp
  have "length (take (n - 1) bs) = n - 1"
    using utf8_step_le [of b bs] assms(1) by auto
  with loc assms(2) show ?thesis by (simp add: utf8_valid.simps)
qed

text \<open>Lossy decoding always yields a well-formed \<open>String\<close>.\<close>

lemma utf8_valid_lossy: "utf8_valid (from_utf8_lossy bs)"
proof (induction bs rule: from_utf8_lossy.induct)
  case 1
  show ?case by (simp add: from_utf8_lossy.simps utf8_valid.simps)
next
  case (2 b bs)
  obtain ok n where st: "utf8_step b bs = (ok, n)" by force
  with 2 have IH: "utf8_valid (from_utf8_lossy (drop (n - 1) bs))" by simp
  show ?case
    using st IH utf8_valid_step_append [of b bs n]
    by (cases ok) (simp_all add: from_utf8_lossy.simps utf8_valid_replacement_append)
qed

lemma length_lossy_le: "length (from_utf8_lossy bs) \<le> 3 * length bs"
proof (induction bs rule: from_utf8_lossy.induct)
  case 1
  show ?case by (simp add: from_utf8_lossy.simps)
next
  case (2 b bs)
  obtain ok n where st: "utf8_step b bs = (ok, n)" by force
  have n: "0 < n" "n \<le> Suc (length bs)"
    using utf8_step_pos [of b bs] utf8_step_le [of b bs] st by simp_all
  from 2 st have "length (from_utf8_lossy (drop (n - 1) bs)) \<le> 3 * (length bs - (n - 1))"
    by simp
  with n st show ?case
    by (simp add: from_utf8_lossy.simps replacement_def) linarith
qed

lemma is_ascii_append [simp]: "is_ascii (xs @ ys) \<longleftrightarrow> is_ascii xs \<and> is_ascii ys"
  by (auto simp: is_ascii_def)

lemma str_prefix_ascii: "is_ascii s \<Longrightarrow> n \<le> length s \<Longrightarrow> str_prefix s n = Ok (take n s)"
  by (auto simp: str_prefix_def is_char_boundary_def is_ascii_def is_cont_def
      dest!: nth_mem [of n] leD)

lemma str_prefix_not_Err [simp]: "str_prefix s n \<noteq> Err e"
  by (simp add: str_prefix_def)

section \<open>Facts about integers in text\<close>

lemma to_digit_less: "to_digit radix b = Some d \<Longrightarrow> d < radix"
  by (auto simp: to_digit_def Let_def split: if_splits option.splits)

lemma digits_value_bound:
  "digits_value radix acc bs = Some v \<Longrightarrow> v < (acc + 1) * radix ^ length bs"
proof (induction bs arbitrary: acc)
  case Nil
  then show ?case by simp
next
  case (Cons b bs)
  then obtain d where d: "to_digit radix b = Some d"
    and v: "digits_value radix (acc * radix + d) bs = Some v"
    by (auto split: option.splits)
  from d have "acc * radix + d + 1 \<le> (acc + 1) * radix"
    using to_digit_less [OF d] by (simp add: algebra_simps)
  then have "(acc * radix + d + 1) * radix ^ length bs \<le> (acc + 1) * radix * radix ^ length bs"
    by (rule mult_le_mono1)
  with Cons.IH [OF v] show ?case by (simp add: algebra_simps)
qed

lemma from_str_radix_bound:
  assumes "from_str_radix radix s = Some v" and "1 < radix"
  shows "v < radix ^ length s"
proof -
  define t where "t = (if hd s = 0x2B then tl s else s)"
  from assms(1) have "digits_value radix 0 t = Some v"
    by (auto simp: from_str_radix_def t_def split: if_splits option.splits)
  then have "v < radix ^ length t" using digits_value_bound [of radix 0 t v] by simp
  also have "\<dots> \<le> radix ^ length s"
    using assms(2) by (intro power_increasing) (auto simp: t_def)
  finally show ?thesis .
qed

lemma digits_value_append:
  "digits_value radix acc (xs @ ys) =
     (case digits_value radix acc xs of None \<Rightarrow> None | Some v \<Rightarrow> digits_value radix v ys)"
  by (induction xs arbitrary: acc) (auto split: option.splits)

section \<open>Facts about hexadecimal text\<close>

lemma less_16_cases:
  "(n::nat) < 16 \<Longrightarrow> n \<in> {0, 1, 2, 3, 4, 5, 6, 7, 8, 9, 10, 11, 12, 13, 14, 15}"
  by (simp; presburger)

lemma to_digit_hex_digit: "n < 16 \<Longrightarrow> to_digit 16 (hex_digit n) = Some n"
  by (drule less_16_cases)
    (elim insertE emptyE; simp add: to_digit_def hex_digit_def)

lemma hex_digit_hexdigit: "n < 16 \<Longrightarrow> is_ascii_hexdigit (hex_digit n)"
  by (drule less_16_cases) (elim insertE emptyE; simp add: is_ascii_hexdigit_def hex_digit_def)

lemma hex_digit_ascii: "n < 16 \<Longrightarrow> hex_digit n < 0x80"
  by (drule less_16_cases) (elim insertE emptyE; simp add: hex_digit_def)

lemma hex_digit_neq: "n < 16 \<Longrightarrow> hex_digit n \<noteq> 0x2B \<and> hex_digit n \<noteq> 0x2D"
  by (drule less_16_cases) (elim insertE emptyE; simp add: hex_digit_def)

lemma hex_digit_inj: "m < 16 \<Longrightarrow> n < 16 \<Longrightarrow> hex_digit m = hex_digit n \<Longrightarrow> m = n"
  by (metis option.inject to_digit_hex_digit)

lemma unat_byte_less [simp]: "unat (b :: byte) < 256"
  using unsigned_less [of b, where ?'a = nat] by simp

lemma length_encode_upper [simp]: "length (encode_upper bs) = 2 * length bs"
  by (induction bs) (auto simp: encode_upper_def)

lemma encode_upper_Nil [simp]: "encode_upper [] = []"
  by (simp add: encode_upper_def)

lemma encode_upper_append [simp]: "encode_upper (xs @ ys) = encode_upper xs @ encode_upper ys"
  by (simp add: encode_upper_def)

lemma encode_upper_hexdigits: "\<forall>c \<in> set (encode_upper bs). is_ascii_hexdigit c"
  by (auto simp: encode_upper_def less_mult_imp_div_less intro: hex_digit_hexdigit)

lemma encode_upper_ascii: "is_ascii (encode_upper bs)"
  by (auto simp: is_ascii_def encode_upper_def less_mult_imp_div_less intro: hex_digit_ascii)

text \<open>The wire text determines the bytes: no two fields are forwarded as the same text.\<close>

lemma encode_upper_inj: "encode_upper xs = encode_upper ys \<Longrightarrow> xs = ys"
proof (induction xs arbitrary: ys)
  case Nil
  then show ?case by (cases ys) (auto simp: encode_upper_def)
next
  case (Cons x xs)
  then obtain y zs where ys: "ys = y # zs" by (cases ys) (auto simp: encode_upper_def)
  with Cons.prems have hi: "hex_digit (unat x div 16) = hex_digit (unat y div 16)"
    and lo: "hex_digit (unat x mod 16) = hex_digit (unat y mod 16)"
    and tl: "encode_upper xs = encode_upper zs"
    by (auto simp: encode_upper_def)
  have "unat x div 16 = unat y div 16" and "unat x mod 16 = unat y mod 16"
    using hex_digit_inj [OF _ _ hi] hex_digit_inj [OF _ _ lo]
    by (simp_all add: less_mult_imp_div_less)
  then have "unat x = unat y" by (metis div_mult_mod_eq)
  then have "x = y" by (rule unsigned_word_eqI)
  with Cons.IH [OF tl] ys show ?case by simp
qed

lemma digits_value_hex_nat: "digits_value 16 0 (hex_nat n) = Some n"
proof (induction n rule: hex_nat.induct)
  case (1 n)
  show ?case
  proof (cases "n < 16")
    case True
    then show ?thesis by (simp add: hex_nat.simps [of n] to_digit_hex_digit)
  next
    case False
    with 1 have "digits_value 16 0 (hex_nat (n div 16)) = Some (n div 16)" by simp
    with False show ?thesis
      by (simp add: hex_nat.simps [of n] digits_value_append to_digit_hex_digit)
  qed
qed

lemma digits_value_zeros: "digits_value 16 0 (replicate k 0x30 @ s) = digits_value 16 0 s"
  by (induction k) (auto simp: to_digit_def)

lemma hex_nat_chars: "\<forall>c \<in> set (hex_nat n). \<exists>d < 16. c = hex_digit d"
proof (induction n rule: hex_nat.induct)
  case (1 n)
  then show ?case
    by (cases "n < 16") (auto simp: hex_nat.simps [of n] intro: exI [of _ "n mod 16"])
qed

lemma hex_nat_nonempty [simp]: "hex_nat n \<noteq> []"
  by (simp add: hex_nat.simps [of n])

lemma fmt_04X_not_plus: "fmt_04X n \<noteq> [] \<and> hd (fmt_04X n) \<noteq> 0x2B \<and> fmt_04X n \<noteq> [0x2D]"
proof -
  have zero: "(0x30 :: byte) = hex_digit 0" by (simp add: hex_digit_def)
  have sub: "set (fmt_04X n) \<subseteq> insert 0x30 (set (hex_nat n))" by (auto simp: fmt_04X_def Let_def)
  have mem: "\<exists>d < 16. c = hex_digit d" if "c \<in> set (fmt_04X n)" for c
  proof (cases "c = 0x30")
    case True
    with zero show ?thesis by (intro exI [of _ 0]) simp
  next
    case False
    with that sub hex_nat_chars [of n] show ?thesis by blast
  qed
  have ne: "fmt_04X n \<noteq> []" by (simp add: fmt_04X_def Let_def)
  then have "hd (fmt_04X n) \<in> set (fmt_04X n)" by simp
  with mem obtain d where "d < 16" "hd (fmt_04X n) = hex_digit d" by blast
  then have "hd (fmt_04X n) \<noteq> 0x2B" "hd (fmt_04X n) \<noteq> 0x2D"
    using hex_digit_neq by auto
  with ne show ?thesis by (metis list.sel(1))
qed

text \<open>What the responses print as a length, the requests parse back.\<close>

lemma from_str_radix_fmt_04X: "n < 2 ^ 64 \<Longrightarrow> from_str_radix 16 (fmt_04X n) = Some n"
  using fmt_04X_not_plus [of n] digits_value_zeros [of _ "hex_nat n"] digits_value_hex_nat [of n]
  by (auto simp: from_str_radix_def fmt_04X_def Let_def)

lemma length_hex_nat_le: "n < 16 ^ k \<Longrightarrow> 0 < k \<Longrightarrow> length (hex_nat n) \<le> k"
proof (induction k arbitrary: n)
  case 0
  then show ?case by simp
next
  case (Suc k)
  show ?case
  proof (cases "n < 16")
    case True
    then show ?thesis by (simp add: hex_nat.simps [of n])
  next
    case False
    with Suc.prems have k: "0 < k" by (cases k) auto
    from Suc.prems have "n div 16 < 16 ^ k" by (simp add: less_mult_imp_div_less mult.commute)
    with Suc.IH k False show ?thesis by (simp add: hex_nat.simps [of n])
  qed
qed

lemma length_fmt_04X: "n < 65536 \<Longrightarrow> length (fmt_04X n) = 4"
  using length_hex_nat_le [of n 4] by (simp add: fmt_04X_def Let_def)

section \<open>Facts about case and trimming\<close>

lemma eq_ignore_ascii_case_refl [simp]: "eq_ignore_ascii_case s s"
  by (simp add: eq_ignore_ascii_case_def)

lemma ascii_upper_idem [simp]: "ascii_upper (ascii_upper b) = ascii_upper b"
proof (cases "0x61 \<le> b \<and> b \<le> 0x7A")
  case True
  then have "\<not> 0x61 \<le> b - 0x20" by (auto simp: word_le_nat_alt unat_sub)
  with True show ?thesis by (simp add: ascii_upper_def)
next
  case False
  then show ?thesis by (auto simp: ascii_upper_def)
qed

lemma to_ascii_uppercase_idem [simp]:
  "to_ascii_uppercase (to_ascii_uppercase s) = to_ascii_uppercase s"
  by (simp add: to_ascii_uppercase_def)

lemma length_to_ascii_uppercase [simp]: "length (to_ascii_uppercase s) = length s"
  by (simp add: to_ascii_uppercase_def)

lemma trim_end_matches_append_replicate:
  "s = [] \<or> last s \<noteq> c \<Longrightarrow> trim_end_matches c (s @ replicate k c) = s"
  by (cases s rule: rev_cases)
    (auto simp: trim_end_matches_def dropWhile_append rev_replicate dropWhile_replicate)

lemma trim_end_matches_last: "trim_end_matches c s = [] \<or> last (trim_end_matches c s) \<noteq> c"
proof (cases "dropWhile (\<lambda>b. b = c) (rev s)")
  case Nil
  then show ?thesis by (simp add: trim_end_matches_def)
next
  case (Cons y ys)
  then have "y \<noteq> c" by (auto simp: dropWhile_eq_Cons_conv)
  with Cons show ?thesis by (simp add: trim_end_matches_def)
qed

end
