(* ===== verification/Proxy_Error.thy ===== *)
theory Proxy_Error
  imports Rust_Std
begin

text \<open>
  Errors and command results (\<open>src/src/error.rs\<close>, \<open>HandlerResult\<close> of
  \<open>src/src/handlers/mod.rs\<close>). The string carried by a \<open>ProxyError\<close> variant is read only
  by the logging macros, never by the code that answers the host, so the variants are
  modelled without it.
\<close>

section \<open>Error values\<close>

datatype proxy_error =
    KeyNotFound
  | MalformedPayload
  | ApcError
  | UnsupportedPinFormat
  | UnsupportedMacMode
  | Unsupported
  | VerificationFailed

type_synonym 'a result = "('a, proxy_error) res"

fun payshield_code :: "proxy_error \<Rightarrow> bytes" where
  "payshield_code KeyNotFound = ascii ''10''"
| "payshield_code MalformedPayload = ascii ''15''"
| "payshield_code UnsupportedMacMode = ascii ''15''"
| "payshield_code ApcError = ascii ''41''"
| "payshield_code UnsupportedPinFormat = ascii ''23''"
| "payshield_code Unsupported = ascii ''68''"
| "payshield_code VerificationFailed = ascii ''01''"

section \<open>Results of a command\<close>

record handler_result =
  error_code :: bytes
  payload :: bytes

definition success :: "bytes \<Rightarrow> handler_result" where
  "success p = \<lparr> error_code = ascii ''00'', payload = p \<rparr>"

definition err :: "bytes \<Rightarrow> handler_result" where
  "err code = \<lparr> error_code = code, payload = [] \<rparr>"

definition from_proxy_error :: "proxy_error \<Rightarrow> handler_result" where
  "from_proxy_error e = err (payshield_code e)"

declare success_def [eval_simps] err_def [eval_simps] from_proxy_error_def [eval_simps]

lemma payshield_code_length [simp]: "length (payshield_code e) = 2"
  by (cases e) simp_all

lemma payshield_code_not_success: "payshield_code e \<noteq> ascii ''00''"
  by (cases e) (simp_all add: ascii_def)

lemma success_error_code [simp]: "error_code (success p) = ascii ''00''"
  by (simp add: success_def)

lemma success_payload [simp]: "payload (success p) = p"
  by (simp add: success_def)

lemma from_proxy_error_payload [simp]: "payload (from_proxy_error e) = []"
  by (simp add: from_proxy_error_def err_def)

lemma from_proxy_error_code [simp]: "error_code (from_proxy_error e) = payshield_code e"
  by (simp add: from_proxy_error_def err_def)

text \<open>
  A well-formed result: a two-byte code, and no payload unless the command succeeded (only
  the verification-failure answers of the EMV commands carry diagnostics; they are
  stated with their handlers).
\<close>

definition well_formed_result :: "handler_result \<Rightarrow> bool" where
  "well_formed_result r \<longleftrightarrow> length (error_code r) = 2"

lemma well_formed_success [simp, intro]: "well_formed_result (success p)"
  by (simp add: well_formed_result_def)

lemma well_formed_from_proxy_error [simp, intro]: "well_formed_result (from_proxy_error e)"
  by (simp add: well_formed_result_def)

lemma well_formed_err: "length c = 2 \<Longrightarrow> well_formed_result (err c)"
  by (simp add: well_formed_result_def err_def)

end
