(* ===== verification/Wire_Protocol.thy ===== *)
theory Wire_Protocol
  imports Proxy_Error
begin

text \<open>
  Host-command framing: the \<open>Protocol\<close> trait of \<open>src/src/protocol/mod.rs\<close> as a record of
  operations, the payShield implementation of \<open>src/src/protocol/thales.rs\<close>, and the framing
  contract as a locale that the connection loop relies on. Slicing and indexing are the
  checked operations of the prelude, so a parser that reads past its buffer would be a
  \<open>Panic\<close> and not an arbitrary value.
\<close>

section \<open>The trait\<close>

record parsed_command =
  header :: "byte \<times> byte"
  command_code :: bytes
  cmd_payload :: bytes
  frame_len :: nat

datatype json = JNull | JBool bool | JNum nat | JStr bytes | JObj "(bytes \<times> json) list"

record protocol =
  p_parse :: "bytes \<Rightarrow> parsed_command option result"
  p_response_code :: "bytes \<Rightarrow> bytes"
  p_frame_response :: "byte \<times> byte \<Rightarrow> bytes \<Rightarrow> bytes \<Rightarrow> bytes \<Rightarrow> bytes"
  p_frame_error :: "byte \<times> byte \<Rightarrow> bytes \<Rightarrow> bytes \<Rightarrow> bytes"
  p_is_response_complete :: "bytes \<Rightarrow> bool result"
  p_redact_discovery :: "bytes \<Rightarrow> json"

text \<open>The default method of the trait.\<close>

definition redact_discovery :: "bytes \<Rightarrow> json" where
  "redact_discovery pl =
     JObj [(ascii ''payload_len'', JNum (length pl)),
           (ascii ''note'',
            JStr (ascii ''fields are positional and command-specific; payload not parsed in discovery mode''))]"

section \<open>payShield framing\<close>

text \<open>\<open>u16::from_be_bytes([a, b]) as usize\<close> and \<open>(n as u16).to_be_bytes()\<close>\<close>

definition u16_from_be_bytes :: "byte \<Rightarrow> byte \<Rightarrow> nat" where
  "u16_from_be_bytes a b = unat a * 256 + unat b"

definition u16_to_be_bytes :: "16 word \<Rightarrow> bytes" where
  "u16_to_be_bytes w = [of_nat (unat w div 256), of_nat (unat w mod 256)]"

definition thales_parse :: "bytes \<Rightarrow> parsed_command option result" where
  "thales_parse buf =
     (if length buf < 6 then Ok None
      else
        rbind (index buf 0) (\<lambda>l0.
        rbind (index buf 1) (\<lambda>l1.
        let body_len = u16_from_be_bytes l0 l1 in
        if body_len < 4 then Ok None
        else
          let flen = 2 + body_len in
          if length buf < flen then Ok None
          else
            rbind (slice buf 2 flen) (\<lambda>msg.
            rbind (index msg 0) (\<lambda>h0.
            rbind (index msg 1) (\<lambda>h1.
            rbind (index msg 2) (\<lambda>c0.
            rbind (index msg 3) (\<lambda>c1.
            rbind (slice msg 4 (length msg)) (\<lambda>p.
            Ok (Some \<lparr> header = (h0, h1), command_code = [c0, c1],
                       cmd_payload = p, frame_len = flen \<rparr>)))))))))) "

definition thales_response_code :: "bytes \<Rightarrow> bytes" where
  "thales_response_code cmd =
     [case first cmd of None \<Rightarrow> 0 | Some b \<Rightarrow> b,
      (case get cmd 1 of None \<Rightarrow> 0 | Some b \<Rightarrow> b) + 1]"

definition thales_frame_response ::
    "byte \<times> byte \<Rightarrow> bytes \<Rightarrow> bytes \<Rightarrow> bytes \<Rightarrow> bytes" where
  "thales_frame_response hdr rcode ecode p =
     (let body_len = 2 + length rcode + length ecode + length p in
      u16_to_be_bytes (of_nat body_len) @ [fst hdr, snd hdr] @ rcode @ ecode @ p)"

definition frame_request :: "byte \<times> byte \<Rightarrow> bytes \<Rightarrow> bytes \<Rightarrow> bytes" where
  "frame_request hdr code p = thales_frame_response hdr code [] p"

definition thales_frame_error :: "byte \<times> byte \<Rightarrow> bytes \<Rightarrow> bytes \<Rightarrow> bytes" where
  "thales_frame_error hdr code ecode =
     thales_frame_response hdr (thales_response_code code) ecode []"

definition thales_is_response_complete :: "bytes \<Rightarrow> bool result" where
  "thales_is_response_complete data =
     (if length data < 2 then Ok False
      else
        rbind (index data 0) (\<lambda>a.
        rbind (index data 1) (\<lambda>b.
        let expected = u16_from_be_bytes a b in
        Ok (expected + 2 \<le> length data))))"

definition ThalesPayShield :: protocol where
  "ThalesPayShield =
     \<lparr> p_parse = thales_parse, p_response_code = thales_response_code,
       p_frame_response = thales_frame_response, p_frame_error = thales_frame_error,
       p_is_response_complete = thales_is_response_complete,
       p_redact_discovery = redact_discovery \<rparr>"

section \<open>Length prefixes\<close>

lemma u16_from_be_bytes_less: "u16_from_be_bytes a b < 65536"
  unfolding u16_from_be_bytes_def using unat_byte_less [of a] unat_byte_less [of b] by linarith

lemma length_u16_to_be_bytes [simp]: "length (u16_to_be_bytes w) = 2"
  by (simp add: u16_to_be_bytes_def)

lemma unat_u16_less: "unat (w :: 16 word) < 65536"
  using unsigned_less [of w, where ?'a = nat] by simp

lemma unat_u16_of_nat: "unat (of_nat n :: 16 word) = n mod 65536"
  by (simp add: unat_of_nat)

lemma u16_round_trip:
  obtains a b where "u16_to_be_bytes w = [a, b]" and "u16_from_be_bytes a b = unat w"
proof
  show "u16_to_be_bytes w = [of_nat (unat w div 256), of_nat (unat w mod 256)]"
    by (simp add: u16_to_be_bytes_def)
  have "unat w div 256 < 256" using unat_u16_less [of w] by simp
  then show "u16_from_be_bytes (of_nat (unat w div 256)) (of_nat (unat w mod 256)) = unat w"
    by (simp add: u16_from_be_bytes_def unat_of_nat)
qed

lemma u16_of_bytes: "u16_to_be_bytes (of_nat (u16_from_be_bytes a b)) = [a, b]"
proof -
  have "unat (of_nat (u16_from_be_bytes a b) :: 16 word) = u16_from_be_bytes a b"
    using u16_from_be_bytes_less [of a b] by (simp add: unat_u16_of_nat)
  moreover have "u16_from_be_bytes a b div 256 = unat a" "u16_from_be_bytes a b mod 256 = unat b"
    using unat_byte_less [of b] by (simp_all add: u16_from_be_bytes_def)
  ultimately show ?thesis by (simp add: u16_to_be_bytes_def)
qed

section \<open>Parsing\<close>

text \<open>The wire form of a request, as the specification of the parser.\<close>

definition request_frame :: "parsed_command \<Rightarrow> bytes" where
  "request_frame c =
     u16_to_be_bytes (of_nat (4 + length (cmd_payload c)))
       @ [fst (header c), snd (header c)] @ command_code c @ cmd_payload c"

definition well_formed_command :: "parsed_command \<Rightarrow> bool" where
  "well_formed_command c \<longleftrightarrow>
     length (command_code c) = 2 \<and> 4 + length (cmd_payload c) < 65536
       \<and> frame_len c = 6 + length (cmd_payload c)"

lemma list_ge6_cases:
  assumes "6 \<le> length xs"
  obtains a b c d e f ys where "xs = a # b # c # d # e # f # ys"
  using assms by (auto simp: numeral_eq_Suc Suc_le_length_iff)

lemma thales_parse_Cons:
  "thales_parse (l0 # l1 # h0 # h1 # c0 # c1 # ys) =
     (let body_len = u16_from_be_bytes l0 l1 in
      if body_len < 4 \<or> length ys + 4 < body_len then Ok None
      else Ok (Some \<lparr> header = (h0, h1), command_code = [c0, c1],
                      cmd_payload = take (body_len - 4) ys, frame_len = 2 + body_len \<rparr>))"
proof (cases "u16_from_be_bytes l0 l1 < 4 \<or> length ys + 4 < u16_from_be_bytes l0 l1")
  case True
  then show ?thesis by (auto simp: thales_parse_def index_def Let_def)
next
  case False
  then obtain n where n: "u16_from_be_bytes l0 l1 = Suc (Suc (Suc (Suc n)))" and "n \<le> length ys"
    by (auto simp: numeral_eq_Suc not_less Suc_le_eq dest!: less_imp_Suc_add le_Suc_ex)
  then show ?thesis
    by (simp add: thales_parse_def index_def slice_def Let_def)
qed

lemma thales_parse_short: "length buf < 6 \<Longrightarrow> thales_parse buf = Ok None"
  by (simp add: thales_parse_def)

lemma thales_parse_total: "\<exists>r. thales_parse buf = Ok r"
proof (cases "length buf < 6")
  case False
  then have "6 \<le> length buf" by simp
  then show ?thesis by (rule list_ge6_cases) (simp add: thales_parse_Cons Let_def)
qed (simp add: thales_parse_short)

lemma request_frame_length:
  "well_formed_command c \<Longrightarrow> length (request_frame c) = frame_len c"
  by (simp add: request_frame_def well_formed_command_def)

lemma thales_parse_request:
  assumes "well_formed_command c"
  shows "thales_parse (request_frame c @ rest) = Ok (Some c)"
proof -
  from assms obtain c0 c1 where code: "command_code c = [c0, c1]"
    by (auto simp: well_formed_command_def length_Suc_conv numeral_2_eq_2)
  obtain a b where ab: "u16_to_be_bytes (of_nat (4 + length (cmd_payload c))) = [a, b]"
    and val: "u16_from_be_bytes a b = 4 + length (cmd_payload c)"
    using assms u16_round_trip [of "of_nat (4 + length (cmd_payload c))"]
    by (metis unat_u16_of_nat mod_less well_formed_command_def)
  have "c = \<lparr> header = (fst (header c), snd (header c)), command_code = [c0, c1],
              cmd_payload = cmd_payload c, frame_len = 2 + (4 + length (cmd_payload c)) \<rparr>"
    using assms code by (simp add: well_formed_command_def)
  moreover have "request_frame c =
      a # b # fst (header c) # snd (header c) # c0 # c1 # cmd_payload c"
    by (simp only: request_frame_def ab code append_Cons append_Nil)
  ultimately show ?thesis by (simp add: thales_parse_Cons val)
qed

lemma thales_parse_SomeD:
  assumes "thales_parse buf = Ok (Some c)"
  shows "well_formed_command c" and "\<exists>rest. buf = request_frame c @ rest"
proof -
  from assms have "6 \<le> length buf" by (rule contrapos_pp) (simp add: thales_parse_short)
  then obtain l0 l1 h0 h1 c0 c1 ys where buf: "buf = l0 # l1 # h0 # h1 # c0 # c1 # ys"
    by (rule list_ge6_cases)
  define n where "n = u16_from_be_bytes l0 l1"
  from assms have n: "4 \<le> n" "n \<le> length ys + 4"
    and c: "c = \<lparr> header = (h0, h1), command_code = [c0, c1],
                  cmd_payload = take (n - 4) ys, frame_len = 2 + n \<rparr>"
    by (auto simp: buf thales_parse_Cons Let_def n_def split: if_splits)
  have less: "n < 65536" by (simp add: n_def u16_from_be_bytes_less)
  then show wf: "well_formed_command c" using n by (simp add: c well_formed_command_def)
  have len: "4 + length (cmd_payload c) = n" using n by (simp add: c)
  have "request_frame c = l0 # l1 # h0 # h1 # c0 # c1 # take (n - 4) ys"
    by (simp only: request_frame_def len) (simp add: c n_def u16_of_bytes)
  then have "buf = request_frame c @ drop (n - 4) ys" by (simp add: buf)
  then show "\<exists>rest. buf = request_frame c @ rest" ..
qed

lemma thales_parse_iff:
  "thales_parse buf = Ok (Some c) \<longleftrightarrow>
     well_formed_command c \<and> (\<exists>rest. buf = request_frame c @ rest)"
  using thales_parse_SomeD thales_parse_request by blast

section \<open>Responses\<close>

lemma frame_response_length:
  "length (thales_frame_response h rc ec p) = 4 + length rc + length ec + length p"
  by (simp add: thales_frame_response_def Let_def)

text \<open>
  The length prefix of a framed response is the body length modulo \<open>2 ^ 16\<close>: the cast to
  \<open>u16\<close> keeps the low half.
\<close>

lemma frame_response_prefix:
  obtains a b where
    "thales_frame_response h rc ec p = a # b # fst h # snd h # rc @ ec @ p"
    "u16_from_be_bytes a b = (2 + length rc + length ec + length p) mod 65536"
proof -
  define n where "n = 2 + length rc + length ec + length p"
  obtain a b where ab: "u16_to_be_bytes (of_nat n) = [a, b]"
    and val: "u16_from_be_bytes a b = unat (of_nat n :: 16 word)"
    by (rule u16_round_trip)
  have "thales_frame_response h rc ec p = a # b # fst h # snd h # rc @ ec @ p"
    by (simp only: thales_frame_response_def Let_def n_def [symmetric] ab append_Cons append_Nil)
  moreover from val have "u16_from_be_bytes a b = n mod 65536" by (simp only: unat_u16_of_nat)
  ultimately show thesis using that by (simp only: n_def)
qed

lemma is_response_complete_Cons:
  "thales_is_response_complete (a # b # xs) = Ok (u16_from_be_bytes a b \<le> length xs)"
  by (simp add: thales_is_response_complete_def index_def Let_def)

lemma is_response_complete_total: "\<exists>r. thales_is_response_complete xs = Ok r"
proof (cases "2 \<le> length xs")
  case True
  then show ?thesis by (rule length_ge_2_cases) (metis is_response_complete_Cons)
qed (auto simp: thales_is_response_complete_def)

text \<open>What the proxy sends, a reader of the same framing takes for complete.\<close>

lemma is_response_complete_frame_response:
  "thales_is_response_complete (thales_frame_response h rc ec p) = Ok True"
proof (rule frame_response_prefix [of h rc ec p])
  fix a b
  assume "thales_frame_response h rc ec p = a # b # fst h # snd h # rc @ ec @ p"
    and "u16_from_be_bytes a b = (2 + length rc + length ec + length p) mod 65536"
  then show ?thesis by (simp add: is_response_complete_Cons mod_less_eq_dividend)
qed

text \<open>A strict prefix of a response whose body fits the prefix is never taken for complete.\<close>

lemma is_response_complete_take:
  assumes "2 + length rc + length ec + length p < 65536"
    and "n < length (thales_frame_response h rc ec p)"
  shows "thales_is_response_complete (take n (thales_frame_response h rc ec p)) = Ok False"
proof (rule frame_response_prefix [of h rc ec p])
  fix a b
  define body where "body = fst h # snd h # rc @ ec @ p"
  assume fr: "thales_frame_response h rc ec p = a # b # fst h # snd h # rc @ ec @ p"
    and "u16_from_be_bytes a b = (2 + length rc + length ec + length p) mod 65536"
  with assms(1) have val: "u16_from_be_bytes a b = length body"
    by (simp add: body_def)
  from fr have fr': "thales_frame_response h rc ec p = a # b # body" by (simp add: body_def)
  show ?thesis
  proof (cases "n < 2")
    case True
    then show ?thesis by (simp add: thales_is_response_complete_def min_less_iff_disj)
  next
    case False
    then obtain m where "n = Suc (Suc m)"
      by (auto simp: not_less numeral_2_eq_2 dest!: le_Suc_ex)
    with assms(2) show ?thesis by (simp add: fr' is_response_complete_Cons val)
  qed
qed

lemma length_response_code [simp]: "length (thales_response_code c) = 2"
  by (simp add: thales_response_code_def)

lemma response_code_pair [simp]: "thales_response_code [a, b] = [a, b + 1]"
  by (simp add: thales_response_code_def get_def)

section \<open>The framing contract\<close>

text \<open>
  What a stream reader needs of a protocol: parsing never panics, a parsed command lies
  within the buffer and makes progress, and bytes that arrive later do not change a command
  that is already complete.
\<close>

locale framing =
  fixes parse :: "bytes \<Rightarrow> parsed_command option result"
  assumes parse_total: "\<exists>r. parse b = Ok r"
    and parse_pos: "parse b = Ok (Some c) \<Longrightarrow> 0 < frame_len c"
    and parse_le: "parse b = Ok (Some c) \<Longrightarrow> frame_len c \<le> length b"
    and parse_extend: "parse b = Ok (Some c) \<Longrightarrow> parse (b @ x) = Ok (Some c)"

interpretation thales: framing thales_parse
proof unfold_locales
  fix b x :: bytes and c
  show "\<exists>r. thales_parse b = Ok r" by (rule thales_parse_total)
  show "0 < frame_len c" if "thales_parse b = Ok (Some c)"
    using that by (simp add: thales_parse_iff well_formed_command_def)
  show "frame_len c \<le> length b" if "thales_parse b = Ok (Some c)"
    using that by (auto simp: thales_parse_iff request_frame_length)
  show "thales_parse (b @ x) = Ok (Some c)" if "thales_parse b = Ok (Some c)"
    using that by (auto simp: thales_parse_iff)
qed

section \<open>Properties\<close>

text \<open>
  C6: the parser never panics and recognises exactly the wire form of well-formed commands: it
  returns a command if and only if the buffer starts with the frame of that command, whatever
  follows.
\<close>

theorem parse_recognises_frames:
  "(\<exists>r. thales_parse buf = Ok r) \<and>
   (thales_parse buf = Ok (Some c)) = (well_formed_command c \<and> (\<exists>rest. buf = request_frame c @ rest))"
  using thales_parse_total thales_parse_iff by simp

text \<open>
  A response whose body fits the 16-bit length prefix is read back with the header, the
  response code and the rest it was framed with, and a reader takes no strict prefix of it, and
  the whole of it, for complete.
\<close>

lemma response_round_trip:
  assumes "length rc = 2" and "2 + length rc + length ec + length p < 65536"
  shows "thales_parse (thales_frame_response h rc ec p @ rest) =
      Ok (Some \<lparr> header = h, command_code = rc, cmd_payload = ec @ p,
                 frame_len = length (thales_frame_response h rc ec p) \<rparr>)
    \<and> thales_is_response_complete (take n (thales_frame_response h rc ec p)) =
      Ok (length (thales_frame_response h rc ec p) \<le> n)"
proof
  define c where "c = \<lparr> header = h, command_code = rc, cmd_payload = ec @ p,
    frame_len = length (thales_frame_response h rc ec p) \<rparr>"
  have "well_formed_command c"
    using assms by (simp add: c_def well_formed_command_def frame_response_length)
  moreover have "request_frame c = thales_frame_response h rc ec p"
    using assms(1) by (simp add: c_def request_frame_def thales_frame_response_def Let_def add.assoc)
  ultimately show "thales_parse (thales_frame_response h rc ec p @ rest) = Ok (Some c)"
    using thales_parse_request by metis
  show "thales_is_response_complete (take n (thales_frame_response h rc ec p)) =
      Ok (length (thales_frame_response h rc ec p) \<le> n)"
  proof (cases "n < length (thales_frame_response h rc ec p)")
    case True
    with is_response_complete_take [OF assms(2) True] show ?thesis by simp
  next
    case False
    with is_response_complete_frame_response show ?thesis by simp
  qed
qed

text \<open>
  C36: when the body of a response does not fit sixteen bits the length prefix wraps around, and
  a reader takes a strict prefix of the frame for the complete response.
\<close>

theorem oversized_response_truncated:
  assumes "65536 \<le> 2 + length rc + length ec + length p"
  shows "\<exists>n < length (thales_frame_response h rc ec p).
    thales_is_response_complete (take n (thales_frame_response h rc ec p)) = Ok True"
proof (rule frame_response_prefix [of h rc ec p])
  fix a b
  assume frame: "thales_frame_response h rc ec p = a # b # fst h # snd h # rc @ ec @ p"
    and "u16_from_be_bytes a b = (2 + length rc + length ec + length p) mod 65536"
  moreover have "(2 + length rc + length ec + length p) mod 65536 < 65536" by simp
  ultimately have small: "u16_from_be_bytes a b < 2 + length rc + length ec + length p"
    using assms by linarith
  define n where "n = u16_from_be_bytes a b"
  have "thales_is_response_complete (take (Suc (Suc n)) (thales_frame_response h rc ec p)) = Ok True"
    using small by (simp add: frame is_response_complete_Cons n_def)
  moreover have "Suc (Suc n) < length (thales_frame_response h rc ec p)"
    using small by (simp add: frame_response_length n_def)
  ultimately show ?thesis by blast
qed

theorem oversized_response_truncated_witness:
  "\<exists>n < length (thales_frame_response (1, 2) (ascii ''M1'') (ascii ''00'') (replicate 65536 0)).
    thales_is_response_complete
      (take n (thales_frame_response (1, 2) (ascii ''M1'') (ascii ''00'') (replicate 65536 0))) = Ok True"
  by (rule oversized_response_truncated) simp

end
