(* ===== verification/Field_Reader.thy ===== *)
theory Field_Reader
  imports Proxy_Error
begin

text \<open>
  The bounds-checked cursor of \<open>src/src/handlers/thales/reader.rs\<close>. A method of
  \<open>FieldReader\<close> is a function of the reader that returns its value and the advanced reader.
  The command name that prefixes every error text is not modelled (error texts are not).
  Two compositional judgements carry the parser proofs of the handlers: \<open>psat\<close> (the parser
  stays inside its buffer, never panics, and its value satisfies a property) and \<open>reads\<close>
  (at any position, the parser consumes exactly a given wire text and yields a given value).
\<close>

section \<open>The reader\<close>

record field_reader =
  fr_buf :: bytes
  fr_pos :: nat

type_synonym 'a parser = "field_reader \<Rightarrow> ('a \<times> field_reader) result"

definition fr_new :: "bytes \<Rightarrow> field_reader" where
  "fr_new buf = \<lparr> fr_buf = buf, fr_pos = 0 \<rparr>"

definition preturn :: "'a \<Rightarrow> 'a parser" where
  "preturn x r = Ok (x, r)"

definition pbind :: "'a parser \<Rightarrow> ('a \<Rightarrow> 'b parser) \<Rightarrow> 'b parser" where
  "pbind p f r = rbind (p r) (\<lambda>(x, r'). f x r')"

text \<open>A computation that does not touch the reader, under \<open>?\<close>.\<close>

definition plift :: "'a result \<Rightarrow> 'a parser" where
  "plift m r = rmap (\<lambda>x. (x, r)) m"

definition fr_remaining :: "bytes parser" where
  "fr_remaining r =
     rmap (\<lambda>xs. (xs, r)) (slice (fr_buf r) (min (fr_pos r) (length (fr_buf r))) (length (fr_buf r)))"

definition fr_take :: "nat \<Rightarrow> bytes parser" where
  "fr_take n r =
     (let e = fr_pos r + n in
      if e \<le> length (fr_buf r) then
        rmap (\<lambda>out. (out, r\<lparr> fr_pos := e \<rparr>)) (slice (fr_buf r) (fr_pos r) e)
      else Err MalformedPayload)"

text \<open>\<open>try_into().expect(..)\<close>: a slice of another length would be a panic.\<close>

definition fr_take_array :: "nat \<Rightarrow> bytes parser" where
  "fr_take_array n = pbind (fr_take n) (\<lambda>xs. plift (if length xs = n then Ok xs else Panic))"

definition fr_byte :: "byte parser" where
  "fr_byte = pbind (fr_take 1) (\<lambda>xs. plift (index xs 0))"

definition fr_expect_byte :: "byte \<Rightarrow> unit parser" where
  "fr_expect_byte expected =
     pbind fr_byte (\<lambda>b. if b \<noteq> expected then plift (Err MalformedPayload) else preturn ())"

definition fr_u16_be :: "nat parser" where
  "fr_u16_be =
     pbind (fr_take_array 2) (\<lambda>xs.
     plift (rbind (index xs 0) (\<lambda>a. rbind (index xs 1) (\<lambda>b. Ok (unat a * 256 + unat b)))))"

definition fr_parse_with :: "(bytes \<Rightarrow> nat \<Rightarrow> ('a \<times> nat) result) \<Rightarrow> 'a parser" where
  "fr_parse_with f r =
     rbind (f (fr_buf r) (fr_pos r)) (\<lambda>(v, consumed).
     Ok (v, r\<lparr> fr_pos := fr_pos r + consumed \<rparr>))"

definition fr_take_hex :: "nat \<Rightarrow> bytes parser" where
  "fr_take_hex n = pbind (fr_take n) (\<lambda>xs. preturn (encode_upper xs))"

text \<open>\<open>std::str::from_utf8(..).map_err(..)?\<close> and \<open>usize::from_str_radix(..).map_err(..)?\<close>\<close>

definition utf8_or_malformed :: "bytes \<Rightarrow> bytes result" where
  "utf8_or_malformed bs = ok_or MalformedPayload (from_utf8 bs)"

definition radix_or_malformed :: "nat \<Rightarrow> bytes \<Rightarrow> nat result" where
  "radix_or_malformed radix s = ok_or MalformedPayload (from_str_radix radix s)"

definition fr_take_ascii_len_field :: "nat \<Rightarrow> nat \<Rightarrow> bytes parser" where
  "fr_take_ascii_len_field width radix =
     pbind (fr_take width) (\<lambda>w.
     pbind (plift (utf8_or_malformed w)) (\<lambda>len_str.
     pbind (plift (radix_or_malformed radix len_str)) (\<lambda>len.
     fr_take len)))"

definition fr_take_ascii_len_hex :: "nat \<Rightarrow> nat \<Rightarrow> bytes parser" where
  "fr_take_ascii_len_hex width radix =
     pbind (fr_take width) (\<lambda>w.
     pbind (plift (utf8_or_malformed w)) (\<lambda>len_str.
     pbind (plift (radix_or_malformed radix len_str)) (\<lambda>byte_len.
     fr_take (byte_len * 2))))"

text \<open>A parse function: a fresh reader over the payload, the value without the reader.\<close>

definition run_parser :: "'a parser \<Rightarrow> bytes \<Rightarrow> 'a result" where
  "run_parser p buf = rmap fst (p (fr_new buf))"

text \<open>\<open>String::from_utf8_lossy(r.take(n)?).to_string()\<close>, the way most text fields are read.\<close>

definition fr_take_lossy :: "nat \<Rightarrow> bytes parser" where
  "fr_take_lossy n = pbind (fr_take n) (\<lambda>xs. preturn (from_utf8_lossy xs))"

declare fr_new_def [eval_simps] preturn_def [eval_simps] pbind_def [eval_simps]
  plift_def [eval_simps] fr_remaining_def [eval_simps] fr_take_def [eval_simps]
  fr_take_array_def [eval_simps] fr_byte_def [eval_simps] fr_expect_byte_def [eval_simps]
  fr_u16_be_def [eval_simps] fr_parse_with_def [eval_simps] fr_take_hex_def [eval_simps]
  utf8_or_malformed_def [eval_simps] radix_or_malformed_def [eval_simps]
  fr_take_ascii_len_field_def [eval_simps] fr_take_ascii_len_hex_def [eval_simps]
  run_parser_def [eval_simps] fr_take_lossy_def [eval_simps]

section \<open>Staying in bounds\<close>

definition fr_inv :: "field_reader \<Rightarrow> bool" where
  "fr_inv r \<longleftrightarrow> fr_pos r \<le> length (fr_buf r)"

fun outcome_ok :: "field_reader \<Rightarrow> ('a \<Rightarrow> bool) \<Rightarrow> ('a \<times> field_reader) result \<Rightarrow> bool" where
  "outcome_ok r Q (Ok (x, r')) \<longleftrightarrow>
     Q x \<and> fr_buf r' = fr_buf r \<and> fr_pos r \<le> fr_pos r' \<and> fr_inv r'"
| "outcome_ok r Q (Err e) \<longleftrightarrow> True"
| "outcome_ok r Q Panic \<longleftrightarrow> False"

definition psat :: "'a parser \<Rightarrow> ('a \<Rightarrow> bool) \<Rightarrow> bool" where
  "psat p Q \<longleftrightarrow> (\<forall>r. fr_inv r \<longrightarrow> outcome_ok r Q (p r))"

abbreviation safe :: "'a parser \<Rightarrow> bool" where
  "safe p \<equiv> psat p (\<lambda>_. True)"

named_theorems psat_intros

lemma psat_weaken: "psat p Q \<Longrightarrow> (\<And>x. Q x \<Longrightarrow> R x) \<Longrightarrow> psat p R"
  unfolding psat_def by (metis (no_types, lifting) outcome_ok.elims(2) outcome_ok.simps(1,2))

lemma psat_pbind:
  assumes "psat p Q" and "\<And>x. Q x \<Longrightarrow> psat (f x) R"
  shows "psat (pbind p f) R"
  unfolding psat_def
proof (intro allI impI)
  fix r assume "fr_inv r"
  with assms(1) have p: "outcome_ok r Q (p r)" by (simp add: psat_def)
  show "outcome_ok r R (pbind p f r)"
  proof (cases "p r")
    case (Ok xr)
    obtain x r' where xr: "xr = (x, r')" by force
    with p Ok have "Q x" "fr_inv r'" "fr_buf r' = fr_buf r" "fr_pos r \<le> fr_pos r'" by simp_all
    with assms(2) have "outcome_ok r' R (f x r')" by (simp add: psat_def)
    with \<open>fr_buf r' = fr_buf r\<close> \<open>fr_pos r \<le> fr_pos r'\<close> show ?thesis
      by (cases "f x r'") (auto simp: pbind_def Ok xr)
  next
    case Panic
    with p show ?thesis by simp
  qed (simp add: pbind_def)
qed

lemma psat_preturn: "Q x \<Longrightarrow> psat (preturn x) Q"
  by (simp add: psat_def preturn_def)

lemma psat_plift: "m \<noteq> Panic \<Longrightarrow> (\<And>x. m = Ok x \<Longrightarrow> Q x) \<Longrightarrow> psat (plift m) Q"
  by (cases m) (simp_all add: psat_def plift_def)

lemma psat_pbind_plift:
  "m \<noteq> Panic \<Longrightarrow> (\<And>x. m = Ok x \<Longrightarrow> psat (f x) R) \<Longrightarrow> psat (pbind (plift m) f) R"
  by (rule psat_pbind [where Q = "\<lambda>x. m = Ok x"]) (auto intro: psat_plift)

lemma psat_fr_take: "psat (fr_take n) (\<lambda>xs. length xs = n)"
  by (auto simp: psat_def fr_take_def fr_inv_def Let_def slice_def)

lemma psat_fr_remaining: "safe fr_remaining"
  by (auto simp: psat_def fr_remaining_def slice_def fr_inv_def)

lemma psat_fr_take_array: "psat (fr_take_array n) (\<lambda>xs. length xs = n)"
  unfolding fr_take_array_def by (rule psat_pbind [OF psat_fr_take]) (auto intro: psat_plift)

lemma psat_fr_byte: "safe fr_byte"
  unfolding fr_byte_def by (rule psat_pbind [OF psat_fr_take]) (auto intro: psat_plift)

lemma psat_fr_expect_byte: "safe (fr_expect_byte b)"
  unfolding fr_expect_byte_def
  by (rule psat_pbind [OF psat_fr_byte]) (auto intro: psat_plift psat_preturn)

lemma psat_fr_u16_be: "psat fr_u16_be (\<lambda>n. n < 65536)"
  unfolding fr_u16_be_def
proof (rule psat_pbind [OF psat_fr_take_array], rule psat_plift)
  fix xs :: bytes and n
  assume len: "length xs = 2"
  then show "rbind (index xs 0) (\<lambda>a. rbind (index xs 1) (\<lambda>b. Ok (unat a * 256 + unat b))) \<noteq> Panic"
    by (simp add: rbind_Panic_iff)
  assume "rbind (index xs 0) (\<lambda>a. rbind (index xs 1) (\<lambda>b. Ok (unat a * 256 + unat b))) = Ok n"
  then obtain a b :: byte where "n = unat a * 256 + unat b" by (auto simp: rbind_Ok_iff)
  with unat_byte_less [of a] unat_byte_less [of b] show "n < 65536" by linarith
qed

lemma psat_fr_take_hex: "psat (fr_take_hex n) (\<lambda>s. length s = 2 * n \<and> is_ascii s)"
  unfolding fr_take_hex_def
  by (rule psat_pbind [OF psat_fr_take]) (auto intro!: psat_preturn encode_upper_ascii)

lemma psat_fr_take_lossy: "psat (fr_take_lossy n) utf8_valid"
  unfolding fr_take_lossy_def
  by (rule psat_pbind [OF psat_fr_take]) (auto intro!: psat_preturn utf8_valid_lossy)

lemma utf8_or_malformed_not_Panic [simp]: "utf8_or_malformed s \<noteq> Panic"
  by (simp add: utf8_or_malformed_def)

lemma radix_or_malformed_not_Panic [simp]: "radix_or_malformed radix s \<noteq> Panic"
  by (simp add: radix_or_malformed_def)

lemma psat_fr_take_ascii_len_field: "safe (fr_take_ascii_len_field width radix)"
  unfolding fr_take_ascii_len_field_def
  by (intro psat_pbind [OF psat_fr_take] psat_pbind [OF psat_plift]
      psat_weaken [OF psat_fr_take]) simp_all

lemma psat_fr_take_ascii_len_hex: "psat (fr_take_ascii_len_hex width radix) (\<lambda>xs. even (length xs))"
  unfolding fr_take_ascii_len_hex_def
  by (intro psat_pbind [OF psat_fr_take] psat_pbind [OF psat_plift, where Q = "\<lambda>_. True"]
      psat_weaken [OF psat_fr_take]) simp_all

text \<open>A sub-parser of the form \<open>(buf, offset) -> (value, consumed)\<close>.\<close>

definition sub_ok :: "(bytes \<Rightarrow> nat \<Rightarrow> ('a \<times> nat) result) \<Rightarrow> bool" where
  "sub_ok f \<longleftrightarrow>
     (\<forall>buf off. off \<le> length buf \<longrightarrow>
        f buf off \<noteq> Panic \<and> (\<forall>v n. f buf off = Ok (v, n) \<longrightarrow> off + n \<le> length buf))"

lemma psat_fr_parse_with: "sub_ok f \<Longrightarrow> safe (fr_parse_with f)"
  unfolding psat_def
proof (intro allI impI)
  fix r assume f: "sub_ok f" and r: "fr_inv r"
  then show "outcome_ok r (\<lambda>_. True) (fr_parse_with f r)"
    by (cases "f (fr_buf r) (fr_pos r)") (auto simp: sub_ok_def fr_parse_with_def fr_inv_def)
qed

lemma psat_if: "(b \<Longrightarrow> psat p Q) \<Longrightarrow> (\<not> b \<Longrightarrow> psat q Q) \<Longrightarrow> psat (if b then p else q) Q"
  by simp

lemma psat_case_prod [psat_intros]:
  "(\<And>a b. p = (a, b) \<Longrightarrow> psat (f a b) Q) \<Longrightarrow> psat (case p of (a, b) \<Rightarrow> f a b) Q"
  by (cases p) simp

lemmas psat_steps =
  psat_pbind [OF psat_fr_take] psat_pbind [OF psat_fr_take_array] psat_pbind [OF psat_fr_byte]
  psat_pbind [OF psat_fr_expect_byte] psat_pbind [OF psat_fr_u16_be]
  psat_pbind [OF psat_fr_take_hex] psat_pbind [OF psat_fr_take_lossy]
  psat_pbind [OF psat_fr_take_ascii_len_field] psat_pbind [OF psat_fr_take_ascii_len_hex]
  psat_pbind [OF psat_fr_remaining] psat_pbind [OF psat_fr_parse_with]
  psat_pbind_plift

declare psat_steps [psat_intros] psat_preturn [psat_intros] psat_plift [psat_intros]
  psat_if [psat_intros]

lemma run_parser_not_Panic:
  assumes "psat p Q"
  shows "run_parser p buf \<noteq> Panic"
proof -
  have "outcome_ok (fr_new buf) Q (p (fr_new buf))"
    using assms by (simp add: psat_def fr_inv_def fr_new_def)
  then show ?thesis by (auto simp: run_parser_def)
qed

lemma run_parser_Ok:
  assumes "psat p Q" and "run_parser p buf = Ok x"
  shows "Q x"
proof -
  have "outcome_ok (fr_new buf) Q (p (fr_new buf))"
    using assms(1) by (simp add: psat_def fr_inv_def fr_new_def)
  with assms(2) show ?thesis by (auto simp: run_parser_def)
qed

section \<open>Reading a given text\<close>

definition reads :: "'a parser \<Rightarrow> bytes \<Rightarrow> 'a \<Rightarrow> bool" where
  "reads p w x \<longleftrightarrow>
     (\<forall>pre post. p \<lparr> fr_buf = pre @ w @ post, fr_pos = length pre \<rparr> =
        Ok (x, \<lparr> fr_buf = pre @ w @ post, fr_pos = length pre + length w \<rparr>))"

named_theorems reads_intros

lemma reads_pbind:
  assumes p: "reads p w x" and f: "reads (f x) w' y"
  shows "reads (pbind p f) (w @ w') y"
  unfolding reads_def
proof (intro allI)
  fix pre post
  from p [unfolded reads_def, rule_format, of pre "w' @ post"]
    f [unfolded reads_def, rule_format, of "pre @ w" post]
  show "pbind p f \<lparr> fr_buf = pre @ (w @ w') @ post, fr_pos = length pre \<rparr> =
      Ok (y, \<lparr> fr_buf = pre @ (w @ w') @ post, fr_pos = length pre + length (w @ w') \<rparr>)"
    by (simp add: pbind_def add.assoc)
qed

lemma reads_preturn: "x = y \<Longrightarrow> reads (preturn x) [] y"
  by (simp add: reads_def preturn_def)

lemma reads_last:
  "reads p w x \<Longrightarrow> reads (f x) [] y \<Longrightarrow> reads (pbind p f) w y"
  using reads_pbind [of p w x f "[]" y] by simp

lemma reads_plift:
  "m = Ok x \<Longrightarrow> reads (f x) w y \<Longrightarrow> reads (pbind (plift m) f) w y"
  by (simp add: reads_def pbind_def plift_def)

lemma reads_pbind_preturn: "reads (f x) w y \<Longrightarrow> reads (pbind (preturn x) f) w y"
  by (simp add: reads_def pbind_def preturn_def)

lemma reads_remaining:
  "(\<And>post. reads (f (w @ post)) w y) \<Longrightarrow> reads (pbind fr_remaining f) w y"
  by (simp add: reads_def pbind_def fr_remaining_def slice_def)

lemma reads_take: "length w = n \<Longrightarrow> reads (fr_take n) w w"
  by (auto simp: reads_def fr_take_def Let_def slice_def)

lemma reads_take_array: "length w = n \<Longrightarrow> reads (fr_take_array n) w w"
  unfolding fr_take_array_def
  by (rule reads_last [OF reads_take]) (simp_all add: reads_def plift_def)

lemma reads_byte: "reads fr_byte [b] b"
  unfolding fr_byte_def
  by (rule reads_last [OF reads_take]) (simp_all add: reads_def plift_def index_def)

lemma reads_expect_byte: "reads (fr_expect_byte b) [b] ()"
  unfolding fr_expect_byte_def
  by (rule reads_last [OF reads_byte]) (simp add: reads_preturn)

lemma reads_u16_be: "reads fr_u16_be [a, b] (unat a * 256 + unat b)"
  unfolding fr_u16_be_def
  by (rule reads_last [OF reads_take_array]) (simp_all add: reads_def plift_def index_def)

lemma reads_take_hex: "length w = n \<Longrightarrow> reads (fr_take_hex n) w (encode_upper w)"
  unfolding fr_take_hex_def by (rule reads_last [OF reads_take]) (simp_all add: reads_preturn)

lemma reads_take_lossy: "length w = n \<Longrightarrow> reads (fr_take_lossy n) w (from_utf8_lossy w)"
  unfolding fr_take_lossy_def by (rule reads_last [OF reads_take]) (simp_all add: reads_preturn)

lemma reads_parse_with:
  "(\<And>pre post. f (pre @ w @ post) (length pre) = Ok (x, length w)) \<Longrightarrow> reads (fr_parse_with f) w x"
  by (simp add: reads_def fr_parse_with_def)

text \<open>A length prefix in text, then as many bytes as it announces.\<close>

lemma reads_ascii_len_field:
  assumes "length l = width" and "utf8_valid l" and "from_str_radix radix l = Some (length w)"
  shows "reads (fr_take_ascii_len_field width radix) (l @ w) w"
  unfolding fr_take_ascii_len_field_def
  by (rule reads_pbind [OF reads_take [OF assms(1)]])
    (auto simp: assms utf8_or_malformed_def radix_or_malformed_def from_utf8_def
      intro!: reads_plift [where x = l] reads_plift [where x = "length w"] reads_take)

lemma reads_ascii_len_hex:
  assumes "length l = width" and "utf8_valid l" and "from_str_radix radix l = Some n"
    and "length w = n * 2"
  shows "reads (fr_take_ascii_len_hex width radix) (l @ w) w"
  unfolding fr_take_ascii_len_hex_def
  by (rule reads_pbind [OF reads_take [OF assms(1)]])
    (auto simp: assms utf8_or_malformed_def radix_or_malformed_def from_utf8_def
      intro!: reads_plift [where x = l] reads_plift [where x = n] reads_take)

lemma run_parser_reads:
  assumes "reads p w x"
  shows "run_parser p (w @ rest) = Ok x"
  using assms [unfolded reads_def, rule_format, of "[]" rest]
  by (simp add: run_parser_def fr_new_def)

lemmas reads_steps =
  reads_pbind [OF reads_take] reads_pbind [OF reads_take_array] reads_pbind [OF reads_byte]
  reads_pbind [OF reads_expect_byte] reads_pbind [OF reads_u16_be]
  reads_pbind [OF reads_take_hex] reads_pbind [OF reads_take_lossy]
  reads_last [OF reads_take] reads_last [OF reads_take_array] reads_last [OF reads_byte]
  reads_last [OF reads_expect_byte] reads_last [OF reads_u16_be]
  reads_last [OF reads_take_hex] reads_last [OF reads_take_lossy]
  reads_plift reads_preturn

declare reads_steps [reads_intros]

section \<open>Exactly what is read\<close>

text \<open>What is left to read.\<close>

definition unread :: "field_reader \<Rightarrow> bytes" where
  "unread r = drop (fr_pos r) (fr_buf r)"

definition skip :: "nat \<Rightarrow> field_reader \<Rightarrow> field_reader" where
  "skip n r = r\<lparr> fr_pos := fr_pos r + n \<rparr>"

lemma fr_take_exact:
  "fr_take n r = (if n \<le> length (unread r) then Ok (take n (unread r), skip n r) else Err MalformedPayload)" if "fr_inv r"
  using that by (auto simp: fr_take_def fr_inv_def Let_def slice_def unread_def skip_def)

lemma skip_inv: "fr_inv r \<Longrightarrow> n \<le> length (unread r) \<Longrightarrow> fr_inv (skip n r)"
  by (simp add: fr_inv_def unread_def skip_def)

lemma unread_skip: "unread (skip n r) = drop n (unread r)"
  by (simp add: unread_def skip_def add.commute)

lemma fr_take_array_exact: "fr_inv r \<Longrightarrow> fr_take_array n r = fr_take n r"
  by (simp add: fr_take_array_def pbind_def fr_take_exact plift_def)

lemma fr_byte_exact:
  "fr_byte r = (case unread r of [] \<Rightarrow> Err MalformedPayload | b # _ \<Rightarrow> Ok (b, skip 1 r))" if "fr_inv r"
  using that by (auto simp: fr_byte_def pbind_def fr_take_exact plift_def index_def split: list.split)

lemma fr_u16_be_exact:
  "fr_u16_be r = (case unread r of a # b # _ \<Rightarrow> Ok (unat a * 256 + unat b, skip 2 r) | _ \<Rightarrow> Err MalformedPayload)" if "fr_inv r"
  using that by (auto simp: fr_u16_be_def pbind_def fr_take_array_exact fr_take_exact plift_def index_def split: list.split)

text \<open>A length in text and then the field: what the two readers of such fields accept, in both units.\<close>

definition len_prefixed :: "nat \<Rightarrow> nat \<Rightarrow> nat \<Rightarrow> field_reader \<Rightarrow> bytes \<times> field_reader \<Rightarrow> bool" where
  "len_prefixed unit width radix r res \<longleftrightarrow>
     (\<exists>l n w post. unread r = l @ w @ post \<and> length l = width \<and> utf8_valid l \<and> from_str_radix radix l = Some n
        \<and> length w = n * unit \<and> res = (w, skip (width + n * unit) r))"

definition read_len_prefixed :: "nat \<Rightarrow> nat \<Rightarrow> nat \<Rightarrow> bytes parser" where
  "read_len_prefixed unit width radix =
     pbind (fr_take width) (\<lambda>w. pbind (plift (utf8_or_malformed w)) (\<lambda>s.
     pbind (plift (radix_or_malformed radix s)) (\<lambda>n. fr_take (n * unit))))"

lemma ascii_len_readers:
  "fr_take_ascii_len_field = read_len_prefixed 1" "fr_take_ascii_len_hex = read_len_prefixed 2"
  by (simp_all add: fun_eq_iff fr_take_ascii_len_field_def fr_take_ascii_len_hex_def read_len_prefixed_def)

lemma read_len_prefixed_exact:
  "read_len_prefixed unit width radix r =
     (if width \<le> length (unread r) \<and> utf8_valid (take width (unread r)) then
        (case from_str_radix radix (take width (unread r)) of
           Some n \<Rightarrow>
             if width + n * unit \<le> length (unread r)
             then Ok (take (n * unit) (drop width (unread r)), skip (width + n * unit) r) else Err MalformedPayload
         | None \<Rightarrow> Err MalformedPayload)
      else Err MalformedPayload)" if "fr_inv r"
proof -
  have skip2: "skip n (skip m r) = skip (m + n) r" for m n by (simp add: skip_def add.assoc)
  show ?thesis using that
    by (auto simp: read_len_prefixed_def pbind_def plift_def fr_take_exact skip_inv unread_skip skip2 utf8_or_malformed_def
        from_utf8_def radix_or_malformed_def split: option.split)
qed

lemma read_len_prefixed_Ok_iff:
  assumes "fr_inv r"
  shows "read_len_prefixed unit width radix r = Ok x \<longleftrightarrow> len_prefixed unit width radix r x"
proof
  assume "read_len_prefixed unit width radix r = Ok x"
  then obtain n where n: "width \<le> length (unread r)" "utf8_valid (take width (unread r))"
      "from_str_radix radix (take width (unread r)) = Some n" "width + n * unit \<le> length (unread r)"
      "x = (take (n * unit) (drop width (unread r)), skip (width + n * unit) r)"
    by (auto simp: read_len_prefixed_exact [OF assms] split: if_splits option.splits)
  have "unread r = take width (unread r) @ take (n * unit) (drop width (unread r)) @ drop (n * unit) (drop width (unread r))"
    by (simp only: append_take_drop_id)
  moreover have "length (take width (unread r)) = width" "length (take (n * unit) (drop width (unread r))) = n * unit"
    using n by simp_all
  ultimately show "len_prefixed unit width radix r x" using n(2,3,5) unfolding len_prefixed_def by blast
next
  assume "len_prefixed unit width radix r x"
  then show "read_len_prefixed unit width radix r = Ok x"
    by (auto simp: len_prefixed_def read_len_prefixed_exact [OF assms])
qed

lemma doubled_length_bound:
  assumes "from_str_radix radix l = Some n" and "2 \<le> radix" and "radix \<le> 36" and "length l \<le> 12"
  shows "n * 2 < 2 ^ 64"
proof -
  have "n < radix ^ length l" using from_str_radix_bound [OF assms(1)] assms(2) by simp
  also have "\<dots> \<le> radix ^ 12" using assms(2,4) by (intro power_increasing) simp_all
  also have "\<dots> \<le> 36 ^ 12" using assms(3) by (intro power_mono) simp_all
  finally show ?thesis by simp
qed

section \<open>Properties\<close>

text \<open>
  C30: the reader consumes exactly what it returns. From a cursor inside its buffer, a fixed-width operation
  returns the next bytes and moves the cursor by their number, or fails with a malformed payload when fewer are left
  (a single byte, an expected byte and a big-endian number are the next one or two bytes; a hexadecimal
  field is printed as twice as many uppercase hexadecimal digits); what remains is returned without moving; a
  field behind a length in text is read exactly when the length is valid text of the given width
  that parses to a number and that many bytes (or twice as many characters) follow, and the cursor then stands
  behind it; a delegated parser moves the cursor by what it consumed. No operation panics, and for the
  widths and radices in use (at most twelve digits, radix at most 36) the doubled length fits 64 bits.
\<close>

theorem reader_consumes_exactly:
  assumes "fr_inv r" and "sub_ok f" and "2 \<le> radix" and "radix \<le> 36" and "width \<le> 12"
  shows "fr_take n r = (if n \<le> length (unread r) then Ok (take n (unread r), skip n r) else Err MalformedPayload)
    \<and> fr_take_array n r = fr_take n r
    \<and> fr_remaining r = Ok (unread r, r)
    \<and> fr_byte r = (case unread r of [] \<Rightarrow> Err MalformedPayload | b # _ \<Rightarrow> Ok (b, skip 1 r))
    \<and> fr_expect_byte b r = (if unread r \<noteq> [] \<and> hd (unread r) = b then Ok ((), skip 1 r) else Err MalformedPayload)
    \<and> fr_u16_be r = (case unread r of a # b # _ \<Rightarrow> Ok (unat a * 256 + unat b, skip 2 r) | _ \<Rightarrow> Err MalformedPayload)
    \<and> fr_take_hex n r = (if n \<le> length (unread r) then Ok (encode_upper (take n (unread r)), skip n r) else Err MalformedPayload)
    \<and> (n \<le> length (unread r) \<longrightarrow> length (encode_upper (take n (unread r))) = 2 * n
          \<and> list_all is_ascii_hexdigit (encode_upper (take n (unread r))))
    \<and> (fr_take_ascii_len_field width radix r = Ok x \<longleftrightarrow> len_prefixed 1 width radix r x)
    \<and> (fr_take_ascii_len_hex width radix r = Ok x \<longleftrightarrow> len_prefixed 2 width radix r x)
    \<and> (len_prefixed 2 width radix r x \<longrightarrow> length (fst x) < 2 ^ 64)
    \<and> outcome_ok r (\<lambda>v. \<exists>k. f (fr_buf r) (fr_pos r) = Ok (v, k) \<and> fr_parse_with f r = Ok (v, skip k r)) (fr_parse_with f r)
    \<and> {fr_take_hex n r, fr_take_ascii_len_field width radix r, fr_take_ascii_len_hex width radix r} \<inter> {Panic} = {}"
proof (intro conjI)
  show "fr_take n r = (if n \<le> length (unread r) then Ok (take n (unread r), skip n r) else Err MalformedPayload)"
    by (rule fr_take_exact [OF assms(1)])
  show "fr_take_array n r = fr_take n r" by (rule fr_take_array_exact [OF assms(1)])
  show "fr_remaining r = Ok (unread r, r)"
    using assms(1) by (simp add: fr_remaining_def slice_def fr_inv_def unread_def)
  show "fr_byte r = (case unread r of [] \<Rightarrow> Err MalformedPayload | b # _ \<Rightarrow> Ok (b, skip 1 r))"
    by (rule fr_byte_exact [OF assms(1)])
  show "fr_expect_byte b r = (if unread r \<noteq> [] \<and> hd (unread r) = b then Ok ((), skip 1 r) else Err MalformedPayload)"
    by (auto simp: fr_expect_byte_def pbind_def fr_byte_exact [OF assms(1)] plift_def preturn_def split: list.split)
  show "fr_u16_be r = (case unread r of a # b # _ \<Rightarrow> Ok (unat a * 256 + unat b, skip 2 r) | _ \<Rightarrow> Err MalformedPayload)"
    by (rule fr_u16_be_exact [OF assms(1)])
  show "fr_take_hex n r = (if n \<le> length (unread r) then Ok (encode_upper (take n (unread r)), skip n r) else Err MalformedPayload)"
    by (simp add: fr_take_hex_def pbind_def fr_take_exact [OF assms(1)] preturn_def)
  show "n \<le> length (unread r) \<longrightarrow> length (encode_upper (take n (unread r))) = 2 * n
      \<and> list_all is_ascii_hexdigit (encode_upper (take n (unread r)))"
    using encode_upper_hexdigits by (auto simp: list_all_iff)
  show "fr_take_ascii_len_field width radix r = Ok x \<longleftrightarrow> len_prefixed 1 width radix r x"
    and "fr_take_ascii_len_hex width radix r = Ok x \<longleftrightarrow> len_prefixed 2 width radix r x"
    unfolding ascii_len_readers by (rule read_len_prefixed_Ok_iff [OF assms(1)])+
  show "len_prefixed 2 width radix r x \<longrightarrow> length (fst x) < 2 ^ 64"
    using doubled_length_bound assms(3,4,5) by (auto simp: len_prefixed_def)
  show "outcome_ok r (\<lambda>v. \<exists>k. f (fr_buf r) (fr_pos r) = Ok (v, k) \<and> fr_parse_with f r = Ok (v, skip k r)) (fr_parse_with f r)"
    using assms(1,2)
    by (cases "f (fr_buf r) (fr_pos r)") (auto simp: fr_parse_with_def skip_def sub_ok_def fr_inv_def)
  show "{fr_take_hex n r, fr_take_ascii_len_field width radix r, fr_take_ascii_len_hex width radix r} \<inter> {Panic} = {}"
    by (auto simp: ascii_len_readers read_len_prefixed_exact [OF assms(1)] fr_take_hex_def pbind_def
        fr_take_exact [OF assms(1)] preturn_def split: option.splits if_splits)
qed

theorem reader_consumes_exactly_witness:
  "fr_take 2 \<lparr> fr_buf = [1, 0x30, 0x32, 0xAB, 0xCD, 9], fr_pos = 1 \<rparr> =
      Ok ([0x30, 0x32], \<lparr> fr_buf = [1, 0x30, 0x32, 0xAB, 0xCD, 9], fr_pos = 3 \<rparr>)
    \<and> fr_take_ascii_len_field 2 16 \<lparr> fr_buf = [1, 0x30, 0x32, 0xAB, 0xCD, 9], fr_pos = 1 \<rparr> =
      Ok ([0xAB, 0xCD], \<lparr> fr_buf = [1, 0x30, 0x32, 0xAB, 0xCD, 9], fr_pos = 5 \<rparr>)"
proof -
  define r where "r = \<lparr> fr_buf = [1, 0x30, 0x32, 0xAB, 0xCD, 9 :: byte], fr_pos = 1 \<rparr>"
  have r: "fr_inv r" "unread r = [0x30, 0x32, 0xAB, 0xCD, 9]" by (simp_all add: r_def fr_inv_def unread_def)
  have f: "sub_ok (\<lambda>buf off. if off < length buf then Ok ((), 1) else Err MalformedPayload)" by (simp add: sub_ok_def)
  have "len_prefixed 1 2 16 r ([0xAB, 0xCD], skip 4 r)"
    unfolding len_prefixed_def
    by (rule exI [of _ "[0x30, 0x32]"], rule exI [of _ 2], rule exI [of _ "[0xAB, 0xCD]"], rule exI [of _ "[9]"])
      (simp add: r(2) is_ascii_utf8_valid is_ascii_def from_str_radix_def to_digit_def)
  with reader_consumes_exactly [OF r(1) f, of 16 2 2 0 "([0xAB, 0xCD], skip 4 r)"] r(2) show ?thesis
    by (simp add: skip_def r_def)
qed

end
