(* ===== verification/Key_Map.thy ===== *)
theory Key_Map
  imports Proxy_Error "HOL-Library.List_Lexorder" "HOL-Library.Multiset"
begin

text \<open>
  Key resolution (\<open>src/src/key_map.rs\<close>): the label map and the KCV index, the resolution
  of a parsed key field, and the startup scan of the APC inventory. Strings are their UTF-8
  bytes; \<open>Ord\<close> on \<open>String\<close> is the lexicographic order on them. The control-plane client
  is a parameter: a state transformer that answers each \<open>list_keys\<close> request with a page or
  with a send error.
\<close>

section \<open>Descriptors\<close>

record key_block_meta =
  key_usage :: bytes
  algorithm :: byte
  kcv :: "bytes option"

record key_descriptor =
  raw :: bytes
  block :: "key_block_meta option"

definition label :: "bytes \<Rightarrow> key_descriptor" where
  "label r = \<lparr> raw = r, block = None \<rparr>"

record kcv_key =
  kk_key_usage :: bytes
  kk_algorithm :: bytes
  kk_kcv :: bytes

record key_map =
  labels :: "bytes \<Rightarrow> bytes option"
  kcv_index :: "kcv_key \<Rightarrow> bytes option"

definition key_map_new :: "(bytes \<Rightarrow> bytes option) \<Rightarrow> key_map" where
  "key_map_new mappings = \<lparr> labels = mappings, kcv_index = (\<lambda>_. None) \<rparr>"

section \<open>TR-31 names\<close>

definition tr31_algo_to_apc :: "byte \<Rightarrow> bytes" where
  "tr31_algo_to_apc algo =
     (if algo = 0x41 then ascii ''AES_128''
      else if algo = 0x44 \<or> algo = 0x54 then ascii ''TDES_2KEY''
      else if algo = 0x48 then ascii ''HMAC_SHA256''
      else if algo = 0x52 then ascii ''RSA_2048''
      else [])"

definition tr31_usage_suffix :: "(bytes \<times> bytes) list" where
  "tr31_usage_suffix = map (\<lambda>(u, s). (ascii u, ascii s))
    [(''B0'', ''BASE_DERIVATION_KEY''),
     (''C0'', ''CARD_VERIFICATION_KEY''),
     (''D0'', ''SYMMETRIC_DATA_ENCRYPTION_KEY''),
     (''E0'', ''EMV_MKEY_APP_CRYPTOGRAMS''),
     (''E1'', ''EMV_MKEY_CONFIDENTIALITY''),
     (''E2'', ''EMV_MKEY_INTEGRITY''),
     (''E4'', ''EMV_MKEY_DYNAMIC_NUMBERS''),
     (''E5'', ''EMV_MKEY_CARD_PERSONALIZATION''),
     (''E6'', ''EMV_MKEY_OTHER''),
     (''K0'', ''KEY_BLOCK_PROTECTION_KEY''),
     (''K1'', ''KEY_BLOCK_PROTECTION_KEY''),
     (''M1'', ''ISO_9797_1_MAC_KEY''),
     (''M3'', ''ISO_9797_3_MAC_KEY''),
     (''M6'', ''ISO_9797_5_CMAC_KEY''),
     (''M7'', ''HMAC_KEY''),
     (''P0'', ''PIN_ENCRYPTION_KEY''),
     (''V1'', ''IBM3624_PIN_VERIFICATION_KEY''),
     (''V2'', ''VISA_PIN_VERIFICATION_KEY'')]"

definition tr31_usage_to_apc :: "bytes \<Rightarrow> bytes" where
  "tr31_usage_to_apc usage =
     (case map_of tr31_usage_suffix usage of
        None \<Rightarrow> []
      | Some suffix \<Rightarrow> ascii ''TR31_'' @ usage @ ascii ''_'' @ suffix)"

section \<open>Resolution\<close>

definition is_apc_identifier :: "bytes \<Rightarrow> bool" where
  "is_apc_identifier s \<longleftrightarrow>
     starts_with (ascii ''arn:aws:payment-cryptography'') s \<or> starts_with (ascii ''alias/'') s"

definition resolve :: "key_map \<Rightarrow> bytes \<Rightarrow> bytes result" where
  "resolve km key_id =
     (if is_apc_identifier key_id then Ok key_id
      else ok_or KeyNotFound (labels km key_id))"

definition block_kcv_key :: "key_block_meta \<Rightarrow> bytes \<Rightarrow> kcv_key" where
  "block_kcv_key b v =
     \<lparr> kk_key_usage = tr31_usage_to_apc (key_usage b),
       kk_algorithm = tr31_algo_to_apc (algorithm b),
       kk_kcv = to_ascii_uppercase v \<rparr>"

definition resolve_descriptor :: "key_map \<Rightarrow> key_descriptor \<Rightarrow> bytes result" where
  "resolve_descriptor km desc =
     (if is_apc_identifier (raw desc) then Ok (raw desc)
      else
        let by_label =
          (case labels km (raw desc) of
             Some arn \<Rightarrow> Ok arn
           | None \<Rightarrow> (case block desc of Some _ \<Rightarrow> Err KeyNotFound | None \<Rightarrow> Err KeyNotFound))
        in case block desc of
             None \<Rightarrow> by_label
           | Some b \<Rightarrow>
               (case kcv b of
                  None \<Rightarrow> by_label
                | Some v \<Rightarrow>
                    (case kcv_index km (block_kcv_key b v) of
                       Some arn \<Rightarrow> Ok arn
                     | None \<Rightarrow> Err KeyNotFound)))"

section \<open>Inventory scan\<close>

record key_attributes =
  ka_key_usage :: bytes
  ka_key_algorithm :: bytes

record key_summary =
  ks_key_arn :: bytes
  ks_key_attributes :: "key_attributes option"
  ks_enabled :: bool
  ks_key_check_value :: bytes

text \<open>A \<open>list_keys\<close> request: the key state filter and the page token.\<close>

datatype key_state = CreateComplete | CreateInProgress | DeletePending | DeleteComplete

record list_keys_request =
  lk_key_state :: key_state
  lk_token :: "bytes option"

record list_keys_output =
  lk_keys :: "key_summary list"
  lk_next_token :: "bytes option"

type_synonym 's control_client = "'s \<Rightarrow> list_keys_request \<Rightarrow> 's \<times> list_keys_output option"

record scan_state =
  collisions :: "(kcv_key \<times> bytes list) list"
  scanned :: nat
  skipped_disabled :: nat

text \<open>\<open>collisions.entry(key).or_default().push(arn)\<close>\<close>

fun entry_push :: "kcv_key \<Rightarrow> bytes \<Rightarrow> (kcv_key \<times> bytes list) list \<Rightarrow> (kcv_key \<times> bytes list) list" where
  "entry_push k arn [] = [(k, [arn])]"
| "entry_push k arn ((k', arns) # es) =
     (if k' = k then (k', arns @ [arn]) # es else (k', arns) # entry_push k arn es)"

definition summary_key :: "key_attributes \<Rightarrow> key_summary \<Rightarrow> kcv_key" where
  "summary_key attrs s =
     \<lparr> kk_key_usage = ka_key_usage attrs, kk_algorithm = ka_key_algorithm attrs,
       kk_kcv = to_ascii_uppercase (ks_key_check_value s) \<rparr>"

definition scan_summary :: "key_summary \<Rightarrow> scan_state \<Rightarrow> scan_state" where
  "scan_summary s st =
     (let st = st\<lparr> scanned := scanned st + 1 \<rparr> in
      case ks_key_attributes s of
        None \<Rightarrow> st
      | Some attrs \<Rightarrow>
          if \<not> ks_enabled s then st\<lparr> skipped_disabled := skipped_disabled st + 1 \<rparr>
          else st\<lparr> collisions := entry_push (summary_key attrs s) (ks_key_arn s) (collisions st) \<rparr>)"

partial_function (option) scan_pages ::
    "'s control_client \<Rightarrow> 's \<Rightarrow> bytes option \<Rightarrow> scan_state \<Rightarrow> ('s \<times> scan_state result) option" where
  "scan_pages client s next_token st =
     (case client s \<lparr> lk_key_state = CreateComplete, lk_token = next_token \<rparr> of
        (s', None) \<Rightarrow> Some (s', Err ApcError)
      | (s', Some resp) \<Rightarrow>
          (case lk_next_token resp of
             None \<Rightarrow> Some (s', Ok (fold scan_summary (lk_keys resp) st))
           | Some tok \<Rightarrow> scan_pages client s' (Some tok) (fold scan_summary (lk_keys resp) st)))"

text \<open>One turn of the indexing loop; \<open>expect\<close> on an empty vector is a panic.\<close>

definition index_entry :: "kcv_key \<times> bytes list \<Rightarrow> key_map \<Rightarrow> key_map result" where
  "index_entry e km =
     (case sort (snd e) of
        [] \<Rightarrow> Panic
      | arn # _ \<Rightarrow> Ok (km\<lparr> kcv_index := (kcv_index km)(fst e \<mapsto> arn) \<rparr>))"

fun index_collisions :: "(kcv_key \<times> bytes list) list \<Rightarrow> key_map \<Rightarrow> key_map result" where
  "index_collisions [] km = Ok km"
| "index_collisions (e # es) km = rbind (index_entry e km) (index_collisions es)"

definition scan_apc ::
    "'s control_client \<Rightarrow> 's \<Rightarrow> key_map \<Rightarrow> ('s \<times> key_map result) option" where
  "scan_apc client s km =
     (case scan_pages client s None \<lparr> collisions = [], scanned = 0, skipped_disabled = 0 \<rparr> of
        None \<Rightarrow> None
      | Some (s', Ok st) \<Rightarrow> Some (s', index_collisions (collisions st) km)
      | Some (s', Err e) \<Rightarrow> Some (s', Err e)
      | Some (s', Panic) \<Rightarrow> Some (s', Panic))"

text \<open>
  \<open>run_with\<close> keeps going with the map it has when the scan fails
  (\<open>src/src/server.rs\<close>): the KCV index is then empty.
\<close>

definition load_key_map ::
    "'s control_client \<Rightarrow> 's \<Rightarrow> (bytes \<Rightarrow> bytes option) \<Rightarrow> ('s \<times> key_map result) option" where
  "load_key_map client s mappings =
     (let km = key_map_new mappings in
      case scan_apc client s km of
        None \<Rightarrow> None
      | Some (s', Ok km') \<Rightarrow> Some (s', Ok km')
      | Some (s', Err _) \<Rightarrow> Some (s', Ok km)
      | Some (s', Panic) \<Rightarrow> Some (s', Panic))"

section \<open>Resolution facts\<close>

declare is_apc_identifier_def [eval_simps] label_def [eval_simps] block_kcv_key_def [eval_simps]
  resolve_def [eval_simps] resolve_descriptor_def [eval_simps] tr31_algo_to_apc_def [eval_simps]
  tr31_usage_to_apc_def [eval_simps] tr31_usage_suffix_def [eval_simps]
  key_map_new_def [eval_simps]

lemma raw_label [simp]: "raw (label r) = r"
  by (simp add: label_def)

lemma block_label [simp]: "block (label r) = None"
  by (simp add: label_def)

lemma resolve_not_Panic [simp]: "resolve km k \<noteq> Panic"
  by (simp add: resolve_def)

lemma resolve_descriptor_not_Panic [simp]: "resolve_descriptor km d \<noteq> Panic"
  by (auto simp: resolve_descriptor_def Let_def split: option.splits)

lemma resolve_Err: "resolve km k = Err e \<Longrightarrow> e = KeyNotFound"
  by (auto simp: resolve_def split: if_splits elim: ok_or.elims)

lemma resolve_descriptor_Err: "resolve_descriptor km d = Err e \<Longrightarrow> e = KeyNotFound"
  by (auto simp: resolve_descriptor_def Let_def split: if_splits option.splits)

text \<open>A field with no block metadata resolves as the plain identifier does.\<close>

lemma resolve_descriptor_no_block:
  "block d = None \<Longrightarrow> resolve_descriptor km d = resolve km (raw d)"
  by (auto simp: resolve_descriptor_def resolve_def Let_def split: option.splits)

text \<open>A block that carries a check value is resolved by the index alone.\<close>

lemma resolve_descriptor_kcv:
  assumes "block d = Some b" and "kcv b = Some v" and "\<not> is_apc_identifier (raw d)"
  shows "resolve_descriptor km d = ok_or KeyNotFound (kcv_index km (block_kcv_key b v))"
  using assms by (auto simp: resolve_descriptor_def split: option.splits)

text \<open>
  The contract the handlers rely on: resolving yields an ARN or the one error code 10, never
  a panic, and identifiers APC understands pass through unchanged.
\<close>

locale key_resolver =
  fixes lookup :: "'k \<Rightarrow> bytes result" and ident :: "'k \<Rightarrow> bytes"
  assumes lookup_no_panic: "lookup k \<noteq> Panic"
    and lookup_err: "lookup k = Err e \<Longrightarrow> e = KeyNotFound"
    and lookup_passthrough: "is_apc_identifier (ident k) \<Longrightarrow> lookup k = Ok (ident k)"
begin

lemma lookup_cases:
  obtains arn where "lookup k = Ok arn" | "lookup k = Err KeyNotFound"
  using lookup_no_panic lookup_err by (cases "lookup k") blast+

end

interpretation by_id: key_resolver "resolve km" "\<lambda>k. k" for km
  by unfold_locales (simp, erule resolve_Err, simp add: resolve_def)

interpretation by_descriptor: key_resolver "resolve_descriptor km" raw for km
  by unfold_locales (simp, erule resolve_descriptor_Err, simp add: resolve_descriptor_def)

section \<open>What the scan indexes\<close>

definition indexable :: "key_summary \<Rightarrow> (kcv_key \<times> bytes) option" where
  "indexable s =
     (case ks_key_attributes s of
        None \<Rightarrow> None
      | Some attrs \<Rightarrow> if ks_enabled s then Some (summary_key attrs s, ks_key_arn s) else None)"

text \<open>The ARNs of the usable keys of an inventory that share a composite key.\<close>

definition inventory_arns :: "key_summary list \<Rightarrow> kcv_key \<Rightarrow> bytes list" where
  "inventory_arns sums k =
     map snd (filter (\<lambda>e. fst e = k) (List.map_filter indexable sums))"

definition arns_of :: "(kcv_key \<times> bytes list) list \<Rightarrow> kcv_key \<Rightarrow> bytes list" where
  "arns_of es k = (case map_of es k of None \<Rightarrow> [] | Some arns \<Rightarrow> arns)"

definition collisions_ok :: "(kcv_key \<times> bytes list) list \<Rightarrow> bool" where
  "collisions_ok es \<longleftrightarrow> distinct (map fst es) \<and> (\<forall>e \<in> set es. snd e \<noteq> [])"

lemma fst_entry_push: "set (map fst (entry_push k a es)) = insert k (set (map fst es))"
  by (induction es rule: entry_push.induct) auto

lemma entry_push_ok: "collisions_ok es \<Longrightarrow> collisions_ok (entry_push k a es)"
proof (induction es)
  case (Cons e es)
  obtain k' l where e: "e = (k', l)" by force
  from Cons.prems have es: "collisions_ok es" and k': "k' \<notin> set (map fst es)" and l: "l \<noteq> []"
    by (auto simp: e collisions_ok_def)
  from Cons.IH [OF es] k' fst_entry_push [of k a es] l es show ?case
    by (cases "k' = k") (simp_all add: e collisions_ok_def)
qed (simp add: collisions_ok_def)

lemma arns_of_Nil [simp]: "arns_of [] k = []"
  by (simp add: arns_of_def)

lemma arns_of_Cons [simp]: "arns_of ((k', l) # es) k = (if k' = k then l else arns_of es k)"
  by (simp add: arns_of_def)

lemma arns_of_entry_push_same: "arns_of (entry_push k a es) k = arns_of es k @ [a]"
  by (induction k a es rule: entry_push.induct) simp_all

lemma arns_of_entry_push_other: "k' \<noteq> k \<Longrightarrow> arns_of (entry_push k a es) k' = arns_of es k'"
  by (induction k a es rule: entry_push.induct) simp_all

lemma arns_of_entry_push:
  "arns_of (entry_push k a es) k' = arns_of es k' @ (if k' = k then [a] else [])"
  by (simp add: arns_of_entry_push_same arns_of_entry_push_other)

lemma scan_summary_collisions:
  "collisions (scan_summary s st) =
     (case indexable s of None \<Rightarrow> collisions st | Some (k, a) \<Rightarrow> entry_push k a (collisions st))"
  by (auto simp: scan_summary_def indexable_def Let_def split: option.splits)

lemma inventory_arns_Cons:
  "inventory_arns (s # ss) k =
     (case indexable s of None \<Rightarrow> [] | Some (k', a) \<Rightarrow> if k' = k then [a] else [])
       @ inventory_arns ss k"
  by (auto simp: inventory_arns_def map_filter_simps split: option.splits)

lemma scan_fold_collisions:
  "collisions_ok (collisions st) \<Longrightarrow>
     collisions_ok (collisions (fold scan_summary sums st)) \<and>
     arns_of (collisions (fold scan_summary sums st)) k
       = arns_of (collisions st) k @ inventory_arns sums k"
proof (induction sums arbitrary: st)
  case Nil
  then show ?case by (simp add: inventory_arns_def map_filter_simps)
next
  case (Cons s ss)
  have "collisions_ok (collisions (scan_summary s st))"
    using Cons.prems by (auto simp: scan_summary_collisions entry_push_ok split: option.splits)
  from Cons.IH [OF this] show ?case
    by (auto simp: inventory_arns_Cons scan_summary_collisions arns_of_entry_push
        split: option.splits)
qed

lemma sort_Cons_Min:
  assumes "sort l = x # xs"
  shows "x = Min (set l)"
proof -
  have "sorted (x # xs)" and "set l = set (x # xs)"
    by (metis assms sorted_sort, metis assms set_sort)
  then have "x \<in> set l" and "\<And>y. y \<in> set l \<Longrightarrow> x \<le> y" by auto
  then show ?thesis by (intro Min_eqI [symmetric]) auto
qed

lemma sort_nonempty:
  assumes "l \<noteq> []"
  obtains xs where "sort l = Min (set l) # xs"
proof (cases "sort l")
  case Nil
  with assms have False by (metis length_0_conv length_sort)
  then show ?thesis ..
next
  case (Cons x xs)
  with that show ?thesis by (auto dest: sort_Cons_Min)
qed

lemma index_collisions_map:
  "collisions_ok es \<Longrightarrow>
     index_collisions es km =
       Ok (km\<lparr> kcv_index := (\<lambda>k. case map_of es k of
                                   None \<Rightarrow> kcv_index km k
                                 | Some l \<Rightarrow> Some (Min (set l))) \<rparr>)"
proof (induction es arbitrary: km)
  case (Cons e es)
  from Cons.prems have ne: "snd e \<noteq> []" and ok: "collisions_ok es"
    and fresh: "fst e \<notin> set (map fst es)"
    by (auto simp: collisions_ok_def)
  obtain xs where sx: "sort (snd e) = Min (set (snd e)) # xs"
    using ne by (rule sort_nonempty)
  from fresh have "map_of es (fst e) = None" by (simp add: map_of_eq_None_iff)
  then show ?case
    using sx by (cases e) (auto simp: index_entry_def Cons.IH [OF ok] fun_eq_iff split: option.splits)
qed simp

text \<open>The order in which the hash map yields its entries does not matter.\<close>

lemma index_collisions_perm:
  assumes "collisions_ok es" and "mset fs = mset es"
  shows "index_collisions fs km = index_collisions es km"
proof -
  have set: "set fs = set es" and mf: "mset (map fst fs) = mset (map fst es)"
    using assms(2) by (metis set_mset_mset, simp)
  then have ok: "collisions_ok fs"
    using assms(1) by (simp add: collisions_ok_def mset_eq_imp_distinct_iff [OF mf])
  have "map_of fs = map_of es"
    using assms(1) ok set by (intro map_of_eqI) (auto simp: collisions_ok_def)
  with assms(1) ok show ?thesis by (simp add: index_collisions_map)
qed

section \<open>Finite inventories\<close>

text \<open>
  \<open>serves client s tok sums s'\<close>: from state \<open>s\<close> the control plane answers the request
  for the page \<open>tok\<close> and every page it points to, the summaries being \<open>sums\<close> in all and
  the last page carrying no token.
\<close>

inductive serves ::
    "'s control_client \<Rightarrow> 's \<Rightarrow> bytes option \<Rightarrow> key_summary list \<Rightarrow> 's \<Rightarrow> bool"
    for client where
  last_page:
    "client s \<lparr> lk_key_state = CreateComplete, lk_token = tok \<rparr> = (s', Some resp) \<Longrightarrow>
     lk_next_token resp = None \<Longrightarrow> serves client s tok (lk_keys resp) s'"
| more_pages:
    "client s \<lparr> lk_key_state = CreateComplete, lk_token = tok \<rparr> = (s', Some resp) \<Longrightarrow>
     lk_next_token resp = Some tok' \<Longrightarrow> serves client s' (Some tok') sums s'' \<Longrightarrow>
     serves client s tok (lk_keys resp @ sums) s''"

lemma scan_pages_serves:
  "serves client s tok sums s' \<Longrightarrow>
     scan_pages client s tok st = Some (s', Ok (fold scan_summary sums st))"
  by (induction arbitrary: st rule: serves.induct) (simp_all add: scan_pages.simps)

text \<open>The index a scan of a finite inventory builds.\<close>

definition inventory_index ::
    "(kcv_key \<Rightarrow> bytes option) \<Rightarrow> key_summary list \<Rightarrow> kcv_key \<Rightarrow> bytes option" where
  "inventory_index old sums k =
     (if inventory_arns sums k = [] then old k else Some (Min (set (inventory_arns sums k))))"

lemma scan_apc_serves:
  assumes "serves client s None sums s'"
  shows "scan_apc client s km = Some (s', Ok (km\<lparr> kcv_index := inventory_index (kcv_index km) sums \<rparr>))"
proof -
  define st where "st = fold scan_summary sums \<lparr> collisions = [], scanned = 0, skipped_disabled = 0 \<rparr>"
  have ok: "collisions_ok (collisions st)"
    and arns: "arns_of (collisions st) k = inventory_arns sums k" for k
    using scan_fold_collisions [of "\<lparr> collisions = [], scanned = 0, skipped_disabled = 0 \<rparr>" sums k]
    by (simp_all add: st_def collisions_ok_def)
  have "(case map_of (collisions st) k of None \<Rightarrow> kcv_index km k | Some l \<Rightarrow> Some (Min (set l)))
      = inventory_index (kcv_index km) sums k" for k
  proof (cases "map_of (collisions st) k")
    case None
    then show ?thesis using arns [of k] by (simp add: arns_of_def inventory_index_def)
  next
    case (Some l)
    then have "l \<noteq> []" using ok by (auto simp: collisions_ok_def dest: map_of_SomeD)
    with Some show ?thesis using arns [of k] by (simp add: arns_of_def inventory_index_def)
  qed
  then show ?thesis
    by (simp add: scan_apc_def scan_pages_serves [OF assms] st_def [symmetric]
        index_collisions_map [OF ok])
qed

lemma set_inventory_arns:
  "set (inventory_arns sums k) =
     {ks_key_arn s | s attrs. s \<in> set sums \<and> ks_key_attributes s = Some attrs \<and> ks_enabled s
        \<and> summary_key attrs s = k}"
proof (induction sums)
  case Nil
  then show ?case by (simp add: inventory_arns_def map_filter_simps)
next
  case (Cons a sums)
  then show ?case
    by (auto simp: inventory_arns_Cons indexable_def split: option.splits if_splits)
qed

lemma inventory_index_set_cong:
  "set xs = set ys \<Longrightarrow> inventory_index old xs = inventory_index old ys"
proof (rule ext)
  fix k
  assume "set xs = set ys"
  then have "set (inventory_arns xs k) = set (inventory_arns ys k)"
    by (simp add: set_inventory_arns)
  then show "inventory_index old xs k = inventory_index old ys k"
    by (metis inventory_index_def set_empty)
qed

lemma not_apc_identifier: "s \<noteq> [] \<Longrightarrow> hd s \<noteq> 0x61 \<Longrightarrow> \<not> is_apc_identifier s"
  by (cases s) (auto simp: is_apc_identifier_def starts_with_def ascii_def)

text \<open>A plain field with an entry of the mapping table.\<close>

lemma resolve_descriptor_label:
  "labels km w = Some arn \<Longrightarrow> w \<noteq> [] \<Longrightarrow> hd w \<noteq> 0x61 \<Longrightarrow> resolve_descriptor km (label w) = Ok arn"
  by (simp add: resolve_descriptor_no_block resolve_def not_apc_identifier)

section \<open>Properties\<close>

text \<open>
  C9: a key block that carries a check value is resolved by the triple of usage, algorithm and
  check value alone: a miss is error 10 and never falls back to the label of the field, so two
  keys with the same label cannot be confused.
\<close>

theorem resolve_by_check_value:
  assumes "block d = Some b" and "kcv b = Some v" and "\<not> is_apc_identifier (raw d)"
  shows "resolve_descriptor km d =
      (case kcv_index km (block_kcv_key b v) of Some arn \<Rightarrow> Ok arn | None \<Rightarrow> Err KeyNotFound)
    \<and> resolve_descriptor (km\<lparr> labels := m \<rparr>) d = resolve_descriptor km d"
  using assms by (simp add: resolve_descriptor_kcv split: option.splits)

definition demo_block :: key_descriptor where
  "demo_block = \<lparr> raw = ascii ''S1'',
     block = Some \<lparr> key_usage = ascii ''P0'', algorithm = 0x54, kcv = Some (ascii ''08D7B4'') \<rparr> \<rparr>"

theorem resolve_by_check_value_witness:
  "resolve_descriptor (key_map_new [ascii ''S1'' \<mapsto> ascii ''alias/x'']) demo_block = Err KeyNotFound"
proof -
  have "\<not> is_apc_identifier (raw demo_block)"
    by (simp add: demo_block_def is_apc_identifier_def starts_with_def ascii_def)
  from resolve_by_check_value [of demo_block, OF _ _ this] show ?thesis
    by (simp add: demo_block_def key_map_new_def)
qed

text \<open>
  C10: a scan over an inventory of any number of pages ends, leaves the operator's mappings
  alone, and maps every triple to the smallest ARN among the enabled keys with that triple;
  disabled keys and keys without attributes are never indexed.
\<close>

theorem scan_indexes_smallest_arn:
  assumes "serves client s None sums s'"
  shows "\<exists>km'. scan_apc client s km = Some (s', Ok km') \<and> labels km' = labels km \<and>
    (let arns = {ks_key_arn x | x attrs. x \<in> set sums \<and> ks_key_attributes x = Some attrs \<and> ks_enabled x
                   \<and> summary_key attrs x = k}
     in kcv_index km' k = (if arns = {} then kcv_index km k else Some (Min arns)))"
  unfolding scan_apc_serves [OF assms] set_inventory_arns [symmetric] Let_def
  by (simp add: inventory_index_def)

definition demo_summary :: "string \<Rightarrow> bool \<Rightarrow> key_summary" where
  "demo_summary arn enabled =
     \<lparr> ks_key_arn = ascii arn, ks_key_attributes = Some \<lparr> ka_key_usage = ascii ''P0'', ka_key_algorithm = ascii ''AES_128'' \<rparr>,
       ks_enabled = enabled, ks_key_check_value = ascii ''08d7b4'' \<rparr>"

definition demo_client :: "unit control_client" where
  "demo_client s rq =
     (s, Some (case lk_token rq of
                 None \<Rightarrow> \<lparr> lk_keys = [demo_summary ''arn:b'' True, demo_summary ''arn:0'' False], lk_next_token = Some [] \<rparr>
               | Some _ \<Rightarrow> \<lparr> lk_keys = [demo_summary ''arn:a'' True], lk_next_token = None \<rparr>))"

lemma demo_client_serves:
  "serves demo_client () None [demo_summary ''arn:b'' True, demo_summary ''arn:0'' False, demo_summary ''arn:a'' True] ()"
proof -
  have "serves demo_client () (Some []) (lk_keys \<lparr> lk_keys = [demo_summary ''arn:a'' True], lk_next_token = None \<rparr>) ()"
    by (rule last_page) (simp_all add: demo_client_def)
  then have "serves demo_client () (Some []) [demo_summary ''arn:a'' True] ()" by simp
  from more_pages [OF _ _ this, of "()" None
      "\<lparr> lk_keys = [demo_summary ''arn:b'' True, demo_summary ''arn:0'' False], lk_next_token = Some [] \<rparr>"]
  show ?thesis by (simp add: demo_client_def)
qed

theorem scan_indexes_smallest_arn_witness:
  "\<exists>km. scan_apc demo_client () (key_map_new Map.empty) = Some ((), Ok km) \<and>
     kcv_index km \<lparr> kk_key_usage = ascii ''P0'', kk_algorithm = ascii ''AES_128'', kk_kcv = ascii ''08D7B4'' \<rparr>
       = Some (ascii ''arn:a'')"
proof -
  let ?k = "\<lparr> kk_key_usage = ascii ''P0'', kk_algorithm = ascii ''AES_128'', kk_kcv = ascii ''08D7B4'' \<rparr>"
  let ?sums = "[demo_summary ''arn:b'' True, demo_summary ''arn:0'' False, demo_summary ''arn:a'' True]"
  have key: "summary_key \<lparr> ka_key_usage = ascii ''P0'', ka_key_algorithm = ascii ''AES_128'' \<rparr>
      (demo_summary arn e) = ?k" for arn e
    by (simp add: demo_summary_def summary_key_def to_ascii_uppercase_def ascii_upper_def ascii_def)
  have "indexable (demo_summary arn e) = (if e then Some (?k, ascii arn) else None)" for arn e
    using key [of arn e] by (cases e) (simp_all add: indexable_def demo_summary_def)
  then have "inventory_arns ?sums ?k = [ascii ''arn:b'', ascii ''arn:a'']"
    by (simp add: inventory_arns_def List.map_filter_def)
  then have "{ks_key_arn x | x attrs. x \<in> set ?sums \<and> ks_key_attributes x = Some attrs \<and> ks_enabled x
      \<and> summary_key attrs x = ?k} = {ascii ''arn:b'', ascii ''arn:a''}"
    unfolding set_inventory_arns [symmetric] by simp
  moreover have "Min {ascii ''arn:b'', ascii ''arn:a''} = ascii ''arn:a''" by (simp add: min_def ascii_def)
  ultimately show ?thesis
    using scan_indexes_smallest_arn [OF demo_client_serves, of "key_map_new Map.empty" ?k]
    by (simp only: Let_def) auto
qed

text \<open>
  The index depends only on the set of keys in the account: the order of the pages, of the
  keys in them, and repeated entries make no difference.
\<close>

lemma scan_order_independent:
  assumes "serves client s None xs s'" and "serves client' t None ys t'" and "set xs = set ys"
  shows "map_option snd (scan_apc client s km) = map_option snd (scan_apc client' t km)"
  using scan_apc_serves [OF assms(1), of km] scan_apc_serves [OF assms(2), of km]
    inventory_index_set_cong [OF assms(3)] by simp

end
