(* ===== verification/Apc.thy ===== *)
theory Apc
  imports Key_Map
begin

text \<open>
  The boundary to AWS Payment Cryptography. The data-plane service is not part of the
  sources: a handler is an interaction tree that issues requests and continues on the
  answer, and a service is any state transformer that answers them. The request and
  attribute types carry the fields the handlers set through the SDK's builders; a builder
  itself is SDK code, so whether \<open>build()\<close> accepts a structure is a predicate of the
  application state.
\<close>

section \<open>SDK types\<close>

datatype pin_block_format = IsoFormat0 | IsoFormat1 | IsoFormat3 | IsoFormat4

datatype dukpt_derivation_type = Tdes2Key | Tdes3Key | Aes128 | Aes192 | Aes256

datatype dukpt_key_variant = Bidirectional | Request | Response

datatype major_key_derivation_mode = EmvOptionA | EmvOptionB

datatype translation_iso_formats =
    TranslationIsoFormat0 bytes
  | TranslationIsoFormat1
  | TranslationIsoFormat3 bytes

record dukpt_attributes =
  da_key_serial_number :: bytes
  da_derivation_type :: dukpt_derivation_type

record ibm3624_pin_verification =
  iv_decimalization_table :: bytes
  iv_pad_character :: bytes
  iv_validation_data :: bytes
  iv_pin_offset :: bytes

record visa_pin_verification =
  vv_key_index :: int
  vv_verification_value :: bytes

datatype pin_verification_attributes =
    Ibm3624Pin ibm3624_pin_verification
  | VisaPin visa_pin_verification

record ibm3624_pin_offset =
  io_encrypted_pin_block :: bytes
  io_decimalization_table :: bytes
  io_pad_character :: bytes
  io_validation_data :: bytes

record visa_pin_verification_value =
  vg_encrypted_pin_block :: bytes
  vg_key_index :: int

datatype pin_generation_attributes =
    Ibm3624PinOffset ibm3624_pin_offset
  | VisaPinVerificationValue visa_pin_verification_value

record card_verification_value1 =
  cv_card_expiry_date :: bytes
  cv_service_code :: bytes

datatype mac_algorithm =
    Cmac | HmacSha224 | HmacSha256 | HmacSha384 | HmacSha512
  | Iso9797Algorithm1 | Iso9797Algorithm3 | As280541

record mac_algorithm_dukpt =
  md_key_serial_number :: bytes
  md_key_variant :: dukpt_key_variant
  md_derivation_type :: dukpt_derivation_type

datatype session_key_derivation_mode =
    ModeEmvCommon | ModeEmv2000 | ModeAmex | ModeMastercard | ModeVisa | ModeUnionPay

datatype session_key_derivation_value = ApplicationCryptogram bytes | ApplicationTransactionCounter bytes

record mac_algorithm_emv =
  me_major_mode :: major_key_derivation_mode
  me_primary_account_number :: bytes
  me_pan_sequence_number :: bytes
  me_session_mode :: session_key_derivation_mode
  me_session_value :: session_key_derivation_value

datatype mac_attributes =
    Algorithm mac_algorithm
  | DukptIso9797Algorithm1 mac_algorithm_dukpt
  | DukptIso9797Algorithm3 mac_algorithm_dukpt
  | DukptCmac mac_algorithm_dukpt
  | EmvMac mac_algorithm_emv

datatype session_key_derivation =
    SessionKeyEmvCommon bytes bytes bytes
  | SessionKeyEmv2000 bytes bytes bytes
  | SessionKeyMastercard bytes bytes bytes bytes
  | SessionKeyAmex bytes bytes
  | SessionKeyVisa bytes bytes
  | SessionKeyUnionPay bytes bytes bytes

datatype cryptogram_auth_response =
    ArpcMethod1 bytes
  | ArpcMethod2 bytes "bytes option"

datatype encryption_mode = Ecb | Cbc

record emv_encryption_attributes =
  ee_major_mode :: major_key_derivation_mode
  ee_primary_account_number :: bytes
  ee_pan_sequence_number :: bytes
  ee_session_derivation_data :: bytes
  ee_mode :: encryption_mode

datatype encryption_decryption_attributes =
    Symmetric encryption_mode
  | Emv emv_encryption_attributes

text \<open>The structures made by a fallible \<open>build()\<close>.\<close>

datatype sdk_struct =
    STranslation translation_iso_formats
  | SDukpt dukpt_attributes
  | SIbmVerify ibm3624_pin_verification
  | SVisaVerify visa_pin_verification
  | SIbmOffset ibm3624_pin_offset
  | SVisaValue visa_pin_verification_value
  | SCvv card_verification_value1
  | SMacDukpt mac_algorithm_dukpt
  | SMacEmv mac_algorithm_emv
  | SSession session_key_derivation
  | SArpc cryptogram_auth_response
  | SSymmetric encryption_mode
  | SEmvEncryption emv_encryption_attributes

section \<open>Requests and answers\<close>

datatype apc_request =
    TranslatePinData (tp_incoming_key: bytes) (tp_outgoing_key: bytes) (tp_pin_block: bytes)
      (tp_incoming: translation_iso_formats) (tp_outgoing: translation_iso_formats)
  | VerifyPinData (vp_verification_key: bytes) (vp_encryption_key: bytes) (vp_pin_block: bytes)
      (vp_pan: bytes) (vp_format: pin_block_format) (vp_attrs: pin_verification_attributes)
      (vp_dukpt: "dukpt_attributes option")
  | GeneratePinData (gp_generation_key: bytes) (gp_encryption_key: bytes)
      (gp_attrs: pin_generation_attributes) (gp_pan: bytes) (gp_format: pin_block_format)
  | GenerateMac (gm_key: bytes) (gm_message: bytes) (gm_attrs: mac_attributes)
      (gm_length: "nat option")
  | VerifyMac (vm_key: bytes) (vm_message: bytes) (vm_mac: bytes) (vm_attrs: mac_attributes)
  | GenerateCardValidationData (gc_key: bytes) (gc_pan: bytes) (gc_attrs: card_verification_value1)
  | VerifyCardValidationData (vc_key: bytes) (vc_pan: bytes) (vc_data: bytes)
      (vc_attrs: card_verification_value1)
  | EncryptData (ed_key: bytes) (ed_plain: bytes) (ed_attrs: encryption_decryption_attributes)
  | DecryptData (dd_key: bytes) (dd_cipher: bytes) (dd_attrs: encryption_decryption_attributes)
  | VerifyAuthRequestCryptogram (va_key: bytes) (va_txn: bytes) (va_arqc: bytes)
      (va_major: major_key_derivation_mode) (va_session: session_key_derivation)
      (va_response: "cryptogram_auth_response option")

datatype pin_data = PinOffset bytes | VerificationValue bytes | UnknownPinData

record apc_output =
  r_mac :: bytes
  r_pin_block :: bytes
  r_validation_data :: bytes
  r_cipher_text :: bytes
  r_plain_text :: bytes
  r_pin_data :: "pin_data option"
  r_auth_response_value :: "bytes option"

text \<open>
  The outcomes of \<open>send().await\<close> the handlers distinguish: a response, the service's
  \<open>VerificationFailedException\<close>, any other error.
\<close>

datatype apc_result = ApcOk apc_output | ApcVerificationFailed | ApcErr

section \<open>Interaction\<close>

datatype 'a io = Done 'a | Panicked | Call apc_request "apc_result \<Rightarrow> 'a io"

type_synonym 's service = "'s \<Rightarrow> apc_request \<Rightarrow> 's \<times> apc_result"

text \<open>Running a handler against a service; \<open>None\<close> is a panic.\<close>

primrec run :: "'s service \<Rightarrow> 'a io \<Rightarrow> 's \<Rightarrow> 's \<times> 'a option" where
  "run svc (Done x) = (\<lambda>s. (s, Some x))"
| "run svc Panicked = (\<lambda>s. (s, None))"
| "run svc (Call rq k) = (\<lambda>s. case svc s rq of (s', res) \<Rightarrow> run svc (k res) s')"

text \<open>The requests of a run with their answers.\<close>

primrec trace :: "'s service \<Rightarrow> 'a io \<Rightarrow> 's \<Rightarrow> (apc_request \<times> apc_result) list" where
  "trace svc (Done x) = (\<lambda>s. [])"
| "trace svc Panicked = (\<lambda>s. [])"
| "trace svc (Call rq k) = (\<lambda>s. case svc s rq of (s', res) \<Rightarrow> (rq, res) # trace svc (k res) s')"

record app_state =
  st_key_map :: key_map
  build_ok :: "sdk_struct \<Rightarrow> bool"

text \<open>The idiom \<open>match r { Ok(x) => x, Err(e) => return HandlerResult::from_proxy_error(&e) }\<close>.\<close>

fun with_res :: "'a result \<Rightarrow> ('a \<Rightarrow> handler_result io) \<Rightarrow> handler_result io" where
  "with_res (Ok x) k = k x"
| "with_res (Err e) k = Done (from_proxy_error e)"
| "with_res Panic k = Panicked"

text \<open>\<open>builder.build().map_err(..)\<close>\<close>

definition sdk_build :: "app_state \<Rightarrow> ('a \<Rightarrow> sdk_struct) \<Rightarrow> 'a \<Rightarrow> 'a result" where
  "sdk_build st con x = (if build_ok st (con x) then Ok x else Err ApcError)"

text \<open>The two error tails of the handlers: without and with the verification mismatch.\<close>

fun on_ok :: "(apc_output \<Rightarrow> handler_result io) \<Rightarrow> apc_result \<Rightarrow> handler_result io" where
  "on_ok k (ApcOk out) = k out"
| "on_ok k ApcVerificationFailed = Done (from_proxy_error ApcError)"
| "on_ok k ApcErr = Done (from_proxy_error ApcError)"

fun on_verify :: "(apc_output \<Rightarrow> handler_result io) \<Rightarrow> apc_result \<Rightarrow> handler_result io" where
  "on_verify k (ApcOk out) = k out"
| "on_verify k ApcVerificationFailed = Done (from_proxy_error VerificationFailed)"
| "on_verify k ApcErr = Done (from_proxy_error ApcError)"

definition done_res :: "handler_result result \<Rightarrow> handler_result io" where
  "done_res r = with_res r Done"

section \<open>Reasoning about interactions\<close>

text \<open>
  \<open>io_ok A io Q\<close>: as long as the answers satisfy \<open>A\<close>, the handler does not panic and
  its result satisfies \<open>Q\<close>.
\<close>

primrec io_ok :: "(apc_request \<Rightarrow> apc_result \<Rightarrow> bool) \<Rightarrow> 'a io \<Rightarrow> ('a \<Rightarrow> bool) \<Rightarrow> bool" where
  "io_ok A (Done x) Q = Q x"
| "io_ok A Panicked Q = False"
| "io_ok A (Call rq k) Q = (\<forall>res. A rq res \<longrightarrow> io_ok A (k res) Q)"

text \<open>\<open>io_hist P io h\<close>: every request satisfies \<open>P\<close> of the exchanges before it.\<close>

primrec io_hist ::
    "((apc_request \<times> apc_result) list \<Rightarrow> apc_request \<Rightarrow> bool) \<Rightarrow> 'a io
      \<Rightarrow> (apc_request \<times> apc_result) list \<Rightarrow> bool" where
  "io_hist P (Done x) = (\<lambda>h. True)"
| "io_hist P Panicked = (\<lambda>h. True)"
| "io_hist P (Call rq k) = (\<lambda>h. P h rq \<and> (\<forall>res. io_hist P (k res) (h @ [(rq, res)])))"

named_theorems io_intros

lemma io_ok_run:
  assumes "io_ok A io Q" and "\<And>s rq. A rq (snd (svc s rq))"
  shows "\<exists>x. snd (run svc io s) = Some x \<and> Q x"
  using assms(1)
proof (induction io arbitrary: s)
  case (Call rq k)
  obtain s' res where sv: "svc s rq = (s', res)" by force
  with assms(2) [of rq s] have "A rq res" by simp
  with Call show ?case by (simp add: sv)
qed auto

lemma io_ok_call [io_intros]:
  "(\<And>res. A rq res \<Longrightarrow> io_ok A (k res) Q) \<Longrightarrow> io_ok A (Call rq k) Q"
  by simp

lemma io_ok_done [io_intros]: "Q x \<Longrightarrow> io_ok A (Done x) Q"
  by simp

lemma io_ok_if [io_intros]:
  "(b \<Longrightarrow> io_ok A p Q) \<Longrightarrow> (\<not> b \<Longrightarrow> io_ok A q Q) \<Longrightarrow> io_ok A (if b then p else q) Q"
  by simp

lemma io_ok_case_prod [io_intros]:
  "(\<And>a b. p = (a, b) \<Longrightarrow> io_ok A (f a b) Q) \<Longrightarrow> io_ok A (case p of (a, b) \<Rightarrow> f a b) Q"
  by (cases p) simp

lemma io_ok_with_res [io_intros]:
  assumes "r \<noteq> Panic" and "\<And>x. r = Ok x \<Longrightarrow> io_ok A (k x) Q"
    and "\<And>e. r = Err e \<Longrightarrow> Q (from_proxy_error e)"
  shows "io_ok A (with_res r k) Q"
  using assms by (cases r) auto

lemma io_ok_on_ok [io_intros]:
  assumes "\<And>out. res = ApcOk out \<Longrightarrow> io_ok A (k out) Q" and "Q (from_proxy_error ApcError)"
  shows "io_ok A (on_ok k res) Q"
  using assms by (cases res) auto

lemma io_ok_on_verify [io_intros]:
  assumes "\<And>out. res = ApcOk out \<Longrightarrow> io_ok A (k out) Q" and "Q (from_proxy_error ApcError)"
    and "Q (from_proxy_error VerificationFailed)"
  shows "io_ok A (on_verify k res) Q"
  using assms by (cases res) auto

lemma sdk_build_not_Panic [simp]: "sdk_build st con x \<noteq> Panic"
  by (simp add: sdk_build_def)

lemma sdk_build_Ok_iff [simp]: "sdk_build st con x = Ok y \<longleftrightarrow> build_ok st (con x) \<and> y = x"
  by (auto simp: sdk_build_def)

lemma io_hist_trace:
  assumes "io_hist P io h" and "trace svc io s = xs @ (rq, res) # ys"
  shows "P (h @ xs) rq"
  using assms
proof (induction io arbitrary: s h xs)
  case (Call rq' k)
  obtain s' res' where sv: "svc s rq' = (s', res')" by force
  show ?case
  proof (cases xs)
    case Nil
    with Call.prems sv show ?thesis by simp
  next
    case (Cons x xs')
    with Call.prems sv have x: "x = (rq', res')" and t: "trace svc (k res') s' = xs' @ (rq, res) # ys"
      by simp_all
    from Call.prems(1) have "io_hist P (k res') (h @ [(rq', res')])" by simp
    from Call.IH [OF _ this t] Cons x show ?thesis by simp
  qed
qed simp_all

section \<open>Rules for histories\<close>

named_theorems hist_intros

lemma io_hist_call [hist_intros]:
  "P h rq \<Longrightarrow> (\<And>res. io_hist P (k res) (h @ [(rq, res)])) \<Longrightarrow> io_hist P (Call rq k) h"
  by simp

lemma io_hist_done [hist_intros]: "io_hist P (Done x) h"
  by simp

lemma io_hist_if [hist_intros]:
  "(b \<Longrightarrow> io_hist P p h) \<Longrightarrow> (\<not> b \<Longrightarrow> io_hist P q h) \<Longrightarrow> io_hist P (if b then p else q) h"
  by simp

lemma io_hist_case_prod [hist_intros]:
  "(\<And>a b. p = (a, b) \<Longrightarrow> io_hist P (f a b) h) \<Longrightarrow> io_hist P (case p of (a, b) \<Rightarrow> f a b) h"
  by (cases p) simp

lemma io_hist_with_res [hist_intros]:
  "(\<And>x. r = Ok x \<Longrightarrow> io_hist P (k x) h) \<Longrightarrow> io_hist P (with_res r k) h"
  by (cases r) auto

lemma io_hist_on_ok [hist_intros]:
  "(\<And>out. res = ApcOk out \<Longrightarrow> io_hist P (k out) h) \<Longrightarrow> io_hist P (on_ok k res) h"
  by (cases res) auto

lemma io_hist_on_verify [hist_intros]:
  "(\<And>out. res = ApcOk out \<Longrightarrow> io_hist P (k out) h) \<Longrightarrow> io_hist P (on_verify k res) h"
  by (cases res) auto

text \<open>A property of every request follows from a history predicate that holds at the start.\<close>

lemma io_hist_requests:
  assumes "io_hist P io []" and "trace svc io s = xs @ (rq, res) # ys"
  shows "P xs rq"
  using io_hist_trace [OF assms] by simp

text \<open>A service that gives every request the same answer.\<close>

lemma run_call_answer:
  "(\<And>t rq. snd (svc t rq) = res) \<Longrightarrow> run svc (Call rq k) s = run svc (k res) (fst (svc s rq))"
  by (simp add: case_prod_beta)

text \<open>A result that satisfies \<open>Q\<close> of the exchanges of its run.\<close>

primrec io_result :: "('a \<Rightarrow> (apc_request \<times> apc_result) list \<Rightarrow> bool) \<Rightarrow> 'a io
    \<Rightarrow> (apc_request \<times> apc_result) list \<Rightarrow> bool" where
  "io_result Q (Done x) = (\<lambda>h. Q x h)"
| "io_result Q Panicked = (\<lambda>h. True)"
| "io_result Q (Call rq k) = (\<lambda>h. \<forall>res. io_result Q (k res) (h @ [(rq, res)]))"

lemma io_result_run:
  assumes "io_result Q io h" and "snd (run svc io s) = Some x"
  shows "Q x (h @ trace svc io s)"
  using assms
proof (induction io arbitrary: s h)
  case (Call rq k)
  obtain s' res where sv: "svc s rq = (s', res)" by force
  with Call.prems have "io_result Q (k res) (h @ [(rq, res)])" "snd (run svc (k res) s') = Some x" by simp_all
  from Call.IH [OF _ this] sv show ?case by simp
qed simp_all

lemma io_result_call [hist_intros]:
  "(\<And>res. io_result Q (k res) (h @ [(rq, res)])) \<Longrightarrow> io_result Q (Call rq k) h"
  by simp

lemma io_result_done [hist_intros]: "Q x h \<Longrightarrow> io_result Q (Done x) h"
  by simp

lemma io_result_if [hist_intros]:
  "(b \<Longrightarrow> io_result Q p h) \<Longrightarrow> (\<not> b \<Longrightarrow> io_result Q q h) \<Longrightarrow> io_result Q (if b then p else q) h"
  by simp

lemma io_result_case_prod [hist_intros]:
  "(\<And>a b. p = (a, b) \<Longrightarrow> io_result Q (f a b) h) \<Longrightarrow> io_result Q (case p of (a, b) \<Rightarrow> f a b) h"
  by (cases p) simp

lemma io_result_with_res [hist_intros]:
  "(\<And>x. r = Ok x \<Longrightarrow> io_result Q (k x) h) \<Longrightarrow> (\<And>e. r = Err e \<Longrightarrow> Q (from_proxy_error e) h)
    \<Longrightarrow> io_result Q (with_res r k) h"
  by (cases r) auto

lemma io_result_on_ok [hist_intros]:
  "(\<And>out. res = ApcOk out \<Longrightarrow> io_result Q (k out) h) \<Longrightarrow> Q (from_proxy_error ApcError) h
    \<Longrightarrow> io_result Q (on_ok k res) h"
  by (cases res) auto

lemma io_result_on_verify [hist_intros]:
  "(\<And>out. res = ApcOk out \<Longrightarrow> io_result Q (k out) h) \<Longrightarrow> Q (from_proxy_error ApcError) h
    \<Longrightarrow> Q (from_proxy_error VerificationFailed) h \<Longrightarrow> io_result Q (on_verify k res) h"
  by (cases res) auto

end
