(* ===== verification/Key_Fields.thy ===== *)
theory Key_Fields
  imports Field_Reader Apc
begin

text \<open>
  The helpers shared by the payShield handlers (\<open>src/src/handlers/thales/common.rs\<close>):
  EMV padding, the PIN-block format table, session-key and ARPC attribute construction, the
  ARQC verification tail, and the parsers for the variable-length key fields: legacy
  variant keys, TR-31 key blocks and DUKPT key serial numbers.
\<close>

section \<open>Padding and format tables\<close>

lemma gap8_Suc:
  assumes "(n :: nat) mod 8 \<noteq> 0"
  shows "Suc ((8 - Suc n mod 8) mod 8) = (8 - n mod 8) mod 8"
proof -
  define r where "r = n mod 8"
  have r: "0 < r" "r < 8" using assms by (simp_all add: r_def)
  have "Suc n mod 8 = (if Suc r = 8 then 0 else Suc r)" by (simp add: mod_Suc r_def)
  with r show ?thesis unfolding r_def [symmetric] by auto
qed

text \<open>\<open>while out.len() % 8 != 0 { out.push(0x00) }\<close>\<close>

function pad_zero8 :: "bytes \<Rightarrow> bytes" where
  "pad_zero8 out = (if length out mod 8 \<noteq> 0 then pad_zero8 (out @ [0x00]) else out)"
  by pat_completeness auto
termination
proof (relation "measure (\<lambda>out. (8 - length out mod 8) mod 8)")
  show "wf (measure (\<lambda>out :: bytes. (8 - length out mod 8) mod 8))" by simp
next
  fix out :: bytes
  assume "length out mod 8 \<noteq> 0"
  then show "(out @ [0x00], out) \<in> measure (\<lambda>out. (8 - length out mod 8) mod 8)"
    using gap8_Suc [of "length out"] by simp
qed

declare pad_zero8.simps [simp del]

definition emv_pad :: "bytes \<Rightarrow> bytes" where
  "emv_pad data = pad_zero8 (data @ [0x80])"

definition map_pin_block_format :: "bytes \<Rightarrow> pin_block_format result" where
  "map_pin_block_format code =
     (if code = ascii ''01'' then Ok IsoFormat0
      else if code = ascii ''05'' then Ok IsoFormat1
      else if code = ascii ''47'' then Ok IsoFormat3
      else if code = ascii ''48'' then Ok IsoFormat4
      else Err UnsupportedPinFormat)"

datatype emv_session = EmvCommon | Emv2000 | Mastercard | Amex | Visa | UnionPay

fun build_session_key ::
    "app_state \<Rightarrow> emv_session \<Rightarrow> bytes \<Rightarrow> bytes \<Rightarrow> bytes \<Rightarrow> bytes \<Rightarrow> session_key_derivation result" where
  "build_session_key st EmvCommon pan seq atc un = sdk_build st SSession (SessionKeyEmvCommon pan seq atc)"
| "build_session_key st Emv2000 pan seq atc un = sdk_build st SSession (SessionKeyEmv2000 pan seq atc)"
| "build_session_key st Mastercard pan seq atc un = sdk_build st SSession (SessionKeyMastercard pan seq atc un)"
| "build_session_key st Amex pan seq atc un = sdk_build st SSession (SessionKeyAmex pan seq)"
| "build_session_key st Visa pan seq atc un = sdk_build st SSession (SessionKeyVisa pan seq)"
| "build_session_key st UnionPay pan seq atc un = sdk_build st SSession (SessionKeyUnionPay pan seq atc)"

datatype arpc_params = Method1 bytes | Method2 bytes bytes

fun build_arpc_attrs :: "app_state \<Rightarrow> arpc_params \<Rightarrow> cryptogram_auth_response result" where
  "build_arpc_attrs st (Method1 arc) = sdk_build st SArpc (ArpcMethod1 arc)"
| "build_arpc_attrs st (Method2 csu pad) =
     sdk_build st SArpc (ArpcMethod2 csu (if pad \<noteq> [] then Some pad else None))"

definition verify_arqc ::
    "bytes \<Rightarrow> bytes \<Rightarrow> bytes \<Rightarrow> major_key_derivation_mode \<Rightarrow> session_key_derivation
      \<Rightarrow> cryptogram_auth_response option \<Rightarrow> handler_result io" where
  "verify_arqc key_arn txn_data arqc deriv_mode session arpc =
     Call (VerifyAuthRequestCryptogram key_arn txn_data arqc deriv_mode session arpc)
       (on_verify (\<lambda>resp.
          case r_auth_response_value resp of
            Some a \<Rightarrow> Done (success a)
          | None \<Rightarrow> Done (success [])))"

section \<open>TR-31 key blocks\<close>

text \<open>The optional-block walk; the counter of the \<open>for\<close> loop is the recursion argument.\<close>

fun scan_kc_from :: "bytes \<Rightarrow> nat \<Rightarrow> nat \<Rightarrow> bytes option result" where
  "scan_kc_from opt_area pos 0 = Ok None"
| "scan_kc_from opt_area pos (Suc n) =
     (if length opt_area < pos + 4 then Err MalformedPayload
      else
        rbind (slice opt_area pos (pos + 2)) (\<lambda>id.
        rbind (slice opt_area (pos + 2) (pos + 4)) (\<lambda>len_bytes.
        rbind (utf8_or_malformed len_bytes) (\<lambda>len_str.
        rbind (radix_or_malformed 16 len_str) (\<lambda>len.
        if len = 0 then Ok None
        else if len < 4 \<or> length opt_area < pos + len then Err MalformedPayload
        else if id = ascii ''KC'' then
          (if len < 6 then Err MalformedPayload
           else
             rbind (slice opt_area (pos + 6) (pos + len)) (\<lambda>kcv_bytes.
             rbind (utf8_or_malformed kcv_bytes) (\<lambda>kcv.
             Ok (Some (to_ascii_uppercase kcv)))))
        else scan_kc_from opt_area (pos + len) n)))))"

definition scan_kc_optional_block :: "bytes \<Rightarrow> nat \<Rightarrow> bytes option result" where
  "scan_kc_optional_block opt_area expected_count = scan_kc_from opt_area 0 expected_count"

definition parse_tr31_block :: "bytes \<Rightarrow> nat \<Rightarrow> (key_descriptor \<times> nat) result" where
  "parse_tr31_block buf offset =
     (let remaining = drop offset buf in
      if first remaining \<noteq> Some 0x53 then Err MalformedPayload
      else if length remaining < 1 + 16 then Err MalformedPayload
      else
        rbind (slice remaining 1 (length remaining)) (\<lambda>blk.
        rbind (slice blk 1 5) (\<lambda>length_bytes.
        rbind (utf8_or_malformed length_bytes) (\<lambda>length_str.
        rbind (radix_or_malformed 10 length_str) (\<lambda>block_len.
        if block_len < 16 then Err MalformedPayload
        else if length remaining < 1 + block_len then Err MalformedPayload
        else
          rbind (slice blk 5 7) (\<lambda>usage_bytes.
          rbind (utf8_or_malformed usage_bytes) (\<lambda>usage.
          rbind (index blk 7) (\<lambda>algo.
          rbind (slice blk 12 14) (\<lambda>count_bytes.
          rbind (utf8_or_malformed count_bytes) (\<lambda>count_str.
          rbind (radix_or_malformed 10 count_str) (\<lambda>opt_block_count.
          rbind (slice blk 16 block_len) (\<lambda>opt_area.
          rbind (scan_kc_optional_block opt_area opt_block_count) (\<lambda>v.
          rbind (slice remaining 0 (1 + block_len)) (\<lambda>raw_bytes.
          Ok (\<lparr> raw = from_utf8_lossy raw_bytes,
                block = Some \<lparr> key_usage = usage, algorithm = algo, kcv = v \<rparr> \<rparr>,
              1 + block_len)))))))))))))))"

section \<open>Legacy key fields\<close>

text \<open>The three parsers differ in the widths their prefixes select.\<close>

definition parse_fixed_key :: "bytes \<Rightarrow> nat \<Rightarrow> (key_descriptor \<times> nat) result" where
  "parse_fixed_key remaining len =
     (if length remaining < len then Err MalformedPayload
      else
        rbind (slice remaining 0 len) (\<lambda>raw_bytes.
        Ok (label (from_utf8_lossy raw_bytes), len)))"

definition parse_legacy_key :: "bytes \<Rightarrow> nat \<Rightarrow> (key_descriptor \<times> nat) result" where
  "parse_legacy_key buf offset =
     (let remaining = drop offset buf in
      case first remaining of
        None \<Rightarrow> Err MalformedPayload
      | Some c \<Rightarrow>
          if c = 0x53 then parse_tr31_block buf offset
          else if c = 0x55 then parse_fixed_key remaining (1 + 32)
          else if c = 0x54 then parse_fixed_key remaining (1 + 48)
          else parse_fixed_key remaining (0 + 16))"

definition parse_bdk :: "bytes \<Rightarrow> nat \<Rightarrow> (key_descriptor \<times> nat) result" where
  "parse_bdk buf offset =
     (let remaining = drop offset buf in
      case first remaining of
        None \<Rightarrow> Err MalformedPayload
      | Some c \<Rightarrow>
          if c = 0x53 then parse_tr31_block buf offset
          else if c = 0x55 then parse_fixed_key remaining 33
          else parse_fixed_key remaining 32)"

definition parse_key_32 :: "bytes \<Rightarrow> nat \<Rightarrow> (key_descriptor \<times> nat) result" where
  "parse_key_32 buf offset =
     (let remaining = drop offset buf in
      case first remaining of
        None \<Rightarrow> Err MalformedPayload
      | Some c \<Rightarrow>
          if c = 0x53 then parse_tr31_block buf offset
          else if c = 0x55 then parse_fixed_key remaining (1 + 32)
          else if c = 0x54 then parse_fixed_key remaining (1 + 48)
          else parse_fixed_key remaining (0 + 32))"

definition parse_ksn_with_descriptor ::
    "bytes \<Rightarrow> nat \<Rightarrow> (bytes \<times> nat \<times> dukpt_derivation_type) result" where
  "parse_ksn_with_descriptor buf offset =
     (let remaining = drop offset buf in
      if length remaining < 3 then Err MalformedPayload
      else
        rbind (slice remaining 1 3) (\<lambda>nibble_bytes.
        rbind (utf8_or_malformed nibble_bytes) (\<lambda>nibble_hex.
        rbind (radix_or_malformed 16 nibble_hex) (\<lambda>ksn_nibbles.
        if length remaining < 3 + ksn_nibbles then Err MalformedPayload
        else
          rbind (slice remaining 3 (3 + ksn_nibbles)) (\<lambda>ksn_bytes.
          let ksn = from_utf8_lossy ksn_bytes in
          if ksn_nibbles = 20 then Ok (ksn, 3 + ksn_nibbles, Tdes2Key)
          else if ksn_nibbles = 24 then Ok (ksn, 3 + ksn_nibbles, Aes128)
          else Err MalformedPayload)))))"

definition decode_bcd_pan_seq :: "bytes \<Rightarrow> (bytes \<times> bytes) result" where
  "decode_bcd_pan_seq bs =
     (let hex = encode_upper bs in
      rbind (slice hex 14 16) (\<lambda>pan_seq.
      rbind (slice hex 0 14) (\<lambda>pan.
      Ok (trim_start_matches 0x30 pan, pan_seq))))"

section \<open>Facts about padding\<close>

declare map_pin_block_format_def [eval_simps] emv_pad_def [eval_simps] pad_zero8.simps [eval_simps]
  scan_kc_optional_block_def [eval_simps] parse_tr31_block_def [eval_simps]
  parse_fixed_key_def [eval_simps] parse_legacy_key_def [eval_simps] parse_bdk_def [eval_simps]
  parse_key_32_def [eval_simps] parse_ksn_with_descriptor_def [eval_simps]
  decode_bcd_pan_seq_def [eval_simps] sdk_build_def [eval_simps] verify_arqc_def [eval_simps]

lemma pad_zero8_form: "\<exists>k < 8. pad_zero8 out = out @ replicate k 0x00 \<and> length (pad_zero8 out) mod 8 = 0"
proof -
  have "\<exists>k. k = (8 - length out mod 8) mod 8 \<and> pad_zero8 out = out @ replicate k 0x00"
  proof (induction out rule: pad_zero8.induct)
    case (1 out)
    show ?case
    proof (cases "length out mod 8 = 0")
      case True
      then show ?thesis by (simp add: pad_zero8.simps [of out])
    next
      case False
      with 1 obtain k where k: "k = (8 - Suc (length out) mod 8) mod 8"
        and pad: "pad_zero8 (out @ [0x00]) = (out @ [0x00]) @ replicate k 0x00" by auto
      have "Suc k = (8 - length out mod 8) mod 8" using gap8_Suc [OF False] by (simp add: k)
      moreover have "pad_zero8 out = out @ replicate (Suc k) 0x00"
        using pad False by (simp add: pad_zero8.simps [of out])
      ultimately show ?thesis by blast
    qed
  qed
  then obtain k where k: "k = (8 - length out mod 8) mod 8" "pad_zero8 out = out @ replicate k 0x00"
    by blast
  define q r where "q = length out div 8" and "r = length out mod 8"
  have out: "length out = 8 * q + r" and "r < 8" by (simp_all add: q_def r_def)
  moreover have "k = (8 - r) mod 8" by (simp add: k(1) r_def)
  ultimately have "length out + k = 8 * q \<or> length out + k = 8 * Suc q"
    by (cases "r = 0") auto
  then have "(length out + k) mod 8 = 0" by auto
  moreover have "k < 8" by (simp add: k(1))
  ultimately show ?thesis using k(2) by auto
qed

lemma emv_pad_form:
  obtains k where "k < 8" "emv_pad data = data @ 0x80 # replicate k 0x00"
    "length (emv_pad data) mod 8 = 0"
  using pad_zero8_form [of "data @ [0x80]"] by (auto simp: emv_pad_def)

lemma marker_zeros_inj:
  assumes "xs @ 0x80 # replicate k (0x00 :: byte) = ys @ 0x80 # replicate l 0x00"
  shows "xs = ys"
proof -
  have "dropWhile (\<lambda>b. b = 0x00) (rev (zs @ 0x80 # replicate m (0x00 :: byte))) = 0x80 # rev zs"
    for zs :: bytes and m
    by (simp add: dropWhile_append rev_replicate dropWhile_replicate)
  from this [of xs k] this [of ys l] assms show ?thesis by simp
qed

lemma emv_pad_inj: "emv_pad xs = emv_pad ys \<Longrightarrow> xs = ys"
  by (rule emv_pad_form [of xs]; rule emv_pad_form [of ys]) (metis marker_zeros_inj)

lemma map_pin_block_format_not_Panic [simp]: "map_pin_block_format c \<noteq> Panic"
  by (simp add: map_pin_block_format_def)

lemma build_session_key_not_Panic [simp]: "build_session_key st m pan seq atc un \<noteq> Panic"
  by (cases m) simp_all

lemma build_arpc_attrs_not_Panic [simp]: "build_arpc_attrs st p \<noteq> Panic"
  by (cases p) simp_all

lemma io_ok_verify_arqc [io_intros]:
  "io_ok A (verify_arqc k t a d s r) well_formed_result"
  by (auto simp: verify_arqc_def intro!: io_intros split: option.splits)

section \<open>Key fields stay in bounds\<close>

lemma scan_kc_from_not_Panic: "scan_kc_from opt_area pos n \<noteq> Panic"
  by (induction opt_area pos n rule: scan_kc_from.induct)
    (auto simp: rbind_Panic_iff not_less)

lemma parse_tr31_block_not_Panic: "parse_tr31_block buf off \<noteq> Panic"
  by (auto simp: parse_tr31_block_def Let_def rbind_Panic_iff rbind_Ok_iff slice_def
      scan_kc_optional_block_def scan_kc_from_not_Panic split: if_splits)

lemma parse_tr31_block_OkD:
  assumes "parse_tr31_block buf off = Ok (d, n)"
  shows "17 \<le> n" and "off + n \<le> length buf" and "raw d = from_utf8_lossy (take n (drop off buf))"
    and "block d \<noteq> None"
  using assms
  by (auto simp: parse_tr31_block_def Let_def rbind_Ok_iff slice_def split: if_splits)

lemma parse_fixed_key_not_Panic: "parse_fixed_key xs n \<noteq> Panic"
  by (auto simp: parse_fixed_key_def rbind_Panic_iff)

lemma parse_fixed_key_Ok_iff:
  "parse_fixed_key xs n = Ok (d, m) \<longleftrightarrow>
     n \<le> length xs \<and> m = n \<and> d = label (from_utf8_lossy (take n xs))"
  by (auto simp: parse_fixed_key_def rbind_Ok_iff slice_def)

lemmas key_field_defs = parse_legacy_key_def parse_bdk_def parse_key_32_def

lemmas key_field_facts = parse_tr31_block_not_Panic parse_fixed_key_not_Panic
  parse_fixed_key_Ok_iff

lemma sub_ok_parse_legacy_key [psat_intros]: "sub_ok parse_legacy_key"
  by (auto simp: sub_ok_def parse_legacy_key_def Let_def key_field_facts
      dest: parse_tr31_block_OkD(2) split: option.splits if_splits)

lemma sub_ok_parse_bdk [psat_intros]: "sub_ok parse_bdk"
  by (auto simp: sub_ok_def parse_bdk_def Let_def key_field_facts
      dest: parse_tr31_block_OkD(2) split: option.splits if_splits)

lemma sub_ok_parse_key_32 [psat_intros]: "sub_ok parse_key_32"
  by (auto simp: sub_ok_def parse_key_32_def Let_def key_field_facts
      dest: parse_tr31_block_OkD(2) split: option.splits if_splits)

lemma key_fields_not_Panic [simp]:
  "parse_legacy_key buf off \<noteq> Panic" "parse_bdk buf off \<noteq> Panic" "parse_key_32 buf off \<noteq> Panic"
  by (auto simp: key_field_defs Let_def key_field_facts split: option.splits)

lemma parse_legacy_key_le: "parse_legacy_key buf off = Ok (d, n) \<Longrightarrow> off + n \<le> length buf"
  using sub_ok_parse_legacy_key
  by (cases "off \<le> length buf") (auto simp: sub_ok_def, simp add: parse_legacy_key_def)

lemma parse_ksn_not_Panic [simp]: "parse_ksn_with_descriptor buf off \<noteq> Panic"
  by (auto simp: parse_ksn_with_descriptor_def Let_def rbind_Panic_iff split: if_splits)

lemma parse_ksn_OkD:
  assumes "parse_ksn_with_descriptor buf off = Ok (ksn, n, ty)"
  shows "off + n \<le> length buf \<and> ((n = 23 \<and> ty = Tdes2Key) \<or> (n = 27 \<and> ty = Aes128))
    \<and> ksn = from_utf8_lossy (take (n - 3) (drop (off + 3) buf))"
  using assms
  by (auto simp: parse_ksn_with_descriptor_def Let_def rbind_Ok_iff slice_def add.commute
      split: if_splits)

lemma decode_bcd_pan_seq_Ok:
  "length bs = 8 \<Longrightarrow>
     decode_bcd_pan_seq bs =
       Ok (trim_start_matches 0x30 (take 14 (encode_upper bs)), drop 14 (encode_upper bs))"
  by (simp add: decode_bcd_pan_seq_def Let_def slice_def)

section \<open>Fields on the wire\<close>

text \<open>A key field in one of the legacy forms, with the width its first byte selects.\<close>

definition legacy_field :: "bytes \<Rightarrow> bool" where
  "legacy_field w \<longleftrightarrow>
     w \<noteq> [] \<and> hd w \<noteq> 0x53 \<and> length w = (if hd w = 0x55 then 33 else if hd w = 0x54 then 49 else 16)"

lemma parse_legacy_field:
  assumes "legacy_field w"
  shows "parse_legacy_key (pre @ w @ post) (length pre) = Ok (label (from_utf8_lossy w), length w)"
proof -
  have "first (drop (length pre) (pre @ w @ post)) = Some (hd w)"
    using assms by (cases w) (simp_all add: legacy_field_def)
  with assms show ?thesis by (simp add: parse_legacy_key_def legacy_field_def parse_fixed_key_Ok_iff)
qed

lemma parse_legacy_field_at:
  "legacy_field w \<Longrightarrow> is_ascii w \<Longrightarrow> buf = pre @ w @ post \<Longrightarrow> off = length pre \<Longrightarrow> n = length w
    \<Longrightarrow> parse_legacy_key buf off = Ok (label w, n)"
  by (simp add: parse_legacy_field is_ascii_lossy_id)

lemma reads_legacy_key:
  "legacy_field w \<Longrightarrow> reads (fr_parse_with parse_legacy_key) w (label (from_utf8_lossy w))"
  by (rule reads_parse_with) (rule parse_legacy_field)

lemma reads_if_not: "\<not> b \<Longrightarrow> reads q w x \<Longrightarrow> reads (if b then p else q) w x"
  by simp

lemmas reads_key_steps [reads_intros] = reads_pbind [OF reads_legacy_key] reads_last [OF reads_legacy_key]
  reads_if_not

section \<open>Properties\<close>

text \<open>
  EMV padding is a canonical encoding: the padded message is the message, the marker
  \<open>0x80\<close> and fewer than eight zero bytes, its length is a multiple of eight, and different
  messages never pad to the same bytes.
\<close>

lemma emv_pad_canonical:
  "(\<exists>k < 8. emv_pad xs = xs @ 0x80 # replicate k 0x00) \<and> length (emv_pad xs) mod 8 = 0
   \<and> (emv_pad xs = emv_pad ys) = (xs = ys)"
proof (rule emv_pad_form [of xs])
  fix k
  assume "k < 8" and "emv_pad xs = xs @ 0x80 # replicate k 0x00" and "length (emv_pad xs) mod 8 = 0"
  moreover have "(emv_pad xs = emv_pad ys) = (xs = ys)" using emv_pad_inj by blast
  ultimately show ?thesis by blast
qed

text \<open>
  A key field is read within the payload: a block parser returns at least the tag and the
  sixteen header bytes, never more than is left, and the raw text of the descriptor is exactly
  the bytes it consumed; a field with a legacy prefix has the width of its prefix.
\<close>

lemma key_field_bounds:
  assumes "parse_legacy_key buf off = Ok (d, n)"
  shows "off + n \<le> length buf \<and> raw d = from_utf8_lossy (take n (drop off buf))
    \<and> (if buf ! off = 0x53 then 17 \<le> n \<and> block d \<noteq> None
       else block d = None \<and> n = (if buf ! off = 0x55 then 33 else if buf ! off = 0x54 then 49 else 16))"
proof (cases "drop off buf")
  case Nil
  with assms show ?thesis by (simp add: parse_legacy_key_def)
next
  case (Cons c cs)
  then have c: "buf ! off = c" "off < length buf" by (metis hd_drop_conv_nth list.sel(1) drop_eq_Nil
      list.distinct(1) not_le)+
  show ?thesis
  proof (cases "c = 0x53")
    case True
    with assms Cons have "parse_tr31_block buf off = Ok (d, n)" by (simp add: parse_legacy_key_def)
    from parse_tr31_block_OkD [OF this] c True show ?thesis by simp
  next
    case False
    with assms Cons c parse_legacy_key_le [OF assms] show ?thesis
      by (auto simp: parse_legacy_key_def parse_fixed_key_Ok_iff Let_def split: if_splits)
  qed
qed

text \<open>The wire form of an optional block: identifier, two-digit length of the whole, body.\<close>

definition opt_block :: "bytes \<times> bytes \<Rightarrow> bytes" where
  "opt_block b = fst b @ [hex_digit ((4 + length (snd b)) div 16), hex_digit ((4 + length (snd b)) mod 16)] @ snd b"

definition opt_block_ok :: "bytes \<times> bytes \<Rightarrow> bool" where
  "opt_block_ok b \<longleftrightarrow> length (fst b) = 2 \<and> 4 + length (snd b) < 256"

lemma length_opt_block: "opt_block_ok b \<Longrightarrow> length (opt_block b) = 4 + length (snd b)"
  by (simp add: opt_block_def opt_block_ok_def)

lemma radix_two_digits:
  assumes "n < 256"
  shows "radix_or_malformed 16 [hex_digit (n div 16), hex_digit (n mod 16)] = Ok n"
    and "utf8_or_malformed [hex_digit (n div 16), hex_digit (n mod 16)] =
      Ok [hex_digit (n div 16), hex_digit (n mod 16)]"
proof -
  have d: "n div 16 < 16" "n mod 16 < 16" using assms by simp_all
  have "n div 16 * 16 + n mod 16 = n" by simp
  with hex_digit_neq [OF d(1)] to_digit_hex_digit [OF d(1)] to_digit_hex_digit [OF d(2)] assms
  show "radix_or_malformed 16 [hex_digit (n div 16), hex_digit (n mod 16)] = Ok n"
    by (simp add: radix_or_malformed_def from_str_radix_def)
  have "is_ascii [hex_digit (n div 16), hex_digit (n mod 16)]"
    using hex_digit_ascii [OF d(1)] hex_digit_ascii [OF d(2)] by (simp add: is_ascii_def)
  then show "utf8_or_malformed [hex_digit (n div 16), hex_digit (n mod 16)] =
      Ok [hex_digit (n div 16), hex_digit (n mod 16)]"
    by (simp add: utf8_or_malformed_def from_utf8_def is_ascii_utf8_valid)
qed

text \<open>What one turn of the scan sees at a well-formed block.\<close>

lemma scan_kc_at_block:
  assumes "opt_block_ok b"
  shows "scan_kc_from (pre @ opt_block b @ post) (length pre) (Suc n) =
    (if fst b = ascii ''KC'' then
       (if length (snd b) < 2 then Err MalformedPayload
        else rmap (Some o to_ascii_uppercase) (utf8_or_malformed (drop 2 (snd b))))
     else scan_kc_from (pre @ opt_block b @ post) (length pre + length (opt_block b)) n)"
proof -
  define len where "len = 4 + length (snd b)"
  define ds where "ds = [hex_digit (len div 16), hex_digit (len mod 16)]"
  have len: "len < 256" "length (opt_block b) = len" and i: "length (fst b) = 2"
    using assms by (auto simp: opt_block_ok_def len_def length_opt_block)
  have ob: "opt_block b = fst b @ ds @ snd b" by (simp add: opt_block_def ds_def len_def)
  have ds: "length ds = 2" "radix_or_malformed 16 ds = Ok len" "utf8_or_malformed ds = Ok ds"
    using radix_two_digits [OF len(1)] by (simp_all add: ds_def)
  let ?s = "pre @ opt_block b @ post"
  have s1: "slice ?s (length pre) (length pre + 2) = (Ok (fst b) :: bytes result)"
    and s2: "slice ?s (length pre + 2) (length pre + 4) = (Ok ds :: bytes result)"
    using i ds(1) by (simp_all add: slice_def ob)
  have s3: "slice ?s (length pre + 6) (length pre + len) = (Ok (drop 2 (snd b)) :: bytes result)"
    if "2 \<le> length (snd b)"
    using that i ds(1) by (simp add: slice_def ob len_def drop_append)
  have bound: "\<not> length ?s < length pre + 4" "\<not> length ?s < length pre + len" "len \<noteq> 0" "\<not> len < 4"
    using len(2) by (simp_all add: len_def)
  have six: "len < 6 \<longleftrightarrow> length (snd b) < 2" by (auto simp: len_def)
  have turn: "scan_kc_from ?s (length pre) (Suc n) =
    (if fst b = ascii ''KC'' then
       (if len < 6 then Err MalformedPayload
        else rbind (slice ?s (length pre + 6) (length pre + len)) (\<lambda>k.
             rbind (utf8_or_malformed k) (\<lambda>v. Ok (Some (to_ascii_uppercase v)))))
     else scan_kc_from ?s (length pre + len) n)"
    unfolding scan_kc_from.simps(2) s1 s2 ds rbind.simps by (simp only: bound if_False simp_thms)
  show ?thesis
  proof (cases "2 \<le> length (snd b)")
    case True
    show ?thesis unfolding turn six s3 [OF True] len(2)
      using True by (cases "utf8_or_malformed (drop 2 (snd b))") simp_all
  next
    case False
    then show ?thesis unfolding turn six len(2) by simp
  qed
qed

lemma scan_kc_skips:
  assumes "list_all (\<lambda>b. opt_block_ok b \<and> fst b \<noteq> ascii ''KC'') bs"
  shows "scan_kc_from (pre @ concat (map opt_block bs) @ post) (length pre) (length bs + n) =
    scan_kc_from (pre @ concat (map opt_block bs) @ post) (length (pre @ concat (map opt_block bs))) n"
  using assms
proof (induction bs arbitrary: pre)
  case (Cons b bs)
  then have "scan_kc_from (pre @ opt_block b @ concat (map opt_block bs) @ post) (length pre) (Suc (length bs + n)) =
      scan_kc_from ((pre @ opt_block b) @ concat (map opt_block bs) @ post) (length (pre @ opt_block b)) (length bs + n)"
    by (subst scan_kc_at_block) simp_all
  with Cons.IH [of "pre @ opt_block b"] Cons.prems show ?case
    by (simp del: scan_kc_from.simps)
qed simp

text \<open>
  The check value of a key block is found: an optional area that holds well-formed blocks
  other than \<open>KC\<close> and then a \<open>KC\<close> block yields the check value of that block in upper case,
  when the announced count covers them; what follows is not looked at.
\<close>

lemma scan_kc_found:
  assumes "list_all (\<lambda>b. opt_block_ok b \<and> fst b \<noteq> ascii ''KC'') bs"
    and "opt_block_ok (ascii ''KC'', alg @ v)" and "length alg = 2" and "utf8_valid v"
  shows "scan_kc_optional_block (concat (map opt_block bs) @ opt_block (ascii ''KC'', alg @ v) @ post)
    (length bs + Suc n) = Ok (Some (to_ascii_uppercase v))"
  using scan_kc_skips [OF assms(1), of "[]" "opt_block (ascii ''KC'', alg @ v) @ post" "Suc n"]
    scan_kc_at_block [OF assms(2), of "concat (map opt_block bs)" post n] assms(3,4)
  by (simp add: scan_kc_optional_block_def utf8_or_malformed_def from_utf8_def del: scan_kc_from.simps)

section \<open>Sample data of the witnesses\<close>

definition demo_enc :: bytes where "demo_enc = 0x55 # replicate 32 0x41"
definition demo_pvk :: bytes where "demo_pvk = 0x55 # replicate 32 0x42"

definition demo_state :: app_state where
  "demo_state =
     \<lparr> st_key_map = key_map_new [demo_enc \<mapsto> ascii ''arn:e'', demo_pvk \<mapsto> ascii ''arn:p''],
       build_ok = (\<lambda>_. True) \<rparr>"

definition demo_output :: apc_output where
  "demo_output = \<lparr> r_mac = ascii ''0123456789ABCDEF'', r_pin_block = [], r_validation_data = [],
     r_cipher_text = [], r_plain_text = [], r_pin_data = Some (PinOffset (ascii ''5678'')),
     r_auth_response_value = None \<rparr>"

definition accepting_service :: "unit service" where
  "accepting_service s rq = (s, ApcOk demo_output)"

lemma demo_resolve:
  "resolve_descriptor (st_key_map demo_state) (label demo_enc) = Ok (ascii ''arn:e'')"
  "resolve_descriptor (st_key_map demo_state) (label demo_pvk) = Ok (ascii ''arn:p'')"
  by (rule resolve_descriptor_label; simp add: demo_state_def key_map_new_def demo_enc_def demo_pvk_def)+

lemma demo_keys:
  "legacy_field demo_enc" "legacy_field demo_pvk" "is_ascii demo_enc" "is_ascii demo_pvk"
  by (simp_all add: legacy_field_def demo_enc_def demo_pvk_def is_ascii_def)

end
