(* ===== verification/Pin_Handlers.thy ===== *)
theory Pin_Handlers
  imports Key_Fields
begin

text \<open>
  The PIN commands: translation (\<open>pin.rs\<close>: CA, CC, BQ, G0), PIN change
  (\<open>pin_change.rs\<close>: DU, CU), verification (\<open>pin_verify_non_dukpt.rs\<close>: DA, DC, EA, EC;
  \<open>dukpt_pin_verify.rs\<close>: CK, CM, CO, CQ; \<open>dukpt_pin_verify_aes.rs\<close>: GO, GQ, GS, GU) and
  the commands APC cannot serve (\<open>diebold_pin.rs\<close>, \<open>random_pin.rs\<close>). Each command has its
  field record, its parser and its handler, a tree of APC calls.
\<close>

section \<open>PIN translation\<close>

datatype iso_fmt = F0 | F1 | F3

definition map_translate_format :: "bytes \<Rightarrow> iso_fmt result" where
  "map_translate_format code =
     (if code = ascii ''01'' then Ok F0
      else if code = ascii ''05'' then Ok F1
      else if code = ascii ''47'' then Ok F3
      else if code = ascii ''04'' then Err Unsupported
      else if code = ascii ''48'' then Err Unsupported
      else Err UnsupportedPinFormat)"

record pin_fields =
  pf_source_key :: key_descriptor
  pf_dest_key :: key_descriptor
  pf_source_format :: iso_fmt
  pf_dest_format :: iso_fmt
  pf_pin_block :: bytes
  pf_account_number :: bytes

definition parse_translate_fields :: "bool \<Rightarrow> pin_fields parser" where
  "parse_translate_fields has_dest_flag =
     pbind (fr_parse_with parse_legacy_key) (\<lambda>source_key.
     pbind fr_remaining (\<lambda>rest.
     if has_dest_flag \<and> (first rest = Some 0x2A \<or> first rest = Some 0x7E)
     then plift (Err Unsupported)
     else
     pbind (fr_parse_with parse_legacy_key) (\<lambda>dest_key.
     pbind (fr_take 2) (\<lambda>_.
     pbind (fr_take_lossy 16) (\<lambda>pin_block.
     pbind (fr_take 2) (\<lambda>src_code.
     pbind (plift (map_translate_format src_code)) (\<lambda>source_format.
     pbind (fr_take 2) (\<lambda>dst_code.
     pbind (plift (map_translate_format dst_code)) (\<lambda>dest_format.
     pbind (fr_take_lossy 12) (\<lambda>account_number.
     preturn \<lparr> pf_source_key = source_key, pf_dest_key = dest_key,
               pf_source_format = source_format, pf_dest_format = dest_format,
               pf_pin_block = pin_block, pf_account_number = account_number \<rparr>))))))))))"

definition parse_translate :: "bytes \<Rightarrow> bool \<Rightarrow> pin_fields result" where
  "parse_translate pl has_dest_flag = run_parser (parse_translate_fields has_dest_flag) pl"

fun build_translation_attrs :: "app_state \<Rightarrow> iso_fmt \<Rightarrow> bytes \<Rightarrow> translation_iso_formats result" where
  "build_translation_attrs st F0 account = sdk_build st STranslation (TranslationIsoFormat0 account)"
| "build_translation_attrs st F1 account = Ok TranslationIsoFormat1"
| "build_translation_attrs st F3 account = sdk_build st STranslation (TranslationIsoFormat3 account)"

definition translate_pin :: "app_state \<Rightarrow> pin_fields result \<Rightarrow> handler_result io" where
  "translate_pin st parsed =
     with_res parsed (\<lambda>fields.
     with_res (resolve_descriptor (st_key_map st) (pf_source_key fields)) (\<lambda>incoming_arn.
     with_res (resolve_descriptor (st_key_map st) (pf_dest_key fields)) (\<lambda>outgoing_arn.
     with_res (build_translation_attrs st (pf_source_format fields) (pf_account_number fields)) (\<lambda>incoming_attrs.
     with_res (build_translation_attrs st (pf_dest_format fields) (pf_account_number fields)) (\<lambda>outgoing_attrs.
     Call (TranslatePinData incoming_arn outgoing_arn (pf_pin_block fields) incoming_attrs outgoing_attrs)
       (on_ok (\<lambda>resp. Done (success (r_pin_block resp)))))))))"

definition pin_handle :: "app_state \<Rightarrow> bytes \<Rightarrow> bytes \<Rightarrow> handler_result io" where
  "pin_handle st code pl =
     (if code = ascii ''CC'' then translate_pin st (parse_translate pl False)
      else if code = ascii ''CA'' then translate_pin st (parse_translate pl True)
      else if code = ascii ''G0'' then Done (from_proxy_error Unsupported)
      else if code = ascii ''BQ'' then Done (from_proxy_error Unsupported)
      else Done (err (ascii ''68'')))"

section \<open>PIN change\<close>

record du_fields =
  du_enc_key_id :: key_descriptor
  du_pvk_id :: key_descriptor
  du_cur_pin_block :: bytes
  du_pin_block_format :: bytes
  du_account :: bytes
  du_decim_table :: bytes
  du_pin_val_data :: bytes
  du_cur_offset :: bytes
  du_new_pin_block :: bytes

record cu_fields =
  cu_enc_key_id :: key_descriptor
  cu_pvk_id :: key_descriptor
  cu_cur_pin_block :: bytes
  cu_pin_block_format :: bytes
  cu_account :: bytes
  cu_pvki :: int
  cu_cur_pvv :: bytes
  cu_new_pin_block :: bytes

definition parse_du_fields :: "du_fields parser" where
  "parse_du_fields =
     pbind (fr_parse_with parse_legacy_key) (\<lambda>enc_key_id.
     pbind (fr_parse_with parse_legacy_key) (\<lambda>pvk_id.
     pbind (fr_take (2 + 2)) (\<lambda>_.
     pbind (fr_take_lossy 16) (\<lambda>cur_pin_block.
     pbind (fr_take_lossy 2) (\<lambda>pin_block_format.
     pbind (fr_take_lossy 12) (\<lambda>account.
     pbind (fr_take_lossy 16) (\<lambda>decim_table.
     pbind (fr_take_lossy 12) (\<lambda>pin_val_data.
     pbind (fr_take_lossy 12) (\<lambda>cur_offset.
     pbind (fr_take_lossy 16) (\<lambda>new_pin_block.
     preturn \<lparr> du_enc_key_id = enc_key_id, du_pvk_id = pvk_id,
               du_cur_pin_block = cur_pin_block, du_pin_block_format = pin_block_format,
               du_account = account, du_decim_table = decim_table,
               du_pin_val_data = pin_val_data, du_cur_offset = cur_offset,
               du_new_pin_block = new_pin_block \<rparr>))))))))))"

definition parse_du :: "bytes \<Rightarrow> du_fields result" where
  "parse_du pl = run_parser parse_du_fields pl"

text \<open>The one-digit key indicator: \<open>from_utf8\<close>, then \<open>parse::<i32>\<close>.\<close>

definition fr_pvki :: "int parser" where
  "fr_pvki =
     pbind (fr_take 1) (\<lambda>w.
     pbind (plift (utf8_or_malformed w)) (\<lambda>pvki_str.
     plift (ok_or MalformedPayload (parse_i32 pvki_str))))"

definition parse_cu_fields :: "cu_fields parser" where
  "parse_cu_fields =
     pbind (fr_parse_with parse_legacy_key) (\<lambda>enc_key_id.
     pbind (fr_parse_with parse_key_32) (\<lambda>pvk_id.
     pbind (fr_take (2 + 2)) (\<lambda>_.
     pbind (fr_take_lossy 16) (\<lambda>cur_pin_block.
     pbind (fr_take_lossy 2) (\<lambda>pin_block_format.
     pbind (fr_take_lossy 12) (\<lambda>account.
     pbind fr_pvki (\<lambda>pvki.
     pbind (fr_take_lossy 4) (\<lambda>cur_pvv.
     pbind (fr_take_lossy 16) (\<lambda>new_pin_block.
     preturn \<lparr> cu_enc_key_id = enc_key_id, cu_pvk_id = pvk_id,
               cu_cur_pin_block = cur_pin_block, cu_pin_block_format = pin_block_format,
               cu_account = account, cu_pvki = pvki, cu_cur_pvv = cur_pvv,
               cu_new_pin_block = new_pin_block \<rparr>)))))))))"

definition parse_cu :: "bytes \<Rightarrow> cu_fields result" where
  "parse_cu pl = run_parser parse_cu_fields pl"

definition handle_du :: "app_state \<Rightarrow> bytes \<Rightarrow> handler_result io" where
  "handle_du st pl =
     with_res (parse_du pl) (\<lambda>fields.
     with_res (resolve_descriptor (st_key_map st) (du_enc_key_id fields)) (\<lambda>enc_arn.
     with_res (resolve_descriptor (st_key_map st) (du_pvk_id fields)) (\<lambda>pvk_arn.
     with_res (map_pin_block_format (du_pin_block_format fields)) (\<lambda>pin_format.
     let cur_offset_trimmed = trim_end_matches 0x46 (du_cur_offset fields) in
     with_res (sdk_build st SIbmVerify
         \<lparr> iv_decimalization_table = du_decim_table fields, iv_pad_character = ascii ''F'',
           iv_validation_data = du_pin_val_data fields, iv_pin_offset = cur_offset_trimmed \<rparr>) (\<lambda>ibm_verify.
     Call (VerifyPinData pvk_arn enc_arn (du_cur_pin_block fields) (du_account fields) pin_format
             (Ibm3624Pin ibm_verify) None)
       (on_verify (\<lambda>_.
          with_res (sdk_build st SIbmOffset
              \<lparr> io_encrypted_pin_block = du_new_pin_block fields,
                io_decimalization_table = du_decim_table fields, io_pad_character = ascii ''F'',
                io_validation_data = du_pin_val_data fields \<rparr>) (\<lambda>ibm_gen.
          Call (GeneratePinData pvk_arn enc_arn (Ibm3624PinOffset ibm_gen) (du_account fields) pin_format)
            (on_ok (\<lambda>resp.
               case r_pin_data resp of
                 Some (PinOffset offset) \<Rightarrow> Done (success (pad_right 0x46 12 offset))
               | _ \<Rightarrow> Done (from_proxy_error ApcError)))))))))))"

definition handle_cu :: "app_state \<Rightarrow> bytes \<Rightarrow> handler_result io" where
  "handle_cu st pl =
     with_res (parse_cu pl) (\<lambda>fields.
     with_res (resolve_descriptor (st_key_map st) (cu_enc_key_id fields)) (\<lambda>enc_arn.
     with_res (resolve_descriptor (st_key_map st) (cu_pvk_id fields)) (\<lambda>pvk_arn.
     with_res (map_pin_block_format (cu_pin_block_format fields)) (\<lambda>pin_format.
     with_res (sdk_build st SVisaVerify
         \<lparr> vv_key_index = cu_pvki fields, vv_verification_value = cu_cur_pvv fields \<rparr>) (\<lambda>visa_verify.
     Call (VerifyPinData pvk_arn enc_arn (cu_cur_pin_block fields) (cu_account fields) pin_format
             (VisaPin visa_verify) None)
       (on_verify (\<lambda>_.
          with_res (sdk_build st SVisaValue
              \<lparr> vg_encrypted_pin_block = cu_new_pin_block fields, vg_key_index = cu_pvki fields \<rparr>) (\<lambda>visa_gen.
          Call (GeneratePinData pvk_arn enc_arn (VisaPinVerificationValue visa_gen) (cu_account fields) pin_format)
            (on_ok (\<lambda>resp.
               case r_pin_data resp of
                 Some (VerificationValue pvv) \<Rightarrow> Done (success pvv)
               | _ \<Rightarrow> Done (from_proxy_error ApcError)))))))))))"

definition pin_change_handle :: "app_state \<Rightarrow> bytes \<Rightarrow> bytes \<Rightarrow> handler_result io" where
  "pin_change_handle st code pl =
     (if code = ascii ''CU'' then handle_cu st pl else handle_du st pl)"

section \<open>PIN verification without DUKPT\<close>

record ibm_fields =
  if_enc_key_id :: key_descriptor
  if_pvk_id :: key_descriptor
  if_pin_block :: bytes
  if_pin_block_format :: bytes
  if_account :: bytes
  if_decim_table :: bytes
  if_pin_val_data :: bytes
  if_offset :: bytes

record visa_fields =
  vf_enc_key_id :: key_descriptor
  vf_pvk_id :: key_descriptor
  vf_pin_block :: bytes
  vf_pin_block_format :: bytes
  vf_account :: bytes
  vf_pvki :: int
  vf_pvv :: bytes

definition parse_ibm_fields :: "ibm_fields parser" where
  "parse_ibm_fields =
     pbind (fr_parse_with parse_legacy_key) (\<lambda>enc_key_id.
     pbind (fr_parse_with parse_legacy_key) (\<lambda>pvk_id.
     pbind (fr_take (2 + 2)) (\<lambda>_.
     pbind (fr_take_lossy 16) (\<lambda>pin_block.
     pbind (fr_take_lossy 2) (\<lambda>pin_block_format.
     pbind (fr_take_lossy 12) (\<lambda>account.
     pbind (fr_take_lossy 16) (\<lambda>decim_table.
     pbind (fr_take_lossy 12) (\<lambda>pin_val_data.
     pbind (fr_take_lossy 12) (\<lambda>offset.
     preturn \<lparr> if_enc_key_id = enc_key_id, if_pvk_id = pvk_id, if_pin_block = pin_block,
               if_pin_block_format = pin_block_format, if_account = account,
               if_decim_table = decim_table, if_pin_val_data = pin_val_data,
               if_offset = offset \<rparr>)))))))))"

definition parse_ibm :: "bytes \<Rightarrow> ibm_fields result" where
  "parse_ibm pl = run_parser parse_ibm_fields pl"

definition parse_visa_fields :: "visa_fields parser" where
  "parse_visa_fields =
     pbind (fr_parse_with parse_legacy_key) (\<lambda>enc_key_id.
     pbind (fr_parse_with parse_key_32) (\<lambda>pvk_id.
     pbind (fr_take (2 + 2)) (\<lambda>_.
     pbind (fr_take_lossy 16) (\<lambda>pin_block.
     pbind (fr_take_lossy 2) (\<lambda>pin_block_format.
     pbind (fr_take_lossy 12) (\<lambda>account.
     pbind fr_pvki (\<lambda>pvki.
     pbind (fr_take_lossy 4) (\<lambda>pvv.
     preturn \<lparr> vf_enc_key_id = enc_key_id, vf_pvk_id = pvk_id, vf_pin_block = pin_block,
               vf_pin_block_format = pin_block_format, vf_account = account,
               vf_pvki = pvki, vf_pvv = pvv \<rparr>))))))))"

definition parse_visa :: "bytes \<Rightarrow> visa_fields result" where
  "parse_visa pl = run_parser parse_visa_fields pl"

definition handle_ibm :: "app_state \<Rightarrow> bytes \<Rightarrow> handler_result io" where
  "handle_ibm st pl =
     with_res (parse_ibm pl) (\<lambda>fields.
     with_res (resolve_descriptor (st_key_map st) (if_enc_key_id fields)) (\<lambda>enc_arn.
     with_res (resolve_descriptor (st_key_map st) (if_pvk_id fields)) (\<lambda>pvk_arn.
     let offset_trimmed = trim_end_matches 0x46 (if_offset fields) in
     with_res (sdk_build st SIbmVerify
         \<lparr> iv_decimalization_table = if_decim_table fields, iv_pad_character = ascii ''F'',
           iv_validation_data = if_pin_val_data fields, iv_pin_offset = offset_trimmed \<rparr>) (\<lambda>ibm_attrs.
     with_res (map_pin_block_format (if_pin_block_format fields)) (\<lambda>pin_format.
     Call (VerifyPinData pvk_arn enc_arn (if_pin_block fields) (if_account fields) pin_format
             (Ibm3624Pin ibm_attrs) None)
       (on_verify (\<lambda>_. Done (success []))))))))"

definition handle_visa :: "app_state \<Rightarrow> bytes \<Rightarrow> handler_result io" where
  "handle_visa st pl =
     with_res (parse_visa pl) (\<lambda>fields.
     with_res (resolve_descriptor (st_key_map st) (vf_enc_key_id fields)) (\<lambda>enc_arn.
     with_res (resolve_descriptor (st_key_map st) (vf_pvk_id fields)) (\<lambda>pvk_arn.
     with_res (sdk_build st SVisaVerify
         \<lparr> vv_key_index = vf_pvki fields, vv_verification_value = vf_pvv fields \<rparr>) (\<lambda>visa_attrs.
     with_res (map_pin_block_format (vf_pin_block_format fields)) (\<lambda>pin_format.
     Call (VerifyPinData pvk_arn enc_arn (vf_pin_block fields) (vf_account fields) pin_format
             (VisaPin visa_attrs) None)
       (on_verify (\<lambda>_. Done (success []))))))))"

definition pin_verify_non_dukpt_handle :: "app_state \<Rightarrow> bytes \<Rightarrow> bytes \<Rightarrow> handler_result io" where
  "pin_verify_non_dukpt_handle st code pl =
     (if code = ascii ''DA'' \<or> code = ascii ''EA'' then handle_ibm st pl
      else if code = ascii ''DC'' \<or> code = ascii ''EC'' then handle_visa st pl
      else Done (err (ascii ''68'')))"

section \<open>DUKPT PIN verification\<close>

definition handle_ck :: "app_state \<Rightarrow> bytes \<Rightarrow> handler_result io" where
  "handle_ck st pl =
     with_res (parse_bdk pl 0) (\<lambda>(bdk_id, bdk_len).
     with_res (parse_legacy_key pl bdk_len) (\<lambda>(pvk_id, pvk_len).
     let ksn_start = bdk_len + pvk_len + 3;
         pin_start = ksn_start + 20;
         check_start = pin_start + 16;
         account_start = check_start + 2;
         decim_start = account_start + 12 in
     if get pl decim_start = Some 0x4B \<or> get pl decim_start = Some 0x4C
     then Done (err (ascii ''15''))
     else
     let pin_val_start = decim_start + 16 in
     if get pl pin_val_start = Some 0x50 then Done (err (ascii ''15''))
     else
     let offset_start = pin_val_start + 12;
         min_len = offset_start + 12 in
     if length pl < min_len then Done (from_proxy_error MalformedPayload)
     else
     with_res (slice pl ksn_start (ksn_start + 20)) (\<lambda>ksn.
     with_res (slice pl pin_start (pin_start + 16)) (\<lambda>pin_block.
     with_res (slice pl account_start (account_start + 12)) (\<lambda>account.
     with_res (slice pl decim_start (decim_start + 16)) (\<lambda>decim_table.
     with_res (slice pl pin_val_start (pin_val_start + 12)) (\<lambda>pin_val_data.
     with_res (slice pl offset_start (offset_start + 12)) (\<lambda>offset.
     with_res (resolve_descriptor (st_key_map st) bdk_id) (\<lambda>bdk_arn.
     with_res (resolve_descriptor (st_key_map st) pvk_id) (\<lambda>pvk_arn.
     with_res (sdk_build st SDukpt
         \<lparr> da_key_serial_number = from_utf8_lossy ksn, da_derivation_type = Tdes2Key \<rparr>) (\<lambda>dukpt_attrs.
     let pin_offset = trim_end_matches 0x46 (from_utf8_lossy offset) in
     with_res (sdk_build st SIbmVerify
         \<lparr> iv_decimalization_table = from_utf8_lossy decim_table, iv_pad_character = ascii ''F'',
           iv_validation_data = from_utf8_lossy pin_val_data, iv_pin_offset = pin_offset \<rparr>) (\<lambda>ibm_attrs.
     Call (VerifyPinData pvk_arn bdk_arn (from_utf8_lossy pin_block) (from_utf8_lossy account)
             IsoFormat0 (Ibm3624Pin ibm_attrs) (Some dukpt_attrs))
       (on_verify (\<lambda>_. Done (success [])))))))))))))))"

definition dukpt_pin_verify_handle :: "app_state \<Rightarrow> bytes \<Rightarrow> bytes \<Rightarrow> handler_result io" where
  "dukpt_pin_verify_handle st code pl =
     (if code = ascii ''CK'' then handle_ck st pl
      else if code = ascii ''CM'' then Done (from_proxy_error Unsupported)
      else if code = ascii ''CO'' \<or> code = ascii ''CQ'' then Done (err (ascii ''68''))
      else Done (err (ascii ''68'')))"

record go_fields =
  go_bdk_id :: key_descriptor
  go_pvk_id :: key_descriptor
  go_deriv_type :: dukpt_derivation_type
  go_pin_block_format :: pin_block_format
  go_ksn :: bytes
  go_pin_block :: bytes
  go_account :: bytes
  go_decim_table :: bytes
  go_pin_val_data :: bytes
  go_offset :: bytes

definition parse_mode :: "bytes \<Rightarrow> nat result" where
  "parse_mode pl =
     (case first pl of
        None \<Rightarrow> Err MalformedPayload
      | Some m \<Rightarrow>
          if m = 0x30 \<or> m = 0x32 then Ok 1
          else if m = 0x31 then Err Unsupported
          else Err MalformedPayload)"

fun pin_block_len :: "dukpt_derivation_type \<Rightarrow> nat" where
  "pin_block_len Aes128 = 32"
| "pin_block_len Aes192 = 32"
| "pin_block_len Aes256 = 32"
| "pin_block_len _ = 16"

definition map_dukpt_format :: "bytes \<Rightarrow> nat \<Rightarrow> pin_block_format result" where
  "map_dukpt_format pl pos =
     (let e = pos + 2 in
      if length pl < e then Err MalformedPayload
      else
        rbind (slice pl pos e) (\<lambda>w.
        rbind (utf8_or_malformed w) (\<lambda>code.
        if code = ascii ''04'' then Err Unsupported
        else map_pin_block_format code)))"

definition parse_go :: "bytes \<Rightarrow> go_fields result" where
  "parse_go pl =
     rbind (parse_mode pl) (\<lambda>pos.
     rbind (parse_bdk pl pos) (\<lambda>(bdk_id, bdk_len).
     rbind (parse_legacy_key pl (pos + bdk_len)) (\<lambda>(pvk_id, pvk_len).
     let ksn_offset = pos + bdk_len + pvk_len in
     rbind (parse_ksn_with_descriptor pl ksn_offset) (\<lambda>(ksn, ksn_consumed, deriv_type).
     let pin_start = ksn_offset + ksn_consumed;
         pin_len = pin_block_len deriv_type;
         fmt_start = pin_start + pin_len in
     rbind (map_dukpt_format pl fmt_start) (\<lambda>fmt.
     let check_start = fmt_start + 2;
         account_start = check_start + 2;
         decim_start = account_start + 12 in
     if get pl decim_start = Some 0x4B \<or> get pl decim_start = Some 0x4C
     then Err MalformedPayload
     else
     let pin_val_start = decim_start + 16 in
     if get pl pin_val_start = Some 0x50 then Err MalformedPayload
     else
     let offset_start = pin_val_start + 12;
         min_len = offset_start + 12 in
     if length pl < min_len then Err MalformedPayload
     else
     rbind (slice pl pin_start (pin_start + pin_len)) (\<lambda>pin_block.
     rbind (slice pl account_start (account_start + 12)) (\<lambda>account.
     rbind (slice pl decim_start (decim_start + 16)) (\<lambda>decim_table.
     rbind (slice pl pin_val_start (pin_val_start + 12)) (\<lambda>pin_val_data.
     rbind (slice pl offset_start (offset_start + 12)) (\<lambda>offset.
     Ok \<lparr> go_bdk_id = bdk_id, go_pvk_id = pvk_id, go_deriv_type = deriv_type,
          go_pin_block_format = fmt, go_ksn = ksn, go_pin_block = from_utf8_lossy pin_block,
          go_account = from_utf8_lossy account, go_decim_table = from_utf8_lossy decim_table,
          go_pin_val_data = from_utf8_lossy pin_val_data,
          go_offset = from_utf8_lossy offset \<rparr>))))))))))"

definition handle_go :: "app_state \<Rightarrow> bytes \<Rightarrow> handler_result io" where
  "handle_go st pl =
     with_res (parse_go pl) (\<lambda>fields.
     with_res (resolve_descriptor (st_key_map st) (go_bdk_id fields)) (\<lambda>bdk_arn.
     with_res (resolve_descriptor (st_key_map st) (go_pvk_id fields)) (\<lambda>pvk_arn.
     with_res (sdk_build st SDukpt
         \<lparr> da_key_serial_number = go_ksn fields, da_derivation_type = go_deriv_type fields \<rparr>) (\<lambda>dukpt_attrs.
     let pin_offset = trim_end_matches 0x46 (go_offset fields) in
     with_res (sdk_build st SIbmVerify
         \<lparr> iv_decimalization_table = go_decim_table fields, iv_pad_character = ascii ''F'',
           iv_validation_data = go_pin_val_data fields, iv_pin_offset = pin_offset \<rparr>) (\<lambda>ibm_attrs.
     Call (VerifyPinData pvk_arn bdk_arn (go_pin_block fields) (go_account fields)
             (go_pin_block_format fields) (Ibm3624Pin ibm_attrs) (Some dukpt_attrs))
       (on_verify (\<lambda>_. Done (success []))))))))"

definition dukpt_pin_verify_aes_handle :: "app_state \<Rightarrow> bytes \<Rightarrow> bytes \<Rightarrow> handler_result io" where
  "dukpt_pin_verify_aes_handle st code pl =
     (if code = ascii ''GO'' then handle_go st pl
      else if code = ascii ''GQ'' then Done (from_proxy_error Unsupported)
      else if code = ascii ''GS'' \<or> code = ascii ''GU'' then Done (err (ascii ''68''))
      else Done (err (ascii ''68'')))"

section \<open>Commands without an APC equivalent\<close>

definition diebold_pin_handle :: "app_state \<Rightarrow> bytes \<Rightarrow> bytes \<Rightarrow> handler_result io" where
  "diebold_pin_handle st code pl = Done (from_proxy_error Unsupported)"

definition random_pin_handle :: "app_state \<Rightarrow> bytes \<Rightarrow> bytes \<Rightarrow> handler_result io" where
  "random_pin_handle st code pl = Done (from_proxy_error Unsupported)"

section \<open>The parsers never panic\<close>

lemma map_translate_format_not_Panic [simp]: "map_translate_format c \<noteq> Panic"
  by (simp add: map_translate_format_def)

lemma safe_fr_pvki: "safe fr_pvki"
  unfolding fr_pvki_def by (intro psat_intros) simp_all

declare psat_pbind [OF safe_fr_pvki, psat_intros]

lemma safe_parse_translate_fields: "safe (parse_translate_fields b)"
  unfolding parse_translate_fields_def by (intro psat_intros) simp_all

lemma safe_parse_du_fields: "safe parse_du_fields"
  unfolding parse_du_fields_def by (intro psat_intros) simp_all

lemma safe_parse_cu_fields: "safe parse_cu_fields"
  unfolding parse_cu_fields_def by (intro psat_intros) simp_all

lemma safe_parse_ibm_fields: "safe parse_ibm_fields"
  unfolding parse_ibm_fields_def by (intro psat_intros) simp_all

lemma safe_parse_visa_fields: "safe parse_visa_fields"
  unfolding parse_visa_fields_def by (intro psat_intros) simp_all

lemma pin_parsers_not_Panic [simp]:
  "parse_translate pl b \<noteq> Panic" "parse_du pl \<noteq> Panic" "parse_cu pl \<noteq> Panic"
  "parse_ibm pl \<noteq> Panic" "parse_visa pl \<noteq> Panic"
  unfolding parse_translate_def parse_du_def parse_cu_def parse_ibm_def parse_visa_def
  by (rule run_parser_not_Panic safe_parse_translate_fields safe_parse_du_fields
      safe_parse_cu_fields safe_parse_ibm_fields safe_parse_visa_fields)+

lemma parse_mode_not_Panic [simp]: "parse_mode pl \<noteq> Panic"
  by (simp add: parse_mode_def split: option.splits)

lemma map_dukpt_format_not_Panic [simp]: "map_dukpt_format pl pos \<noteq> Panic"
  by (auto simp: map_dukpt_format_def Let_def rbind_Panic_iff)

lemma parse_go_not_Panic [simp]: "parse_go pl \<noteq> Panic"
  unfolding parse_go_def Let_def
  by (auto simp: rbind_Panic_iff split: if_splits prod.splits)

lemma build_translation_attrs_not_Panic [simp]: "build_translation_attrs st f a \<noteq> Panic"
  by (cases f) simp_all

section \<open>The handlers never panic\<close>

lemma io_ok_pin_handle [io_intros]: "io_ok A (pin_handle st code pl) well_formed_result"
  unfolding pin_handle_def translate_pin_def by (intro io_intros) (simp_all add: well_formed_err)

lemma io_ok_handle_du [io_intros]: "io_ok A (handle_du st pl) well_formed_result"
  unfolding handle_du_def Let_def
  by (intro io_intros) (simp_all split: option.splits pin_data.splits)

lemma io_ok_handle_cu [io_intros]: "io_ok A (handle_cu st pl) well_formed_result"
  unfolding handle_cu_def Let_def
  by (intro io_intros) (simp_all split: option.splits pin_data.splits)

lemma io_ok_pin_change_handle [io_intros]: "io_ok A (pin_change_handle st code pl) well_formed_result"
  unfolding pin_change_handle_def by (intro io_intros)

lemma io_ok_pin_verify_non_dukpt_handle [io_intros]:
  "io_ok A (pin_verify_non_dukpt_handle st code pl) well_formed_result"
  unfolding pin_verify_non_dukpt_handle_def handle_ibm_def handle_visa_def Let_def
  by (intro io_intros) (simp_all add: well_formed_err)

lemma io_ok_handle_ck [io_intros]: "io_ok A (handle_ck st pl) well_formed_result"
  unfolding handle_ck_def Let_def by (intro io_intros) (simp_all add: well_formed_err)

lemma io_ok_dukpt_pin_verify_handle [io_intros]:
  "io_ok A (dukpt_pin_verify_handle st code pl) well_formed_result"
  unfolding dukpt_pin_verify_handle_def by (intro io_intros) (simp_all add: well_formed_err)

lemma io_ok_dukpt_pin_verify_aes_handle [io_intros]:
  "io_ok A (dukpt_pin_verify_aes_handle st code pl) well_formed_result"
  unfolding dukpt_pin_verify_aes_handle_def handle_go_def Let_def
  by (intro io_intros) (simp_all add: well_formed_err)

lemma io_ok_diebold_pin_handle [io_intros]: "io_ok A (diebold_pin_handle st code pl) well_formed_result"
  by (simp add: diebold_pin_handle_def)

lemma io_ok_random_pin_handle [io_intros]: "io_ok A (random_pin_handle st code pl) well_formed_result"
  by (simp add: random_pin_handle_def)

section \<open>Properties\<close>

lemma char_count_ascii: "is_ascii s \<Longrightarrow> char_count s = length s"
  by (simp add: char_count_def is_ascii_def is_cont_def filter_id_conv [THEN iffD2] not_le)

lemma reads_du:
  assumes "legacy_field enc" and "legacy_field pvk" and "length skipped = 4"
    and "length cur = 16" and "length fmt = 2" and "length acct = 12" and "length dec = 16"
    and "length val = 12" and "length off = 12" and "length new = 16"
    and "is_ascii (enc @ pvk @ cur @ fmt @ acct @ dec @ val @ off @ new)"
  shows "reads parse_du_fields (enc @ pvk @ skipped @ cur @ fmt @ acct @ dec @ val @ off @ new)
    \<lparr> du_enc_key_id = label enc, du_pvk_id = label pvk, du_cur_pin_block = cur,
      du_pin_block_format = fmt, du_account = acct, du_decim_table = dec, du_pin_val_data = val,
      du_cur_offset = off, du_new_pin_block = new \<rparr>"
  unfolding parse_du_fields_def using assms
  by (intro reads_intros) (simp_all add: is_ascii_lossy_id)

definition demo_du_fields :: du_fields where
  "demo_du_fields =
     \<lparr> du_enc_key_id = label demo_enc, du_pvk_id = label demo_pvk, du_cur_pin_block = replicate 16 0x30,
       du_pin_block_format = ascii ''01'', du_account = replicate 12 0x31, du_decim_table = replicate 16 0x32,
       du_pin_val_data = replicate 12 0x33, du_cur_offset = ascii ''1234FFFFFFFF'', du_new_pin_block = replicate 16 0x35 \<rparr>"

definition demo_du :: bytes where
  "demo_du = demo_enc @ demo_pvk @ replicate 4 0x30 @ replicate 16 0x30 @ ascii ''01'' @ replicate 12 0x31
     @ replicate 16 0x32 @ replicate 12 0x33 @ ascii ''1234FFFFFFFF'' @ replicate 16 0x35 @ []"

text \<open>The fields of a PIN change on the wire: the two key fields, then text fields at fixed offsets behind them.\<close>

definition wire_field :: "bytes \<Rightarrow> nat \<Rightarrow> nat \<Rightarrow> bytes" where
  "wire_field pl pos len = from_utf8_lossy (take len (drop pos pl))"

definition change_keys :: "bytes \<Rightarrow> bytes \<Rightarrow> key_descriptor \<Rightarrow> key_descriptor \<Rightarrow> nat \<Rightarrow> bool" where
  "change_keys code pl ed pd n \<longleftrightarrow>
     (\<exists>i j. parse_legacy_key pl 0 = Ok (ed, i)
        \<and> (if code = ascii ''CU'' then parse_key_32 pl i else parse_legacy_key pl i) = Ok (pd, j) \<and> n = i + j)"

lemma pbind_Ok_iff: "pbind p f r = Ok (y, r') \<longleftrightarrow> (\<exists>x r1. p r = Ok (x, r1) \<and> f x r1 = Ok (y, r'))"
  by (auto simp: pbind_def rbind_Ok_iff)

lemma fr_take_lossy_Ok_iff:
  "fr_take_lossy n \<lparr> fr_buf = pl, fr_pos = pos \<rparr> = Ok (x, r) \<longleftrightarrow>
     pos + n \<le> length pl \<and> x = wire_field pl pos n \<and> r = \<lparr> fr_buf = pl, fr_pos = pos + n \<rparr>"
  by (auto simp: fr_take_lossy_def fr_take_def pbind_def preturn_def slice_def Let_def wire_field_def split: if_splits)

lemma fr_take_Ok_iff:
  "fr_take n \<lparr> fr_buf = pl, fr_pos = pos \<rparr> = Ok (x, r) \<longleftrightarrow>
     pos + n \<le> length pl \<and> x = take n (drop pos pl) \<and> r = \<lparr> fr_buf = pl, fr_pos = pos + n \<rparr>"
  by (auto simp: fr_take_def slice_def Let_def split: if_splits)

lemma fr_parse_with_Ok_iff:
  "fr_parse_with f \<lparr> fr_buf = pl, fr_pos = pos \<rparr> = Ok (x, r) \<longleftrightarrow>
     (\<exists>k. f pl pos = Ok (x, k) \<and> r = \<lparr> fr_buf = pl, fr_pos = pos + k \<rparr>)"
  by (auto simp: fr_parse_with_def rbind_Ok_iff)

lemma fr_pvki_Ok:
  "fr_pvki \<lparr> fr_buf = pl, fr_pos = pos \<rparr> = Ok (x, r) \<Longrightarrow>
     parse_i32 (take 1 (drop pos pl)) = Some x \<and> r = \<lparr> fr_buf = pl, fr_pos = pos + 1 \<rparr>"
  by (auto simp: fr_pvki_def pbind_Ok_iff fr_take_Ok_iff plift_def utf8_or_malformed_def from_utf8_def split: if_splits)

lemmas layout_simps = pbind_Ok_iff fr_take_lossy_Ok_iff fr_take_Ok_iff fr_parse_with_Ok_iff preturn_def

lemma run_parser_OkE: "run_parser p pl = Ok f \<Longrightarrow> \<exists>r. p \<lparr> fr_buf = pl, fr_pos = 0 \<rparr> = Ok (f, r)"
  by (auto simp: run_parser_def fr_new_def)

lemma parse_du_layout:
  assumes "parse_du pl = Ok f" and "code \<noteq> ascii ''CU''"
  shows "\<exists>n. change_keys code pl (du_enc_key_id f) (du_pvk_id f) n
    \<and> du_cur_pin_block f = wire_field pl (n + 4) 16 \<and> du_pin_block_format f = wire_field pl (n + 20) 2
    \<and> du_account f = wire_field pl (n + 22) 12 \<and> du_decim_table f = wire_field pl (n + 34) 16
    \<and> du_pin_val_data f = wire_field pl (n + 50) 12 \<and> du_cur_offset f = wire_field pl (n + 62) 12
    \<and> du_new_pin_block f = wire_field pl (n + 74) 16"
proof -
  obtain r where "parse_du_fields \<lparr> fr_buf = pl, fr_pos = 0 \<rparr> = Ok (f, r)"
    using run_parser_OkE [OF assms(1) [unfolded parse_du_def]] by (rule exE)
  then obtain i j where "parse_legacy_key pl 0 = Ok (du_enc_key_id f, i)" "parse_legacy_key pl i = Ok (du_pvk_id f, j)"
    and f: "f = \<lparr> du_enc_key_id = du_enc_key_id f, du_pvk_id = du_pvk_id f,
        du_cur_pin_block = wire_field pl (i + j + 4) 16, du_pin_block_format = wire_field pl (20 + (i + j)) 2,
        du_account = wire_field pl (22 + (i + j)) 12, du_decim_table = wire_field pl (34 + (i + j)) 16,
        du_pin_val_data = wire_field pl (50 + (i + j)) 12, du_cur_offset = wire_field pl (62 + (i + j)) 12,
        du_new_pin_block = wire_field pl (74 + (i + j)) 16 \<rparr>"
    unfolding parse_du_fields_def by (auto simp: layout_simps)
  then have "change_keys code pl (du_enc_key_id f) (du_pvk_id f) (i + j)" using assms(2) by (auto simp: change_keys_def)
  then show ?thesis by (intro exI [of _ "i + j"] conjI; (subst f, simp add: add.commute)?)
qed

lemma parse_cu_layout:
  assumes "parse_cu pl = Ok f"
  shows "\<exists>n. change_keys (ascii ''CU'') pl (cu_enc_key_id f) (cu_pvk_id f) n
    \<and> cu_cur_pin_block f = wire_field pl (n + 4) 16 \<and> cu_pin_block_format f = wire_field pl (n + 20) 2
    \<and> cu_account f = wire_field pl (n + 22) 12 \<and> parse_i32 (take 1 (drop (n + 34) pl)) = Some (cu_pvki f)
    \<and> cu_cur_pvv f = wire_field pl (n + 35) 4 \<and> cu_new_pin_block f = wire_field pl (n + 39) 16"
proof -
  obtain r where "parse_cu_fields \<lparr> fr_buf = pl, fr_pos = 0 \<rparr> = Ok (f, r)"
    using run_parser_OkE [OF assms(1) [unfolded parse_cu_def]] by (rule exE)
  then obtain i j where "parse_legacy_key pl 0 = Ok (cu_enc_key_id f, i)" "parse_key_32 pl i = Ok (cu_pvk_id f, j)"
    and v: "parse_i32 (take 1 (drop (34 + (i + j)) pl)) = Some (cu_pvki f)"
    and f: "f = \<lparr> cu_enc_key_id = cu_enc_key_id f, cu_pvk_id = cu_pvk_id f,
        cu_cur_pin_block = wire_field pl (i + j + 4) 16, cu_pin_block_format = wire_field pl (20 + (i + j)) 2,
        cu_account = wire_field pl (22 + (i + j)) 12, cu_pvki = cu_pvki f, cu_cur_pvv = wire_field pl (35 + (i + j)) 4,
        cu_new_pin_block = wire_field pl (39 + (i + j)) 16 \<rparr>"
    unfolding parse_cu_fields_def by (auto simp: layout_simps dest!: fr_pvki_Ok)
  then have "change_keys (ascii ''CU'') pl (cu_enc_key_id f) (cu_pvk_id f) (i + j)" by (auto simp: change_keys_def)
  with v show ?thesis by (intro exI [of _ "i + j"] conjI; (simp add: add.commute)?; (subst f, simp add: add.commute)?)
qed

text \<open>
  What a PIN change has done before it asks for a new offset or value: verified, with the service's acceptance
  and as its only request so far, the current PIN block against the current offset or value of the payload.
\<close>

definition current_pin_verified ::
    "app_state \<Rightarrow> bytes \<Rightarrow> bytes \<Rightarrow> (apc_request \<times> apc_result) list \<Rightarrow> apc_request \<Rightarrow> bool" where
  "current_pin_verified st code pl h rq =
     (case rq of
        GeneratePinData k e a pan f \<Rightarrow>
          (\<exists>ed pd n out. change_keys code pl ed pd n
             \<and> resolve_descriptor (st_key_map st) ed = Ok e \<and> resolve_descriptor (st_key_map st) pd = Ok k
             \<and> pan = wire_field pl (n + 22) 12 \<and> map_pin_block_format (wire_field pl (n + 20) 2) = Ok f
             \<and> (if code = ascii ''CU'' then
                  (\<exists>pvki. parse_i32 (take 1 (drop (n + 34) pl)) = Some pvki
                     \<and> h = [(VerifyPinData k e (wire_field pl (n + 4) 16) pan f
                             (VisaPin \<lparr> vv_key_index = pvki, vv_verification_value = wire_field pl (n + 35) 4 \<rparr>) None, ApcOk out)]
                     \<and> a = VisaPinVerificationValue
                             \<lparr> vg_encrypted_pin_block = wire_field pl (n + 39) 16, vg_key_index = pvki \<rparr>)
                else
                  h = [(VerifyPinData k e (wire_field pl (n + 4) 16) pan f
                        (Ibm3624Pin \<lparr> iv_decimalization_table = wire_field pl (n + 34) 16, iv_pad_character = ascii ''F'',
                           iv_validation_data = wire_field pl (n + 50) 12,
                           iv_pin_offset = trim_end_matches 0x46 (wire_field pl (n + 62) 12) \<rparr>) None, ApcOk out)]
                  \<and> a = Ibm3624PinOffset \<lparr> io_encrypted_pin_block = wire_field pl (n + 74) 16,
                           io_decimalization_table = wire_field pl (n + 34) 16, io_pad_character = ascii ''F'',
                           io_validation_data = wire_field pl (n + 50) 12 \<rparr>))
      | _ \<Rightarrow> True)"

lemma current_pin_verified_VerifyPin [simp]: "current_pin_verified st code pl h (VerifyPinData k e pb pan f v d)"
  by (simp add: current_pin_verified_def)

lemma io_hist_pin_answer [hist_intros]:
  "io_hist P (case x of Some (PinOffset y) \<Rightarrow> Done (g1 y) | _ \<Rightarrow> Done r) h"
  "io_hist P (case x of Some (VerificationValue y) \<Rightarrow> Done (g2 y) | _ \<Rightarrow> Done r) h"
  by (auto split: option.split pin_data.split)

lemma du_verifies_first:
  "code \<noteq> ascii ''CU'' \<Longrightarrow> io_hist (current_pin_verified st code pl) (handle_du st pl) []"
  unfolding handle_du_def Let_def
  apply (intro hist_intros; simp?)
  subgoal for f
    using parse_du_layout [of pl f code]
    by (clarsimp simp: current_pin_verified_def) (rule exI [of _ "du_enc_key_id f"], rule exI [of _ "du_pvk_id f"], blast)
  done

lemma cu_verifies_first: "io_hist (current_pin_verified st (ascii ''CU'') pl) (handle_cu st pl) []"
  unfolding handle_cu_def Let_def
  apply (intro hist_intros; simp?)
  subgoal for f
    using parse_cu_layout [of pl f]
    by (clarsimp simp: current_pin_verified_def) (rule exI [of _ "cu_enc_key_id f"], rule exI [of _ "cu_pvk_id f"], blast)
  done

lemma pin_change_hist: "io_hist (current_pin_verified st code pl) (pin_change_handle st code pl) []"
  using du_verifies_first cu_verifies_first by (simp add: pin_change_handle_def)

text \<open>
  C14: the PIN change commands never generate a new offset or verification value unless the service has
  verified the current PIN in the same command. When DU or CU asks for the new value, its one request so far is the
  accepted verification of the payload's current PIN block against its current offset (DU: decimalization table, validation
  data and the offset without its padding) or current PVV and key indicator (CU), for the payload's account and block
  format, under the keys its two key fields resolve to; and the new value is asked for under the same keys, account and
  format, over the payload's new PIN block. The fields are the text at their offsets behind the two key fields.
\<close>

theorem pin_change_verifies_first:
  assumes "trace svc (pin_change_handle st code pl) s = xs @ (GeneratePinData k e a pan f, res) # ys"
  shows "current_pin_verified st code pl xs (GeneratePinData k e a pan f)"
  by (rule io_hist_requests [OF pin_change_hist assms])

lemma demo_du_parse: "parse_du demo_du = Ok demo_du_fields"
proof -
  have "reads parse_du_fields (demo_enc @ demo_pvk @ replicate 4 0x30 @ replicate 16 0x30 @ ascii ''01''
      @ replicate 12 0x31 @ replicate 16 0x32 @ replicate 12 0x33 @ ascii ''1234FFFFFFFF'' @ replicate 16 0x35)
      demo_du_fields"
    unfolding demo_du_fields_def
    by (rule reads_du) (auto simp: legacy_field_def demo_enc_def demo_pvk_def is_ascii_def ascii_def)
  from run_parser_reads [OF this, of "[]"] show ?thesis by (simp add: parse_du_def demo_du_def)
qed

lemma demo_du_trace:
  "\<exists>v a. trace accepting_service (pin_change_handle demo_state (ascii ''DU'') demo_du) () =
     [(VerifyPinData (ascii ''arn:p'') (ascii ''arn:e'') (replicate 16 0x30) (replicate 12 0x31) IsoFormat0 v None,
       ApcOk demo_output)] @
     (GeneratePinData (ascii ''arn:p'') (ascii ''arn:e'') a (replicate 12 0x31) IsoFormat0, ApcOk demo_output) # []"
proof -
  have "ascii ''DU'' \<noteq> ascii ''CU''" by (simp add: ascii_inj)
  moreover have "map_pin_block_format (ascii ''01'') = Ok IsoFormat0" by (simp add: map_pin_block_format_def)
  ultimately show ?thesis
    by (simp add: pin_change_handle_def handle_du_def demo_du_parse demo_du_fields_def demo_resolve
        sdk_build_def accepting_service_def Let_def)
      (simp add: demo_state_def demo_output_def accepting_service_def)
qed

theorem pin_change_verifies_first_witness:
  "\<exists>xs a res. trace accepting_service (pin_change_handle demo_state (ascii ''DU'') demo_du) () =
       xs @ [(GeneratePinData (ascii ''arn:p'') (ascii ''arn:e'') a (replicate 12 0x31) IsoFormat0, res)]
     \<and> current_pin_verified demo_state (ascii ''DU'') demo_du xs
         (GeneratePinData (ascii ''arn:p'') (ascii ''arn:e'') a (replicate 12 0x31) IsoFormat0)"
proof -
  obtain v a where t: "trace accepting_service (pin_change_handle demo_state (ascii ''DU'') demo_du) () =
     [(VerifyPinData (ascii ''arn:p'') (ascii ''arn:e'') (replicate 16 0x30) (replicate 12 0x31) IsoFormat0 v None,
       ApcOk demo_output)] @
     (GeneratePinData (ascii ''arn:p'') (ascii ''arn:e'') a (replicate 12 0x31) IsoFormat0, ApcOk demo_output) # []"
    using demo_du_trace by blast
  from pin_change_verifies_first [OF t] t show ?thesis by blast
qed

text \<open>
  The offset a DU command answers with is the service's offset padded with \<open>F\<close> to twelve
  characters, and when a later DU presents it as the current offset the proxy recovers exactly
  what the service returned.
\<close>

lemma du_offset_round_trip:
  assumes "parse_du pl = Ok f" and "resolve_descriptor (st_key_map st) (du_enc_key_id f) = Ok ea"
    and "resolve_descriptor (st_key_map st) (du_pvk_id f) = Ok pa"
    and "map_pin_block_format (du_pin_block_format f) = Ok fmt" and "\<And>x. build_ok st x"
    and "\<And>t rq. snd (svc t rq) = ApcOk out" and "r_pin_data out = Some (PinOffset off)"
    and "is_ascii off" and "length off \<le> 12" and "off = [] \<or> last off \<noteq> 0x46"
  shows "\<exists>p. snd (run svc (handle_du st pl) s) = Some (success p) \<and> length p = 12
    \<and> trim_end_matches 0x46 p = off"
proof -
  have call: "run svc (Call rq k) t = run svc (k (ApcOk out)) (fst (svc t rq))"
    for rq t and k :: "apc_result \<Rightarrow> handler_result io"
    using assms(6) by (rule run_call_answer)
  have "snd (run svc (handle_du st pl) s) = Some (success (pad_right 0x46 12 off))"
    unfolding handle_du_def Let_def
    by (simp add: assms(1-4,7) sdk_build_def assms(5) call del: run.simps(3))
  moreover have "length (pad_right 0x46 12 off) = 12" "trim_end_matches 0x46 (pad_right 0x46 12 off) = off"
    using assms(8-10) by (simp_all add: pad_right_def char_count_ascii trim_end_matches_append_replicate)
  ultimately show ?thesis by blast
qed

end
