(* ===== verification/Mac_Handlers.thy ===== *)
theory Mac_Handlers
  imports Key_Fields
begin

text \<open>
  The MAC commands: C2/C4 and M6/M8 (\<open>mac.rs\<close>), MY (\<open>mac_translate.rs\<close>), GW
  (\<open>dukpt_mac.rs\<close>), the legacy group MA..MS (\<open>legacy_mac.rs\<close>) and the gated HMAC commands
  (\<open>hmac.rs\<close>). Truncating a MAC string of the service is slicing at a character boundary:
  the sources do it on \<open>&str\<close>, so the model keeps the panic of a cut inside a character.
\<close>

section \<open>C2/C4 and M6/M8\<close>

definition algorithm_from_mode_c2 :: "byte \<Rightarrow> bytes result" where
  "algorithm_from_mode_c2 mode =
     (if mode = 0x30 then Ok (ascii ''ISO9797_ALGORITHM1'')
      else if mode = 0x31 then Ok (ascii ''ISO9797_ALGORITHM3'')
      else if mode = 0x32 \<or> mode = 0x33 then Ok (ascii ''AS2805_4_1'')
      else Err UnsupportedMacMode)"

record mac_fields =
  mf_algorithm :: bytes
  mf_key_id :: key_descriptor
  mf_message_hex :: bytes
  mf_mac_to_verify :: "bytes option"
  mf_mac_size_bytes :: nat

text \<open>The trailing MAC of a verify command.\<close>

definition fr_mac_to_verify :: "bool \<Rightarrow> nat \<Rightarrow> bytes option parser" where
  "fr_mac_to_verify is_verify n =
     (if is_verify then pbind (fr_take_lossy n) (\<lambda>m. preturn (Some m)) else preturn None)"

definition parse_c2_fields :: "bool \<Rightarrow> mac_fields parser" where
  "parse_c2_fields is_verify =
     pbind fr_byte (\<lambda>blk.
     if blk \<noteq> 0x30 then plift (Err UnsupportedMacMode)
     else
     pbind fr_byte (\<lambda>_.
     pbind fr_byte (\<lambda>mode.
     pbind (plift (algorithm_from_mode_c2 mode)) (\<lambda>algo.
     pbind fr_byte (\<lambda>msg_type.
     if msg_type \<noteq> 0x31 then plift (Err MalformedPayload)
     else
     pbind (fr_parse_with parse_legacy_key) (\<lambda>key_id.
     pbind (fr_take_lossy 4) (\<lambda>msg_len_hex.
     pbind (plift (radix_or_malformed 16 (trim msg_len_hex))) (\<lambda>msg_byte_len.
     pbind (fr_take_lossy (msg_byte_len * 2)) (\<lambda>message_hex.
     pbind (fr_mac_to_verify is_verify 8) (\<lambda>mac_to_verify.
     preturn \<lparr> mf_algorithm = algo, mf_key_id = key_id, mf_message_hex = message_hex,
               mf_mac_to_verify = mac_to_verify, mf_mac_size_bytes = 4 \<rparr>))))))))))"

definition parse_c2_payload :: "bytes \<Rightarrow> bool \<Rightarrow> mac_fields result" where
  "parse_c2_payload pl is_verify = run_parser (parse_c2_fields is_verify) pl"

definition algorithm_from_m6_algo_byte :: "byte \<Rightarrow> bytes result" where
  "algorithm_from_m6_algo_byte b =
     (if b = 0x31 then Ok (ascii ''ISO9797_ALGORITHM1'')
      else if b = 0x33 then Ok (ascii ''ISO9797_ALGORITHM3'')
      else if b = 0x36 then Ok (ascii ''CMAC'')
      else Err UnsupportedMacMode)"

definition m6_mac_size :: "byte \<Rightarrow> nat result" where
  "m6_mac_size b =
     (if b = 0x30 then Ok 4 else if b = 0x31 then Ok 8 else Err MalformedPayload)"

text \<open>\<open>String::from_utf8_lossy(r.take_ascii_len_hex(4, 16, ..)?)\<close>\<close>

definition fr_message_hex :: "bytes parser" where
  "fr_message_hex = pbind (fr_take_ascii_len_hex 4 16) (\<lambda>w. preturn (from_utf8_lossy w))"

definition parse_m6_fields :: "bool \<Rightarrow> mac_fields parser" where
  "parse_m6_fields is_verify =
     pbind fr_byte (\<lambda>mode.
     if mode \<noteq> 0x30 then plift (Err UnsupportedMacMode)
     else
     pbind fr_byte (\<lambda>infmt.
     if infmt \<noteq> 0x31 then plift (Err MalformedPayload)
     else
     pbind fr_byte (\<lambda>size_byte.
     pbind (plift (m6_mac_size size_byte)) (\<lambda>mac_size_bytes.
     pbind fr_byte (\<lambda>algo_byte.
     pbind (plift (algorithm_from_m6_algo_byte algo_byte)) (\<lambda>algo.
     pbind fr_byte (\<lambda>_.
     pbind (fr_take 3) (\<lambda>_.
     pbind (fr_parse_with parse_legacy_key) (\<lambda>key_id.
     pbind fr_message_hex (\<lambda>message_hex.
     pbind (fr_mac_to_verify is_verify (mac_size_bytes * 2)) (\<lambda>mac_to_verify.
     preturn \<lparr> mf_algorithm = algo, mf_key_id = key_id, mf_message_hex = message_hex,
               mf_mac_to_verify = mac_to_verify, mf_mac_size_bytes = mac_size_bytes \<rparr>)))))))))))"

definition parse_m6_payload :: "bytes \<Rightarrow> bool \<Rightarrow> mac_fields result" where
  "parse_m6_payload pl is_verify = run_parser (parse_m6_fields is_verify) pl"

definition mac_algorithm_of_name :: "bytes \<Rightarrow> mac_algorithm result" where
  "mac_algorithm_of_name name =
     (if name = ascii ''ISO9797_ALGORITHM1'' then Ok Iso9797Algorithm1
      else if name = ascii ''ISO9797_ALGORITHM3'' then Ok Iso9797Algorithm3
      else if name = ascii ''CMAC'' then Ok Cmac
      else if name = ascii ''AS2805_4_1'' then Ok As280541
      else Err UnsupportedMacMode)"

definition mac_handle :: "app_state \<Rightarrow> bytes \<Rightarrow> bytes \<Rightarrow> handler_result io" where
  "mac_handle st code pl =
     (let is_m_series = (code = ascii ''M6'' \<or> code = ascii ''M8'');
          is_verify = (code = ascii ''C4'' \<or> code = ascii ''M8'') in
      with_res (if is_m_series then parse_m6_payload pl is_verify
                else parse_c2_payload pl is_verify) (\<lambda>fields.
      with_res (resolve_descriptor (st_key_map st) (mf_key_id fields)) (\<lambda>key_arn.
      with_res (mac_algorithm_of_name (mf_algorithm fields)) (\<lambda>algo.
      let mac_attrs = Algorithm algo in
      if is_verify then
        (case mf_mac_to_verify fields of
           None \<Rightarrow> Panicked
         | Some mac_val \<Rightarrow>
             if mf_algorithm fields = ascii ''CMAC'' then
               Call (GenerateMac key_arn (mf_message_hex fields) mac_attrs None)
                 (on_ok (\<lambda>resp.
                    with_res (str_prefix (r_mac resp) (mf_mac_size_bytes fields * 2)) (\<lambda>expected.
                    if eq_ignore_ascii_case mac_val expected then Done (success [])
                    else Done (from_proxy_error VerificationFailed))))
             else
               Call (VerifyMac key_arn (mf_message_hex fields) mac_val mac_attrs)
                 (on_verify (\<lambda>_. Done (success []))))
      else
        Call (GenerateMac key_arn (mf_message_hex fields) mac_attrs None)
          (on_ok (\<lambda>resp.
             let truncated_chars = mf_mac_size_bytes fields * 2 in
             with_res (str_prefix (r_mac resp) (min truncated_chars (length (r_mac resp)))) (\<lambda>out.
             Done (success out))))))))"

section \<open>MY\<close>

record mac_translate_fields =
  mt_in_algo :: bytes
  mt_in_key_id :: key_descriptor
  mt_out_algo :: bytes
  mt_out_mac_size :: nat
  mt_out_key_id :: key_descriptor
  mt_message_hex :: bytes
  mt_inbound_mac :: bytes

definition mac_size_from_byte :: "byte \<Rightarrow> nat result" where
  "mac_size_from_byte b =
     (if b = 0x30 then Ok 4 else if b = 0x31 then Ok 2 else Err MalformedPayload)"

definition algo_from_byte :: "byte \<Rightarrow> bytes result" where
  "algo_from_byte b =
     (if b = 0x31 then Ok (ascii ''ISO9797_ALGORITHM1'')
      else if b = 0x33 then Ok (ascii ''ISO9797_ALGORITHM3'')
      else if b = 0x36 then Ok (ascii ''CMAC'')
      else Err UnsupportedMacMode)"

definition parse_my_fields :: "mac_translate_fields parser" where
  "parse_my_fields =
     pbind fr_byte (\<lambda>mode.
     if mode \<noteq> 0x30 then plift (Err UnsupportedMacMode)
     else
     pbind fr_byte (\<lambda>infmt.
     if infmt \<noteq> 0x31 then plift (Err MalformedPayload)
     else
     pbind fr_byte (\<lambda>in_size_byte.
     pbind (plift (mac_size_from_byte in_size_byte)) (\<lambda>in_mac_size.
     pbind fr_byte (\<lambda>in_algo_byte.
     pbind (plift (algo_from_byte in_algo_byte)) (\<lambda>in_algo.
     pbind fr_byte (\<lambda>_.
     pbind (fr_take 3) (\<lambda>_.
     pbind (fr_parse_with parse_legacy_key) (\<lambda>in_key_id.
     pbind fr_byte (\<lambda>out_size_byte.
     pbind (plift (mac_size_from_byte out_size_byte)) (\<lambda>out_mac_size.
     pbind fr_byte (\<lambda>out_algo_byte.
     pbind (plift (algo_from_byte out_algo_byte)) (\<lambda>out_algo.
     pbind fr_byte (\<lambda>_.
     pbind (fr_take 3) (\<lambda>_.
     pbind (fr_parse_with parse_legacy_key) (\<lambda>out_key_id.
     pbind fr_message_hex (\<lambda>message_hex.
     pbind (fr_take_lossy (in_mac_size * 2)) (\<lambda>inbound_mac.
     preturn \<lparr> mt_in_algo = in_algo, mt_in_key_id = in_key_id, mt_out_algo = out_algo,
               mt_out_mac_size = out_mac_size, mt_out_key_id = out_key_id,
               mt_message_hex = message_hex, mt_inbound_mac = inbound_mac \<rparr>))))))))))))))))))"

definition parse_my :: "bytes \<Rightarrow> mac_translate_fields result" where
  "parse_my pl = run_parser parse_my_fields pl"

definition my_algorithm_of_name :: "bytes \<Rightarrow> mac_algorithm result" where
  "my_algorithm_of_name name =
     (if name = ascii ''ISO9797_ALGORITHM1'' then Ok Iso9797Algorithm1
      else if name = ascii ''ISO9797_ALGORITHM3'' then Ok Iso9797Algorithm3
      else if name = ascii ''CMAC'' then Ok Cmac
      else Err UnsupportedMacMode)"

text \<open>Step 2 of MY, reached only when the inbound MAC verified.\<close>

definition my_generate :: "mac_translate_fields \<Rightarrow> bytes \<Rightarrow> mac_algorithm \<Rightarrow> handler_result io" where
  "my_generate f out_arn out_algo =
     Call (GenerateMac out_arn (mt_message_hex f) (Algorithm out_algo) None)
       (on_ok (\<lambda>resp.
          let truncated_chars = mt_out_mac_size f * 2 in
          with_res (str_prefix (r_mac resp) (min truncated_chars (length (r_mac resp)))) (\<lambda>out.
          Done (success out))))"

definition my_handle :: "app_state \<Rightarrow> bytes \<Rightarrow> bytes \<Rightarrow> handler_result io" where
  "my_handle st code pl =
     with_res (parse_my pl) (\<lambda>fields.
     with_res (resolve_descriptor (st_key_map st) (mt_in_key_id fields)) (\<lambda>in_arn.
     with_res (resolve_descriptor (st_key_map st) (mt_out_key_id fields)) (\<lambda>out_arn.
     with_res (my_algorithm_of_name (mt_in_algo fields)) (\<lambda>in_algo.
     with_res (my_algorithm_of_name (mt_out_algo fields)) (\<lambda>out_algo.
     if length (mt_inbound_mac fields) < 8 then
       Call (GenerateMac in_arn (mt_message_hex fields) (Algorithm in_algo) None)
         (on_ok (\<lambda>resp.
            with_res (str_prefix (r_mac resp)
                (min (length (mt_inbound_mac fields)) (length (r_mac resp)))) (\<lambda>expected.
            if eq_ignore_ascii_case (mt_inbound_mac fields) expected
            then my_generate fields out_arn out_algo
            else Done (from_proxy_error VerificationFailed))))
     else
       Call (VerifyMac in_arn (mt_message_hex fields) (mt_inbound_mac fields) (Algorithm in_algo))
         (on_verify (\<lambda>_. my_generate fields out_arn out_algo)))))))"

section \<open>GW\<close>

record gw_fields =
  gw_is_verify :: bool
  gw_mac_size_bytes :: nat
  gw_algo :: bytes
  gw_bdk_id :: key_descriptor
  gw_ksn :: bytes
  gw_deriv_type :: dukpt_derivation_type
  gw_message_hex :: bytes
  gw_mac_to_verify :: "bytes option"

definition gw_mode :: "byte \<Rightarrow> bool result" where
  "gw_mode b = (if b = 0x30 then Ok False else if b = 0x31 then Ok True else Err MalformedPayload)"

definition gw_mac_size :: "byte \<Rightarrow> nat result" where
  "gw_mac_size b = (if b = 0x30 then Ok 4 else if b = 0x31 then Ok 2 else Err MalformedPayload)"

definition gw_algorithm :: "byte \<Rightarrow> bytes result" where
  "gw_algorithm b =
     (if b = 0x31 then Ok (ascii ''ISO9797_ALG1'')
      else if b = 0x33 then Ok (ascii ''ISO9797_ALG3'')
      else if b = 0x36 then Ok (ascii ''CMAC'')
      else Err UnsupportedMacMode)"

text \<open>The closure that reorders the KSN parser's triple for \<open>parse_with\<close>.\<close>

definition ksn_sub :: "bytes \<Rightarrow> nat \<Rightarrow> ((bytes \<times> dukpt_derivation_type) \<times> nat) result" where
  "ksn_sub b off =
     rmap (\<lambda>(ksn, consumed, dt). ((ksn, dt), consumed)) (parse_ksn_with_descriptor b off)"

definition parse_gw_fields :: "gw_fields parser" where
  "parse_gw_fields =
     pbind fr_byte (\<lambda>mode_byte.
     pbind (plift (gw_mode mode_byte)) (\<lambda>is_verify.
     pbind fr_byte (\<lambda>fmt.
     if fmt \<noteq> 0x31 then plift (Err MalformedPayload)
     else
     pbind fr_byte (\<lambda>size_byte.
     pbind (plift (gw_mac_size size_byte)) (\<lambda>mac_size_bytes.
     pbind fr_byte (\<lambda>algo_byte.
     pbind (plift (gw_algorithm algo_byte)) (\<lambda>algo.
     pbind fr_byte (\<lambda>_.
     pbind (fr_parse_with parse_bdk) (\<lambda>bdk_id.
     pbind (fr_parse_with ksn_sub) (\<lambda>(ksn, deriv_type).
     pbind fr_message_hex (\<lambda>message_hex.
     pbind (fr_mac_to_verify is_verify (mac_size_bytes * 2)) (\<lambda>mac_to_verify.
     preturn \<lparr> gw_is_verify = is_verify, gw_mac_size_bytes = mac_size_bytes, gw_algo = algo,
               gw_bdk_id = bdk_id, gw_ksn = ksn, gw_deriv_type = deriv_type,
               gw_message_hex = message_hex, gw_mac_to_verify = mac_to_verify \<rparr>))))))))))))"

definition parse_gw :: "bytes \<Rightarrow> gw_fields result" where
  "parse_gw pl = run_parser parse_gw_fields pl"

definition gw_attributes :: "bytes \<Rightarrow> mac_algorithm_dukpt \<Rightarrow> mac_attributes result" where
  "gw_attributes algo d =
     (if algo = ascii ''ISO9797_ALG1'' then Ok (DukptIso9797Algorithm1 d)
      else if algo = ascii ''ISO9797_ALG3'' then Ok (DukptIso9797Algorithm3 d)
      else if algo = ascii ''CMAC'' then Ok (DukptCmac d)
      else Err UnsupportedMacMode)"

definition gw_handle :: "app_state \<Rightarrow> bytes \<Rightarrow> bytes \<Rightarrow> handler_result io" where
  "gw_handle st code pl =
     with_res (parse_gw pl) (\<lambda>fields.
     with_res (resolve_descriptor (st_key_map st) (gw_bdk_id fields)) (\<lambda>bdk_arn.
     with_res (sdk_build st SMacDukpt
         \<lparr> md_key_serial_number = gw_ksn fields, md_key_variant = Request,
           md_derivation_type = gw_deriv_type fields \<rparr>) (\<lambda>mac_alg_dukpt.
     with_res (gw_attributes (gw_algo fields) mac_alg_dukpt) (\<lambda>mac_attrs.
     if gw_is_verify fields then
       (case gw_mac_to_verify fields of
          None \<Rightarrow> Panicked
        | Some mac_val \<Rightarrow>
            if length mac_val < 8 then
              Call (GenerateMac bdk_arn (gw_message_hex fields) mac_attrs None)
                (on_ok (\<lambda>resp.
                   with_res (str_prefix (r_mac resp) (min (length mac_val) (length (r_mac resp)))) (\<lambda>expected.
                   if eq_ignore_ascii_case mac_val expected then Done (success [])
                   else Done (from_proxy_error VerificationFailed))))
            else
              Call (VerifyMac bdk_arn (gw_message_hex fields) mac_val mac_attrs)
                (on_verify (\<lambda>_. Done (success []))))
     else
       Call (GenerateMac bdk_arn (gw_message_hex fields) mac_attrs None)
         (on_ok (\<lambda>resp.
            let truncated_chars = gw_mac_size_bytes fields * 2 in
            with_res (str_prefix (r_mac resp) (min truncated_chars (length (r_mac resp)))) (\<lambda>out.
            Done (success out))))))))"

section \<open>HMAC\<close>

definition hmac_handle :: "app_state \<Rightarrow> bytes \<Rightarrow> bytes \<Rightarrow> handler_result io" where
  "hmac_handle st code pl = Done (from_proxy_error Unsupported)"

section \<open>Legacy MACs\<close>

definition data_slice :: "bytes \<Rightarrow> nat \<Rightarrow> bytes result" where
  "data_slice pl start =
     rbind (slice pl start (length pl)) (\<lambda>rest.
     let e = (case position (\<lambda>b. b = 0x7E) rest of None \<Rightarrow> length pl | Some i \<Rightarrow> start + i) in
     slice pl start e)"

definition parse_len_binary :: "bytes \<Rightarrow> nat \<Rightarrow> (bytes \<times> nat) result" where
  "parse_len_binary pl pos =
     (if length pl < pos + 3 then Err MalformedPayload
      else
        rbind (slice pl pos (pos + 3)) (\<lambda>w.
        rbind (utf8_or_malformed w) (\<lambda>len_str.
        rbind (radix_or_malformed 16 len_str) (\<lambda>byte_count.
        let data_start = pos + 3 in
        if length pl < data_start + byte_count then Err MalformedPayload
        else
          rbind (slice pl data_start (data_start + byte_count)) (\<lambda>d.
          Ok (encode_upper d, 3 + byte_count))))))"

text \<open>\<open>mac.as_bytes()[..MAC_HEX_LEN.min(mac.len())]\<close>: a byte slice, not a string slice.\<close>

definition legacy_mac_out :: "apc_output \<Rightarrow> handler_result io" where
  "legacy_mac_out resp =
     with_res (slice (r_mac resp) 0 (min 8 (length (r_mac resp)))) (\<lambda>out. Done (success out))"

definition generate_alg1_mac :: "bytes \<Rightarrow> bytes \<Rightarrow> handler_result io" where
  "generate_alg1_mac key_arn data_hex =
     Call (GenerateMac key_arn data_hex (Algorithm Iso9797Algorithm1) None) (on_ok legacy_mac_out)"

definition generate_alg3_mac :: "bytes \<Rightarrow> bytes \<Rightarrow> handler_result io" where
  "generate_alg3_mac key_arn data_hex =
     Call (GenerateMac key_arn data_hex (Algorithm Iso9797Algorithm3) None) (on_ok legacy_mac_out)"

definition verify_alg1_mac :: "bytes \<Rightarrow> bytes \<Rightarrow> bytes \<Rightarrow> handler_result io" where
  "verify_alg1_mac key_arn data_hex mac_val =
     Call (VerifyMac key_arn data_hex mac_val (Algorithm Iso9797Algorithm1))
       (on_verify (\<lambda>_. Done (success [])))"

definition verify_then_generate_alg1 ::
    "bytes \<Rightarrow> bytes \<Rightarrow> bytes \<Rightarrow> bytes \<Rightarrow> handler_result io" where
  "verify_then_generate_alg1 src_arn dst_arn data_hex mac_val =
     Call (VerifyMac src_arn data_hex mac_val (Algorithm Iso9797Algorithm1))
       (on_verify (\<lambda>_.
          Call (GenerateMac dst_arn data_hex (Algorithm Iso9797Algorithm1) None)
            (on_ok legacy_mac_out)))"

definition handle_ma :: "app_state \<Rightarrow> bytes \<Rightarrow> handler_result io" where
  "handle_ma st pl =
     with_res (parse_legacy_key pl 0) (\<lambda>(key_id, key_len).
     with_res (data_slice pl key_len) (\<lambda>d.
     with_res (resolve_descriptor (st_key_map st) key_id) (\<lambda>key_arn.
     generate_alg1_mac key_arn (encode_upper d))))"

definition handle_mc :: "app_state \<Rightarrow> bytes \<Rightarrow> handler_result io" where
  "handle_mc st pl =
     with_res (parse_legacy_key pl 0) (\<lambda>(key_id, key_len).
     if length pl < key_len + 8 then Done (from_proxy_error MalformedPayload)
     else
     with_res (slice pl key_len (key_len + 8)) (\<lambda>mac_val.
     with_res (data_slice pl (key_len + 8)) (\<lambda>d.
     with_res (resolve_descriptor (st_key_map st) key_id) (\<lambda>key_arn.
     verify_alg1_mac key_arn (encode_upper d) (from_utf8_lossy mac_val)))))"

definition handle_me :: "app_state \<Rightarrow> bytes \<Rightarrow> handler_result io" where
  "handle_me st pl =
     with_res (parse_legacy_key pl 0) (\<lambda>(src_key_id, src_len).
     with_res (parse_legacy_key pl src_len) (\<lambda>(dst_key_id, dst_len).
     let mac_start = src_len + dst_len in
     if length pl < mac_start + 8 then Done (from_proxy_error MalformedPayload)
     else
     with_res (slice pl mac_start (mac_start + 8)) (\<lambda>mac_val.
     with_res (data_slice pl (mac_start + 8)) (\<lambda>d.
     with_res (resolve_descriptor (st_key_map st) src_key_id) (\<lambda>src_arn.
     with_res (resolve_descriptor (st_key_map st) dst_key_id) (\<lambda>dst_arn.
     verify_then_generate_alg1 src_arn dst_arn (encode_upper d) (from_utf8_lossy mac_val)))))))"

definition handle_mk :: "app_state \<Rightarrow> bytes \<Rightarrow> handler_result io" where
  "handle_mk st pl =
     with_res (parse_legacy_key pl 0) (\<lambda>(key_id, key_consumed).
     with_res (parse_len_binary pl key_consumed) (\<lambda>(data_hex, _).
     with_res (resolve_descriptor (st_key_map st) key_id) (\<lambda>key_arn.
     generate_alg1_mac key_arn data_hex)))"

definition handle_mm :: "app_state \<Rightarrow> bytes \<Rightarrow> handler_result io" where
  "handle_mm st pl =
     with_res (parse_legacy_key pl 0) (\<lambda>(key_id, key_consumed).
     if length pl < key_consumed + 8 then Done (from_proxy_error MalformedPayload)
     else
     with_res (slice pl key_consumed (key_consumed + 8)) (\<lambda>mac_val.
     with_res (parse_len_binary pl (key_consumed + 8)) (\<lambda>(data_hex, _).
     with_res (resolve_descriptor (st_key_map st) key_id) (\<lambda>key_arn.
     verify_alg1_mac key_arn data_hex (from_utf8_lossy mac_val)))))"

definition handle_mo :: "app_state \<Rightarrow> bytes \<Rightarrow> handler_result io" where
  "handle_mo st pl =
     with_res (parse_legacy_key pl 0) (\<lambda>(src_key_id, src_consumed).
     with_res (parse_legacy_key pl src_consumed) (\<lambda>(dst_key_id, dst_consumed).
     let mac_start = src_consumed + dst_consumed in
     if length pl < mac_start + 8 then Done (from_proxy_error MalformedPayload)
     else
     with_res (slice pl mac_start (mac_start + 8)) (\<lambda>mac_val.
     with_res (parse_len_binary pl (mac_start + 8)) (\<lambda>(data_hex, _).
     with_res (resolve_descriptor (st_key_map st) src_key_id) (\<lambda>src_arn.
     with_res (resolve_descriptor (st_key_map st) dst_key_id) (\<lambda>dst_arn.
     verify_then_generate_alg1 src_arn dst_arn data_hex (from_utf8_lossy mac_val)))))))"

text \<open>The mode byte of MU, MW, MQ and MS: only \<open>'0'\<close> is served.\<close>

definition require_mode_0 :: "bytes \<Rightarrow> unit result" where
  "require_mode_0 pl =
     (if pl = [] then Err MalformedPayload
      else rbind (index pl 0) (\<lambda>m. if m \<noteq> 0x30 then Err MalformedPayload else Ok ()))"

definition handle_mu :: "app_state \<Rightarrow> bytes \<Rightarrow> handler_result io" where
  "handle_mu st pl =
     with_res (require_mode_0 pl) (\<lambda>_.
     with_res (parse_legacy_key pl 1) (\<lambda>(key_id, key_consumed).
     with_res (parse_len_binary pl (1 + key_consumed)) (\<lambda>(data_hex, _).
     with_res (resolve_descriptor (st_key_map st) key_id) (\<lambda>key_arn.
     generate_alg1_mac key_arn data_hex))))"

definition handle_mw :: "app_state \<Rightarrow> bytes \<Rightarrow> handler_result io" where
  "handle_mw st pl =
     with_res (require_mode_0 pl) (\<lambda>_.
     with_res (parse_legacy_key pl 1) (\<lambda>(key_id, key_consumed).
     let pos = 1 + key_consumed in
     if length pl < pos + 8 then Done (from_proxy_error MalformedPayload)
     else
     with_res (slice pl pos (pos + 8)) (\<lambda>mac_val.
     with_res (parse_len_binary pl (pos + 8)) (\<lambda>(data_hex, _).
     with_res (resolve_descriptor (st_key_map st) key_id) (\<lambda>key_arn.
     verify_alg1_mac key_arn data_hex (from_utf8_lossy mac_val))))))"

definition handle_mq :: "app_state \<Rightarrow> bytes \<Rightarrow> handler_result io" where
  "handle_mq st pl =
     with_res (require_mode_0 pl) (\<lambda>_.
     with_res (parse_legacy_key pl 1) (\<lambda>(key_id, key_consumed).
     with_res (parse_len_binary pl (1 + key_consumed)) (\<lambda>(data_hex, _).
     with_res (resolve_descriptor (st_key_map st) key_id) (\<lambda>key_arn.
     generate_alg1_mac key_arn data_hex))))"

definition handle_ms :: "app_state \<Rightarrow> bytes \<Rightarrow> handler_result io" where
  "handle_ms st pl =
     with_res (require_mode_0 pl) (\<lambda>_.
     with_res (parse_legacy_key pl 1) (\<lambda>(key_id, key_consumed).
     with_res (parse_len_binary pl (1 + key_consumed)) (\<lambda>(data_hex, _).
     with_res (resolve_descriptor (st_key_map st) key_id) (\<lambda>key_arn.
     generate_alg3_mac key_arn data_hex))))"

definition legacy_mac_handle :: "app_state \<Rightarrow> bytes \<Rightarrow> bytes \<Rightarrow> handler_result io" where
  "legacy_mac_handle st code pl =
     (if code = ascii ''MA'' then handle_ma st pl
      else if code = ascii ''MC'' then handle_mc st pl
      else if code = ascii ''ME'' then handle_me st pl
      else if code = ascii ''MK'' then handle_mk st pl
      else if code = ascii ''MM'' then handle_mm st pl
      else if code = ascii ''MO'' then handle_mo st pl
      else if code = ascii ''MU'' then handle_mu st pl
      else if code = ascii ''MW'' then handle_mw st pl
      else if code = ascii ''MQ'' then handle_mq st pl
      else if code = ascii ''MS'' then handle_ms st pl
      else Done (err (ascii ''68'')))"

section \<open>The parsers never panic\<close>

lemma mac_tables_not_Panic [simp]:
  "algorithm_from_mode_c2 b \<noteq> Panic" "algorithm_from_m6_algo_byte b \<noteq> Panic"
  "m6_mac_size b \<noteq> Panic" "mac_algorithm_of_name n \<noteq> Panic" "mac_size_from_byte b \<noteq> Panic"
  "algo_from_byte b \<noteq> Panic" "my_algorithm_of_name n \<noteq> Panic" "gw_mode b \<noteq> Panic"
  "gw_mac_size b \<noteq> Panic" "gw_algorithm b \<noteq> Panic" "gw_attributes n d \<noteq> Panic"
  "require_mode_0 pl \<noteq> Panic"
  by (simp_all add: algorithm_from_mode_c2_def algorithm_from_m6_algo_byte_def m6_mac_size_def
      mac_algorithm_of_name_def mac_size_from_byte_def algo_from_byte_def my_algorithm_of_name_def
      gw_mode_def gw_mac_size_def gw_algorithm_def gw_attributes_def require_mode_0_def
      rbind_Panic_iff)

lemma m6_mac_size_le: "m6_mac_size b = Ok n \<Longrightarrow> n \<le> 8"
  by (auto simp: m6_mac_size_def split: if_splits)

lemma psat_fr_mac_to_verify: "psat (fr_mac_to_verify v n) (\<lambda>m. v \<longrightarrow> m \<noteq> None)"
  unfolding fr_mac_to_verify_def by (intro psat_intros) simp_all

lemma safe_fr_message_hex: "safe fr_message_hex"
  unfolding fr_message_hex_def by (intro psat_intros) simp_all

lemma sub_ok_ksn_sub [psat_intros]: "sub_ok ksn_sub"
  by (auto simp: sub_ok_def ksn_sub_def dest!: parse_ksn_OkD)

declare psat_pbind [OF psat_fr_mac_to_verify, psat_intros]
  psat_pbind [OF safe_fr_message_hex, psat_intros]

lemma psat_parse_c2_fields: "psat (parse_c2_fields v) (\<lambda>f. v \<longrightarrow> mf_mac_to_verify f \<noteq> None)"
  unfolding parse_c2_fields_def by (intro psat_intros) simp_all

lemma psat_parse_m6_fields:
  "psat (parse_m6_fields v) (\<lambda>f. mf_mac_size_bytes f \<le> 8 \<and> (v \<longrightarrow> mf_mac_to_verify f \<noteq> None))"
  unfolding parse_m6_fields_def by (intro psat_intros) (simp_all add: m6_mac_size_le)

lemma safe_parse_my_fields: "safe parse_my_fields"
  unfolding parse_my_fields_def by (intro psat_intros) simp_all

lemma psat_parse_gw_fields:
  "psat parse_gw_fields (\<lambda>f. gw_is_verify f \<longrightarrow> gw_mac_to_verify f \<noteq> None)"
  unfolding parse_gw_fields_def by (intro psat_intros) simp_all

lemma mac_parsers_not_Panic [simp]:
  "parse_c2_payload pl v \<noteq> Panic" "parse_m6_payload pl v \<noteq> Panic" "parse_my pl \<noteq> Panic"
  "parse_gw pl \<noteq> Panic"
  unfolding parse_c2_payload_def parse_m6_payload_def parse_my_def parse_gw_def
  by (rule run_parser_not_Panic psat_parse_c2_fields psat_parse_m6_fields safe_parse_my_fields
      psat_parse_gw_fields)+

lemma parse_c2_payload_Ok: "parse_c2_payload pl v = Ok f \<Longrightarrow> v \<longrightarrow> mf_mac_to_verify f \<noteq> None"
  unfolding parse_c2_payload_def by (rule run_parser_Ok [OF psat_parse_c2_fields])

lemma parse_m6_payload_Ok:
  "parse_m6_payload pl v = Ok f \<Longrightarrow>
     mf_mac_size_bytes f \<le> 8 \<and> (v \<longrightarrow> mf_mac_to_verify f \<noteq> None)"
  unfolding parse_m6_payload_def by (rule run_parser_Ok [OF psat_parse_m6_fields])

lemma parse_gw_Ok: "parse_gw pl = Ok f \<Longrightarrow> gw_is_verify f \<longrightarrow> gw_mac_to_verify f \<noteq> None"
  unfolding parse_gw_def by (rule run_parser_Ok [OF psat_parse_gw_fields])

lemma c2_never_cmac: "parse_c2_payload pl v = Ok f \<Longrightarrow> mf_algorithm f \<noteq> ascii ''CMAC''"
proof -
  have "psat (parse_c2_fields v) (\<lambda>f. mf_algorithm f \<noteq> ascii ''CMAC'')"
    unfolding parse_c2_fields_def
    by (intro psat_intros)
      (simp_all, auto simp: algorithm_from_mode_c2_def ascii_def split: if_splits)
  then show "parse_c2_payload pl v = Ok f \<Longrightarrow> mf_algorithm f \<noteq> ascii ''CMAC''"
    unfolding parse_c2_payload_def by (rule run_parser_Ok)
qed

lemma position_slice_le:
  "start \<le> length pl \<Longrightarrow> position p (drop start pl) = Some i \<Longrightarrow> start + i \<le> length pl"
  by (drule position_Some_less) simp

lemma data_slice_not_Panic: "start \<le> length pl \<Longrightarrow> data_slice pl start \<noteq> Panic"
  by (auto simp: data_slice_def Let_def rbind_Panic_iff slice_def
      dest: position_slice_le split: option.splits if_splits)

lemma parse_len_binary_not_Panic [simp]: "parse_len_binary pl pos \<noteq> Panic"
  by (auto simp: parse_len_binary_def Let_def rbind_Panic_iff split: if_splits)

section \<open>The handlers never panic\<close>

text \<open>
  What the service documents about a MAC: hexadecimal text, and at least eight bytes of it
  for a CMAC.
\<close>

definition documented_answer :: "apc_request \<Rightarrow> apc_result \<Rightarrow> bool" where
  "documented_answer rq res =
     (case res of
        ApcOk out \<Rightarrow>
          is_ascii (r_mac out) \<and>
          (case rq of GenerateMac _ _ (Algorithm Cmac) _ \<Rightarrow> 16 \<le> length (r_mac out) | _ \<Rightarrow> True)
      | _ \<Rightarrow> True)"

lemma documented_answer_ascii: "documented_answer rq (ApcOk out) \<Longrightarrow> is_ascii (r_mac out)"
  by (simp add: documented_answer_def)

lemma documented_answer_cmac:
  "documented_answer (GenerateMac k m (Algorithm Cmac) l) (ApcOk out) \<Longrightarrow> 16 \<le> length (r_mac out)"
  by (simp add: documented_answer_def)

lemma str_prefix_min_ascii:
  "is_ascii s \<Longrightarrow> str_prefix s (min n (length s)) = Ok (take n s)"
  by (simp add: str_prefix_ascii min_def)

lemma mac_algorithm_cmac: "mac_algorithm_of_name (ascii ''CMAC'') = Ok Cmac"
  by (simp add: mac_algorithm_of_name_def ascii_def)

lemma documented_cmac_prefix:
  assumes "documented_answer (GenerateMac k m (Algorithm Cmac) l) (ApcOk out)" and "n \<le> 16"
  shows "str_prefix (r_mac out) n \<noteq> Panic"
  using assms documented_answer_cmac [OF assms(1)] documented_answer_ascii [OF assms(1)]
  by (simp add: str_prefix_ascii)

lemma io_ok_mac_handle [io_intros]:
  "io_ok documented_answer (mac_handle st code pl) well_formed_result"
proof -
  define m v where "m = (code = ascii ''M6'' \<or> code = ascii ''M8'')"
    and "v = (code = ascii ''C4'' \<or> code = ascii ''M8'')"
  have fld: "(v \<longrightarrow> mf_mac_to_verify f \<noteq> None)
      \<and> (mf_algorithm f = ascii ''CMAC'' \<longrightarrow> mf_mac_size_bytes f * 2 \<le> 16)"
    if "(if m then parse_m6_payload pl v else parse_c2_payload pl v) = Ok f" for f
    using that c2_never_cmac [of pl v f]
    by (auto dest: parse_m6_payload_Ok parse_c2_payload_Ok split: if_splits)
  show ?thesis
    unfolding mac_handle_def Let_def m_def [symmetric] v_def [symmetric]
    by (intro io_intros; (split option.split, intro conjI allI impI)?; (intro io_intros)?)
      (auto dest!: fld dest: documented_answer_ascii documented_cmac_prefix
        simp: str_prefix_min_ascii mac_algorithm_cmac)
qed

lemma io_ok_my_handle [io_intros]: "io_ok documented_answer (my_handle st code pl) well_formed_result"
  unfolding my_handle_def my_generate_def Let_def
  by (intro io_intros) (auto dest: documented_answer_ascii simp: str_prefix_min_ascii)

lemma io_ok_gw_handle [io_intros]: "io_ok documented_answer (gw_handle st code pl) well_formed_result"
  unfolding gw_handle_def Let_def
  by (intro io_intros; (split option.split, intro conjI allI impI)?; (intro io_intros)?)
    (auto dest: parse_gw_Ok documented_answer_ascii simp: str_prefix_min_ascii)

lemma io_ok_legacy_mac_handle [io_intros]: "io_ok A (legacy_mac_handle st code pl) well_formed_result"
  unfolding legacy_mac_handle_def handle_ma_def handle_mc_def handle_me_def handle_mk_def
    handle_mm_def handle_mo_def handle_mu_def handle_mw_def handle_mq_def handle_ms_def
    generate_alg1_mac_def generate_alg3_mac_def verify_alg1_mac_def
    verify_then_generate_alg1_def legacy_mac_out_def Let_def
  by (intro io_intros) (auto simp: well_formed_err data_slice_not_Panic dest!: parse_legacy_key_le)

lemma io_ok_hmac_handle [io_intros]: "io_ok A (hmac_handle st code pl) well_formed_result"
  by (simp add: hmac_handle_def)

section \<open>Payloads of the MAC commands\<close>

lemma reads_message_hex:
  assumes "length l = 4" and "is_ascii l" and "from_str_radix 16 l = Some n" and "length m = n * 2" and "is_ascii m"
  shows "reads fr_message_hex (l @ m) m"
  unfolding fr_message_hex_def
  by (rule reads_last [OF reads_ascii_len_hex [OF assms(1) _ assms(3,4)]])
    (use assms in \<open>simp_all add: reads_preturn is_ascii_lossy_id is_ascii_utf8_valid\<close>)

lemmas reads_mac_steps [reads_intros] = reads_pbind [OF reads_message_hex] reads_last [OF reads_message_hex]

section \<open>Properties\<close>

lemma from_proxy_error_not_00 [simp]: "payshield_code e \<noteq> ascii ''00''"
  by (rule payshield_code_not_success)

lemma str_prefix_min_OkD: "str_prefix s (min n (length s)) = Ok t \<Longrightarrow> t = take n s"
  by (auto simp: str_prefix_def min_def split: if_splits)

text \<open>The inbound MAC of a MY command verified: by the service, or, for a short MAC, against a generated one.\<close>

definition inbound_verified ::
    "app_state \<Rightarrow> bytes \<Rightarrow> (apc_request \<times> apc_result) list \<Rightarrow> bool" where
  "inbound_verified st pl h \<longleftrightarrow>
     (\<exists>f arn alg out. parse_my pl = Ok f \<and> resolve_descriptor (st_key_map st) (mt_in_key_id f) = Ok arn
       \<and> my_algorithm_of_name (mt_in_algo f) = Ok alg
       \<and> ((VerifyMac arn (mt_message_hex f) (mt_inbound_mac f) (Algorithm alg), ApcOk out) \<in> set h
          \<or> (length (mt_inbound_mac f) < 8
             \<and> (GenerateMac arn (mt_message_hex f) (Algorithm alg) None, ApcOk out) \<in> set h
             \<and> eq_ignore_ascii_case (mt_inbound_mac f) (take (length (mt_inbound_mac f)) (r_mac out)))))"

lemma my_generate_result:
  assumes "\<And>rq res. inbound_verified st pl (h @ [(rq, res)])"
  shows "io_result (\<lambda>r h. error_code r = ascii ''00'' \<longrightarrow> inbound_verified st pl h) (my_generate f arn alg) h"
  unfolding my_generate_def Let_def using assms by (intro hist_intros) simp_all

lemma my_result:
  "io_result (\<lambda>r h. error_code r = ascii ''00'' \<longrightarrow> inbound_verified st pl h) (my_handle st code pl) []"
  unfolding my_handle_def
  apply (intro hist_intros my_generate_result; (simp add: ascii_inj; fail)?)
  subgoal for f arn out_arn alg out_alg res out x
    unfolding inbound_verified_def
    by (rule exI [of _ f], rule exI [of _ arn], rule exI [of _ alg], rule exI [of _ out])
      (auto dest!: str_prefix_min_OkD)
  subgoal for f arn out_arn alg out_alg res out
    unfolding inbound_verified_def by auto
  done

text \<open>
  C15: a MY command that answers \<open>00\<close> has verified the inbound MAC over the same message: either
  the service verified it, or it was shorter than eight digits and equals, up to letter case, the
  leading digits of a MAC the service generated under the inbound key.
\<close>

theorem mac_translate_verified:
  assumes "snd (run svc (my_handle st code pl) s) = Some r" and "error_code r = ascii ''00''"
  shows "inbound_verified st pl (trace svc (my_handle st code pl) s)"
  using io_result_run [OF my_result assms(1)] assms(2) by simp

lemma reads_my:
  assumes "mac_size_from_byte isb = Ok isz" and "algo_from_byte ia = Ok ialg" and "length ikt = 3"
    and "mac_size_from_byte osb = Ok osz" and "algo_from_byte oa = Ok oalg" and "length okt = 3"
    and "legacy_field ikey" and "is_ascii ikey" and "legacy_field okey" and "is_ascii okey"
    and "length l = 4" and "is_ascii l" and "from_str_radix 16 l = Some n" and "length m = n * 2" and "is_ascii m"
    and "length mac = isz * 2" and "is_ascii mac"
  shows "reads parse_my_fields
      ([0x30] @ [0x31] @ [isb] @ [ia] @ [ipd] @ ikt @ ikey @ [osb] @ [oa] @ [opd] @ okt @ okey @ (l @ m) @ mac)
      \<lparr> mt_in_algo = ialg, mt_in_key_id = label ikey, mt_out_algo = oalg, mt_out_mac_size = osz,
        mt_out_key_id = label okey, mt_message_hex = m, mt_inbound_mac = mac \<rparr>"
  unfolding parse_my_fields_def
  by (intro reads_intros) (use assms in \<open>simp_all add: is_ascii_lossy_id\<close>)

definition demo_my :: bytes where
  "demo_my = [0x30] @ [0x31] @ [0x31] @ [0x31] @ [0x30] @ ascii ''003'' @ demo_enc @ [0x30] @ [0x33] @ [0x30]
     @ ascii ''003'' @ demo_pvk @ (ascii ''0002'' @ ascii ''CAFE'') @ ascii ''0123''"

definition demo_my_fields :: mac_translate_fields where
  "demo_my_fields = \<lparr> mt_in_algo = ascii ''ISO9797_ALGORITHM1'', mt_in_key_id = label demo_enc,
     mt_out_algo = ascii ''ISO9797_ALGORITHM3'', mt_out_mac_size = 4, mt_out_key_id = label demo_pvk,
     mt_message_hex = ascii ''CAFE'', mt_inbound_mac = ascii ''0123'' \<rparr>"

lemma demo_my_parse: "parse_my demo_my = Ok demo_my_fields"
proof -
  have "reads parse_my_fields demo_my demo_my_fields"
    unfolding demo_my_def demo_my_fields_def
    by (rule reads_my [where n = 2 and isz = 2])
      (simp_all add: mac_size_from_byte_def algo_from_byte_def demo_keys,
        simp_all add: ascii_def is_ascii_def from_str_radix_def to_digit_def)
  from run_parser_reads [OF this, of "[]"] show ?thesis by (simp add: parse_my_def)
qed

lemma demo_my_run:
  "snd (run accepting_service (my_handle demo_state (ascii ''MY'') demo_my) ()) = Some (success (ascii ''01234567''))"
proof -
  have algs: "my_algorithm_of_name (ascii ''ISO9797_ALGORITHM1'') = Ok Iso9797Algorithm1"
    "my_algorithm_of_name (ascii ''ISO9797_ALGORITHM3'') = Ok Iso9797Algorithm3"
    by (simp_all add: my_algorithm_of_name_def ascii_inj)
  have "is_ascii (ascii ''0123456789ABCDEF'')" by (simp add: is_ascii_def ascii_def)
  then have mac: "str_prefix (r_mac demo_output) (min n (length (r_mac demo_output))) =
      (Ok (take n (ascii ''0123456789ABCDEF'')) :: bytes result)" for n
    using str_prefix_min_ascii [of "ascii ''0123456789ABCDEF''" n] by (simp add: demo_output_def)
  have "take (Suc (Suc (Suc (Suc 0)))) (ascii ''0123456789ABCDEF'') = ascii ''0123''" "take 8 (ascii ''0123456789ABCDEF'') = ascii ''01234567''"
    by (simp_all add: ascii_def)
  with algs mac [of "Suc (Suc (Suc (Suc 0)))"] mac [of 8] show ?thesis
    by (simp add: my_handle_def demo_my_parse demo_my_fields_def demo_resolve accepting_service_def my_generate_def Let_def)
qed

theorem mac_translate_verified_witness:
  "inbound_verified demo_state demo_my (trace accepting_service (my_handle demo_state (ascii ''MY'') demo_my) ())"
  by (rule mac_translate_verified [OF demo_my_run]) simp

definition mac_verified_before :: "(apc_request \<times> apc_result) list \<Rightarrow> apc_request \<Rightarrow> bool" where
  "mac_verified_before h rq =
     (case rq of
        GenerateMac k d a l \<Rightarrow> \<exists>src m out. (VerifyMac src d m a, ApcOk out) \<in> set h
      | _ \<Rightarrow> True)"

lemma legacy_reissue_hist:
  "io_hist mac_verified_before (handle_me st pl) []" "io_hist mac_verified_before (handle_mo st pl) []"
  unfolding handle_me_def handle_mo_def verify_then_generate_alg1_def legacy_mac_out_def Let_def
  by (intro hist_intros; simp add: mac_verified_before_def; blast?)+

text \<open>
  The legacy verify-and-generate commands ME and MO send no generate request unless the
  service has verified the presented MAC over the same data with the same algorithm.
\<close>

lemma mac_reissue_verifies_first:
  assumes "code = ascii ''ME'' \<or> code = ascii ''MO''"
    and "trace svc (legacy_mac_handle st code pl) s = xs @ (GenerateMac k d a l, res) # ys"
  shows "\<exists>src m out. (VerifyMac src d m a, ApcOk out) \<in> set xs"
proof -
  have "legacy_mac_handle st code pl = handle_me st pl \<or> legacy_mac_handle st code pl = handle_mo st pl"
    using assms(1) by (auto simp: legacy_mac_handle_def ascii_inj)
  with assms(2) legacy_reissue_hist io_hist_requests [of mac_verified_before]
  have "mac_verified_before xs (GenerateMac k d a l)" by metis
  then show ?thesis by (simp add: mac_verified_before_def)
qed

lemma reads_mac_to_verify: "length m = n \<Longrightarrow> is_ascii m \<Longrightarrow> reads (fr_mac_to_verify True n) m (Some m)"
  unfolding fr_mac_to_verify_def
  by (simp, rule reads_last [OF reads_take_lossy]) (simp_all add: reads_preturn is_ascii_lossy_id)

text \<open>
  The comparison of a CMAC verification slices the service's MAC without a length check: a MAC shorter than the
  requested size makes the handler panic instead of answering.
\<close>

lemma cmac_short_answer_panics:
  assumes "parse_m6_payload pl True = Ok f" and "mf_algorithm f = ascii ''CMAC''" and "mf_mac_to_verify f = Some mac"
    and "resolve_descriptor (st_key_map st) (mf_key_id f) = Ok arn"
    and "svc s (GenerateMac arn (mf_message_hex f) (Algorithm Cmac) None) = (s', ApcOk out)"
    and "length (r_mac out) < mf_mac_size_bytes f * 2"
  shows "run svc (mac_handle st (ascii ''M8'') pl) s = (s', None)"
  using assms
  by (simp add: mac_handle_def Let_def ascii_inj mac_algorithm_cmac str_prefix_def is_char_boundary_def)

end
