(* ===== verification/Emv_Handlers.thy ===== *)
theory Emv_Handlers
  imports Key_Fields
begin

text \<open>
  The EMV commands: ARQC verification with optional ARPC (KQ \<open>kq_arqc.rs\<close>, KW
  \<open>kw_arqc.rs\<close>, JS \<open>unionpay_arqc.rs\<close>, K2/KS \<open>cap_arqc.rs\<close>), decryption of card counters
  (K0 \<open>emv_decrypt.rs\<close>) and issuer-script MACs (JU, KU, KY \<open>issuer_script_mac.rs\<close>).
\<close>

section \<open>Shared field shapes\<close>

datatype arqc_mode = VerifyOnly | VerifyArpcMethod1 | VerifyArpcMethod2

text \<open>\<open>decode_bcd_pan_seq(r.take_array::<8>(..)?)\<close>\<close>

definition fr_pan_seq :: "(bytes \<times> bytes) parser" where
  "fr_pan_seq = pbind (fr_take_array 8) (\<lambda>bs. plift (decode_bcd_pan_seq bs))"

text \<open>A two-byte length, that much data, padded and printed for the service.\<close>

definition fr_txn_data :: "bytes parser" where
  "fr_txn_data =
     pbind fr_u16_be (\<lambda>n.
     pbind (fr_take n) (\<lambda>w.
     preturn (encode_upper (emv_pad w))))"

fun fr_arpc_params :: "arqc_mode \<Rightarrow> arpc_params option parser" where
  "fr_arpc_params VerifyArpcMethod1 =
     pbind (fr_take_hex 2) (\<lambda>arc. preturn (Some (Method1 arc)))"
| "fr_arpc_params VerifyArpcMethod2 =
     pbind (fr_take_hex 4) (\<lambda>csu.
     pbind fr_byte (\<lambda>pad_len.
     pbind (fr_take_hex (unat pad_len)) (\<lambda>pad.
     preturn (Some (Method2 csu pad)))))"
| "fr_arpc_params VerifyOnly = preturn None"

text \<open>\<open>fields.arpc_params.as_ref().map(build_arpc_attrs).transpose()\<close>\<close>

fun build_arpc_opt :: "app_state \<Rightarrow> arpc_params option \<Rightarrow> cryptogram_auth_response option result" where
  "build_arpc_opt st None = Ok None"
| "build_arpc_opt st (Some p) = rmap Some (build_arpc_attrs st p)"

section \<open>KQ\<close>

record kq_fields =
  kq_key_id :: key_descriptor
  kq_mode :: arqc_mode
  kq_session :: emv_session
  kq_pan :: bytes
  kq_pan_seq :: bytes
  kq_atc :: bytes
  kq_un :: bytes
  kq_txn_data :: bytes
  kq_arqc :: bytes
  kq_arpc_params :: "arpc_params option"

text \<open>Mode flag of KQ and KW: the skip-verify modes and unknown flags are malformed.\<close>

definition arqc_mode_of :: "byte \<Rightarrow> arqc_mode result" where
  "arqc_mode_of b =
     (if b = 0x30 then Ok VerifyOnly
      else if b = 0x31 then Ok VerifyArpcMethod1
      else if b = 0x32 then Ok VerifyArpcMethod2
      else if b = 0x33 \<or> b = 0x34 then Err MalformedPayload
      else Err MalformedPayload)"

definition kq_session_of :: "byte \<Rightarrow> emv_session result" where
  "kq_session_of b =
     (if b = 0x30 then Ok Visa
      else if b = 0x31 then Ok Mastercard
      else if b = 0x32 then Ok Amex
      else Err MalformedPayload)"

definition parse_kq_fields :: "kq_fields parser" where
  "parse_kq_fields =
     pbind fr_byte (\<lambda>mode_byte.
     pbind (plift (arqc_mode_of mode_byte)) (\<lambda>mode.
     pbind fr_byte (\<lambda>scheme.
     pbind (plift (kq_session_of scheme)) (\<lambda>session.
     pbind (fr_take 3) (\<lambda>_.
     pbind (fr_parse_with parse_legacy_key) (\<lambda>key_id.
     pbind fr_pan_seq (\<lambda>(pan, pan_seq).
     pbind (fr_take_hex 2) (\<lambda>atc.
     pbind (fr_take_hex 4) (\<lambda>un.
     pbind fr_txn_data (\<lambda>txn_data.
     pbind (fr_expect_byte 0x3B) (\<lambda>_.
     pbind (fr_take_hex 8) (\<lambda>arqc.
     pbind (fr_arpc_params mode) (\<lambda>arpc_params.
     preturn \<lparr> kq_key_id = key_id, kq_mode = mode, kq_session = session, kq_pan = pan,
               kq_pan_seq = pan_seq, kq_atc = atc, kq_un = un, kq_txn_data = txn_data,
               kq_arqc = arqc, kq_arpc_params = arpc_params \<rparr>)))))))))))))"

definition parse_kq :: "bytes \<Rightarrow> kq_fields result" where
  "parse_kq pl = run_parser parse_kq_fields pl"

definition handle_kq :: "app_state \<Rightarrow> bytes \<Rightarrow> handler_result io" where
  "handle_kq st pl =
     with_res (parse_kq pl) (\<lambda>fields.
     with_res (resolve_descriptor (st_key_map st) (kq_key_id fields)) (\<lambda>key_arn.
     let deriv_mode = EmvOptionA in
     with_res (build_session_key st (kq_session fields) (kq_pan fields) (kq_pan_seq fields)
         (kq_atc fields) (kq_un fields)) (\<lambda>session_key_attrs.
     with_res (build_arpc_opt st (kq_arpc_params fields)) (\<lambda>auth_response_attrs.
     verify_arqc key_arn (kq_txn_data fields) (kq_arqc fields) deriv_mode session_key_attrs
       auth_response_attrs))))"

definition kq_handle :: "app_state \<Rightarrow> bytes \<Rightarrow> bytes \<Rightarrow> handler_result io" where
  "kq_handle st code pl = handle_kq st pl"

section \<open>KW\<close>

record kw_fields =
  kw_key_id :: key_descriptor
  kw_mode :: arqc_mode
  kw_deriv_mode_a :: bool
  kw_session :: emv_session
  kw_pan :: bytes
  kw_pan_seq :: bytes
  kw_atc :: bytes
  kw_un :: bytes
  kw_txn_data :: bytes
  kw_arqc :: bytes
  kw_arpc_params :: "arpc_params option"

definition kw_session_of :: "byte \<Rightarrow> emv_session result" where
  "kw_session_of b =
     (if b = 0x30 \<or> b = 0x31 then Ok Emv2000
      else if b = 0x32 \<or> b = 0x33 \<or> b = 0x35 then Ok EmvCommon
      else if b = 0x43 then Ok UnionPay
      else if b = 0x34 \<or> b = 0x36 \<or> b = 0x37 \<or> b = 0x38 \<or> b = 0x39 \<or> b = 0x41 \<or> b = 0x42
           then Err Unsupported
      else Err MalformedPayload)"

definition kw_deriv_method :: "byte \<Rightarrow> bool result" where
  "kw_deriv_method b =
     (if b = 0x41 then Ok True else if b = 0x42 then Ok False else Err MalformedPayload)"

definition parse_kw_fields :: "kw_fields parser" where
  "parse_kw_fields =
     pbind fr_byte (\<lambda>mode_byte.
     pbind (plift (arqc_mode_of mode_byte)) (\<lambda>mode.
     pbind fr_byte (\<lambda>scheme.
     pbind (plift (kw_session_of scheme)) (\<lambda>session.
     pbind fr_byte (\<lambda>method_byte.
     pbind (plift (kw_deriv_method method_byte)) (\<lambda>deriv_mode_a.
     pbind (fr_take 3) (\<lambda>_.
     pbind (fr_parse_with parse_legacy_key) (\<lambda>key_id.
     pbind fr_pan_seq (\<lambda>(pan, pan_seq).
     pbind (fr_take_hex 2) (\<lambda>atc.
     pbind (fr_take_hex 4) (\<lambda>un.
     pbind fr_txn_data (\<lambda>txn_data.
     pbind (fr_expect_byte 0x3B) (\<lambda>_.
     pbind (fr_take_hex 8) (\<lambda>arqc.
     pbind (fr_arpc_params mode) (\<lambda>arpc_params.
     preturn \<lparr> kw_key_id = key_id, kw_mode = mode, kw_deriv_mode_a = deriv_mode_a,
               kw_session = session, kw_pan = pan, kw_pan_seq = pan_seq, kw_atc = atc,
               kw_un = un, kw_txn_data = txn_data, kw_arqc = arqc,
               kw_arpc_params = arpc_params \<rparr>)))))))))))))))"

definition parse_kw :: "bytes \<Rightarrow> kw_fields result" where
  "parse_kw pl = run_parser parse_kw_fields pl"

definition handle_kw :: "app_state \<Rightarrow> bytes \<Rightarrow> handler_result io" where
  "handle_kw st pl =
     with_res (parse_kw pl) (\<lambda>fields.
     with_res (resolve_descriptor (st_key_map st) (kw_key_id fields)) (\<lambda>key_arn.
     let deriv_mode = (if kw_deriv_mode_a fields then EmvOptionA else EmvOptionB) in
     with_res (build_session_key st (kw_session fields) (kw_pan fields) (kw_pan_seq fields)
         (kw_atc fields) (kw_un fields)) (\<lambda>session_key_attrs.
     with_res (build_arpc_opt st (kw_arpc_params fields)) (\<lambda>auth_response_attrs.
     verify_arqc key_arn (kw_txn_data fields) (kw_arqc fields) deriv_mode session_key_attrs
       auth_response_attrs))))"

definition kw_handle :: "app_state \<Rightarrow> bytes \<Rightarrow> bytes \<Rightarrow> handler_result io" where
  "kw_handle st code pl = handle_kw st pl"

section \<open>JS\<close>

record js_fields =
  js_key_id :: key_descriptor
  js_pan :: bytes
  js_pan_seq :: bytes
  js_atc :: bytes
  js_txn_data :: bytes
  js_arqc :: bytes
  js_arc :: "bytes option"

text \<open>\<open>True\<close> is \<open>VerifyWithArpc\<close>.\<close>

definition js_mode_of :: "byte \<Rightarrow> bool result" where
  "js_mode_of b =
     (if b = 0x30 then Ok False
      else if b = 0x31 then Ok True
      else if b = 0x32 then Err MalformedPayload
      else Err MalformedPayload)"

definition parse_js_fields :: "js_fields parser" where
  "parse_js_fields =
     pbind fr_byte (\<lambda>mode_byte.
     pbind (plift (js_mode_of mode_byte)) (\<lambda>with_arpc.
     pbind fr_byte (\<lambda>_.
     pbind (fr_parse_with parse_key_32) (\<lambda>key_id.
     pbind fr_pan_seq (\<lambda>(pan, pan_seq).
     pbind (fr_take_hex 2) (\<lambda>atc.
     pbind fr_byte (\<lambda>_.
     pbind (fr_take_ascii_len_field 2 16) (\<lambda>txn.
     pbind (fr_expect_byte 0x3B) (\<lambda>_.
     pbind (fr_take_hex 8) (\<lambda>arqc.
     pbind (if with_arpc then pbind (fr_take_hex 2) (\<lambda>a. preturn (Some a))
            else preturn None) (\<lambda>arc.
     preturn \<lparr> js_key_id = key_id, js_pan = pan, js_pan_seq = pan_seq, js_atc = atc,
               js_txn_data = encode_upper (emv_pad txn), js_arqc = arqc, js_arc = arc \<rparr>)))))))))))"

definition parse_js :: "bytes \<Rightarrow> js_fields result" where
  "parse_js pl = run_parser parse_js_fields pl"

definition handle_js :: "app_state \<Rightarrow> bytes \<Rightarrow> handler_result io" where
  "handle_js st pl =
     with_res (parse_js pl) (\<lambda>fields.
     with_res (resolve_descriptor (st_key_map st) (js_key_id fields)) (\<lambda>key_arn.
     with_res (build_session_key st UnionPay (js_pan fields) (js_pan_seq fields)
         (js_atc fields) []) (\<lambda>session_key_attrs.
     let arpc_params = map_option Method1 (js_arc fields) in
     with_res (build_arpc_opt st arpc_params) (\<lambda>auth_response_attrs.
     verify_arqc key_arn (js_txn_data fields) (js_arqc fields) EmvOptionA session_key_attrs
       auth_response_attrs))))"

definition js_handle :: "app_state \<Rightarrow> bytes \<Rightarrow> bytes \<Rightarrow> handler_result io" where
  "js_handle st code pl = handle_js st pl"

section \<open>K2 and KS\<close>

record cap_fields =
  cap_key_id :: key_descriptor
  cap_pan :: bytes
  cap_pan_seq :: bytes
  cap_atc :: bytes
  cap_unpredictable_number :: "bytes option"
  cap_txn_data :: bytes
  cap_cryptogram :: bytes

definition parse_cap_fields :: "bool \<Rightarrow> cap_fields parser" where
  "parse_cap_fields is_k2 =
     pbind (fr_take 3) (\<lambda>_.
     pbind (fr_parse_with parse_legacy_key) (\<lambda>key_id.
     pbind fr_pan_seq (\<lambda>(pan, pan_seq).
     pbind (fr_take_hex 2) (\<lambda>atc.
     pbind (if is_k2 then pbind (fr_take_hex 4) (\<lambda>u. preturn (Some u)) else preturn None) (\<lambda>un.
     pbind fr_txn_data (\<lambda>txn_data.
     pbind (fr_expect_byte 0x3B) (\<lambda>_.
     pbind (fr_take_hex 8) (\<lambda>cryptogram.
     preturn \<lparr> cap_key_id = key_id, cap_pan = pan, cap_pan_seq = pan_seq, cap_atc = atc,
               cap_unpredictable_number = un, cap_txn_data = txn_data,
               cap_cryptogram = cryptogram \<rparr>))))))))"

definition parse_cap :: "bytes \<Rightarrow> bool \<Rightarrow> cap_fields result" where
  "parse_cap pl is_k2 = run_parser (parse_cap_fields is_k2) pl"

definition handle_cap :: "app_state \<Rightarrow> bytes \<Rightarrow> bool \<Rightarrow> handler_result io" where
  "handle_cap st pl is_k2 =
     with_res (parse_cap pl is_k2) (\<lambda>fields.
     with_res (resolve_descriptor (st_key_map st) (cap_key_id fields)) (\<lambda>key_arn.
     with_res (build_session_key st (if is_k2 then Mastercard else Emv2000) (cap_pan fields)
         (cap_pan_seq fields) (cap_atc fields)
         (case cap_unpredictable_number fields of None \<Rightarrow> [] | Some u \<Rightarrow> u)) (\<lambda>session_key_attrs.
     let deriv_mode = EmvOptionA in
     verify_arqc key_arn (cap_txn_data fields) (cap_cryptogram fields) deriv_mode
       session_key_attrs None)))"

definition cap_handle :: "app_state \<Rightarrow> bytes \<Rightarrow> bytes \<Rightarrow> handler_result io" where
  "cap_handle st code pl =
     (if code = ascii ''KS'' then handle_cap st pl False else handle_cap st pl True)"

section \<open>K0\<close>

record k0_fields =
  k0_key_id :: key_descriptor
  k0_pan :: bytes
  k0_pan_seq :: bytes
  k0_atc :: bytes
  k0_cipher_text :: bytes

definition parse_k0_fields :: "k0_fields parser" where
  "parse_k0_fields =
     pbind (fr_take 3) (\<lambda>_.
     pbind (fr_parse_with parse_legacy_key) (\<lambda>key_id.
     pbind fr_pan_seq (\<lambda>(pan, pan_seq).
     pbind (fr_take_hex 2) (\<lambda>atc.
     pbind fr_u16_be (\<lambda>data_byte_len.
     pbind (fr_take_hex data_byte_len) (\<lambda>cipher_text.
     preturn \<lparr> k0_key_id = key_id, k0_pan = pan, k0_pan_seq = pan_seq, k0_atc = atc,
               k0_cipher_text = cipher_text \<rparr>))))))"

definition parse_k0 :: "bytes \<Rightarrow> k0_fields result" where
  "parse_k0 pl = run_parser parse_k0_fields pl"

definition handle_k0 :: "app_state \<Rightarrow> bytes \<Rightarrow> handler_result io" where
  "handle_k0 st pl =
     with_res (parse_k0 pl) (\<lambda>fields.
     with_res (resolve_descriptor (st_key_map st) (k0_key_id fields)) (\<lambda>key_arn.
     let session_derivation_data = k0_atc fields @ ascii ''000000000000'' in
     with_res (sdk_build st SEmvEncryption
         \<lparr> ee_major_mode = EmvOptionA, ee_primary_account_number = k0_pan fields,
           ee_pan_sequence_number = k0_pan_seq fields,
           ee_session_derivation_data = session_derivation_data, ee_mode = Cbc \<rparr>) (\<lambda>emv_attrs.
     Call (DecryptData key_arn (k0_cipher_text fields) (Emv emv_attrs))
       (on_ok (\<lambda>resp. Done \<lparr> error_code = ascii ''00'', payload = r_plain_text resp \<rparr>)))))"

definition k0_handle :: "app_state \<Rightarrow> bytes \<Rightarrow> bytes \<Rightarrow> handler_result io" where
  "k0_handle st code pl = handle_k0 st pl"

section \<open>Issuer-script MACs\<close>

datatype smi_value = Atc bytes | Ac bytes

record smi_mapping =
  sm_session_mode :: session_key_derivation_mode
  sm_value :: smi_value

record smi_fields =
  smi_key_id :: key_descriptor
  smi_pan :: bytes
  smi_pan_seq :: bytes
  smi_mapping :: smi_mapping
  smi_message :: bytes

definition smi_require_mode_0 :: "byte \<Rightarrow> unit result" where
  "smi_require_mode_0 b =
     (if b = 0x30 then Ok ()
      else if 0x31 \<le> b \<and> b \<le> 0x34 then Err Unsupported
      else Err MalformedPayload)"

definition read_pan_seq :: "bytes \<Rightarrow> nat \<Rightarrow> (bytes \<times> bytes \<times> nat) result" where
  "read_pan_seq pl pos =
     (if length pl < pos + 8 then Err MalformedPayload
      else
        rbind (slice pl pos (pos + 8)) (\<lambda>arr.
        if length arr \<noteq> 8 then Err MalformedPayload
        else
          rbind (decode_bcd_pan_seq arr) (\<lambda>(pan, seq).
          Ok (pan, seq, pos + 8))))"

text \<open>\<open>|b, o| read_pan_seq(b, o).map(|(pan, seq, next)| ((pan, seq), next - o))\<close>\<close>

definition pan_seq_sub :: "bytes \<Rightarrow> nat \<Rightarrow> ((bytes \<times> bytes) \<times> nat) result" where
  "pan_seq_sub b off = rmap (\<lambda>(pan, seq, nxt). ((pan, seq), nxt - off)) (read_pan_seq b off)"

definition message_for_apc :: "bytes \<Rightarrow> bool \<Rightarrow> bytes" where
  "message_for_apc msg already_padded =
     (if already_padded then encode_upper msg else encode_upper (emv_pad msg))"

definition read_len_prefixed_message :: "bytes \<Rightarrow> nat \<Rightarrow> (bytes \<times> nat) result" where
  "read_len_prefixed_message pl pos =
     (if length pl < pos + 4 then Err MalformedPayload
      else
        rbind (slice pl pos (pos + 4)) (\<lambda>w.
        rbind (utf8_or_malformed w) (\<lambda>len_hex.
        rbind (radix_or_malformed 16 len_hex) (\<lambda>msg_len.
        let start = pos + 4 in
        if length pl < start + msg_len then Err MalformedPayload
        else
          rbind (slice pl start (start + msg_len)) (\<lambda>m.
          Ok (m, start + msg_len))))))"

definition read_delimited_message :: "bytes \<Rightarrow> nat \<Rightarrow> (bytes \<times> nat) result" where
  "read_delimited_message pl pos =
     rbind (slice pl pos (length pl)) (\<lambda>rest.
     case position (\<lambda>b. b = 0x3B) rest of
       None \<Rightarrow> Err MalformedPayload
     | Some rel \<Rightarrow> rbind (slice pl pos (pos + rel)) (\<lambda>m. Ok (m, pos + rel)))"

definition len_prefixed_sub :: "bytes \<Rightarrow> nat \<Rightarrow> (bytes \<times> nat) result" where
  "len_prefixed_sub b off = rmap (\<lambda>(m, nxt). (m, nxt - off)) (read_len_prefixed_message b off)"

definition delimited_sub :: "bytes \<Rightarrow> nat \<Rightarrow> (bytes \<times> nat) result" where
  "delimited_sub b off = rmap (\<lambda>(m, nxt). (m, nxt - off)) (read_delimited_message b off)"

definition padding_flag :: "byte \<Rightarrow> bool result" where
  "padding_flag b =
     (if b = 0x30 then Ok False else if b = 0x31 then Ok True else Err MalformedPayload)"

definition parse_ju_fields :: "smi_fields parser" where
  "parse_ju_fields =
     pbind fr_byte (\<lambda>mode.
     pbind (plift (smi_require_mode_0 mode)) (\<lambda>_.
     pbind fr_byte (\<lambda>scheme.
     if scheme \<noteq> 0x31 then plift (Err MalformedPayload)
     else
     pbind (fr_parse_with parse_key_32) (\<lambda>key_id.
     pbind (fr_parse_with pan_seq_sub) (\<lambda>(pan, pan_seq).
     pbind (fr_take_hex 2) (\<lambda>atc.
     pbind fr_byte (\<lambda>flag.
     pbind (plift (padding_flag flag)) (\<lambda>already_padded.
     pbind (fr_parse_with len_prefixed_sub) (\<lambda>message_raw.
     pbind (fr_expect_byte 0x3B) (\<lambda>_.
     preturn \<lparr> smi_key_id = key_id, smi_pan = pan, smi_pan_seq = pan_seq,
               smi_mapping = \<lparr> sm_session_mode = ModeEmv2000, sm_value = Atc atc \<rparr>,
               smi_message = message_for_apc message_raw already_padded \<rparr>))))))))))"

definition parse_ju :: "bytes \<Rightarrow> smi_fields result" where
  "parse_ju pl = run_parser parse_ju_fields pl"

text \<open>The scheme table of KU: session mode, seed, and whether the message has a length.\<close>

definition ku_scheme :: "byte \<Rightarrow> bytes \<Rightarrow> (session_key_derivation_mode \<times> smi_value \<times> bool) result" where
  "ku_scheme scheme skd =
     (if scheme = 0x30 then
        rbind (slice skd 6 8) (\<lambda>w. Ok (ModeVisa, Atc (encode_upper w), False))
      else if scheme = 0x31 then Ok (ModeMastercard, Ac (encode_upper skd), False)
      else if scheme = 0x32 then
        rbind (slice skd 6 8) (\<lambda>w. Ok (ModeAmex, Atc (encode_upper w), False))
      else if scheme = 0x35 then Ok (ModeEmvCommon, Ac (encode_upper skd), True)
      else if scheme = 0x33 \<or> scheme = 0x34 then Err Unsupported
      else Err MalformedPayload)"

definition parse_ku_fields :: "smi_fields parser" where
  "parse_ku_fields =
     pbind fr_byte (\<lambda>mode.
     pbind (plift (smi_require_mode_0 mode)) (\<lambda>_.
     pbind fr_byte (\<lambda>scheme.
     pbind (fr_parse_with parse_key_32) (\<lambda>key_id.
     pbind (fr_parse_with pan_seq_sub) (\<lambda>(pan, pan_seq).
     if scheme = 0x36 then
       pbind (fr_take 2) (\<lambda>atc.
       pbind fr_byte (\<lambda>flag.
       pbind (plift (padding_flag flag)) (\<lambda>already_padded.
       pbind (fr_parse_with len_prefixed_sub) (\<lambda>message_raw.
       pbind (fr_expect_byte 0x3B) (\<lambda>_.
       preturn \<lparr> smi_key_id = key_id, smi_pan = pan, smi_pan_seq = pan_seq,
                 smi_mapping = \<lparr> sm_session_mode = ModeUnionPay, sm_value = Atc (encode_upper atc) \<rparr>,
                 smi_message = message_for_apc message_raw already_padded \<rparr>)))))
     else
       pbind (fr_take 8) (\<lambda>skd.
       pbind (plift (ku_scheme scheme skd)) (\<lambda>(session_mode, val, length_prefixed).
       pbind (fr_parse_with (if length_prefixed then len_prefixed_sub else delimited_sub)) (\<lambda>message_raw.
       pbind (fr_expect_byte 0x3B) (\<lambda>_.
       preturn \<lparr> smi_key_id = key_id, smi_pan = pan, smi_pan_seq = pan_seq,
                 smi_mapping = \<lparr> sm_session_mode = session_mode, sm_value = val \<rparr>,
                 smi_message = message_for_apc message_raw False \<rparr>)))))))))"

definition parse_ku :: "bytes \<Rightarrow> smi_fields result" where
  "parse_ku pl = run_parser parse_ku_fields pl"

fun session_value :: "smi_value \<Rightarrow> session_key_derivation_value" where
  "session_value (Atc atc) = ApplicationTransactionCounter atc"
| "session_value (Ac ac) = ApplicationCryptogram ac"

definition handle_generate :: "app_state \<Rightarrow> smi_fields \<Rightarrow> handler_result io" where
  "handle_generate st f =
     with_res (resolve_descriptor (st_key_map st) (smi_key_id f)) (\<lambda>key_arn.
     with_res (sdk_build st SMacEmv
         \<lparr> me_major_mode = EmvOptionA, me_primary_account_number = smi_pan f,
           me_pan_sequence_number = smi_pan_seq f,
           me_session_mode = sm_session_mode (smi_mapping f),
           me_session_value = session_value (sm_value (smi_mapping f)) \<rparr>) (\<lambda>emv.
     Call (GenerateMac key_arn (smi_message f) (EmvMac emv) (Some 4))
       (on_ok (\<lambda>resp. Done (success (r_mac resp))))))"

definition issuer_script_mac_handle :: "app_state \<Rightarrow> bytes \<Rightarrow> bytes \<Rightarrow> handler_result io" where
  "issuer_script_mac_handle st code pl =
     (let cmd = from_utf8_lossy code;
          parsed =
            (if cmd = ascii ''JU'' then parse_ju pl
             else if cmd = ascii ''KU'' then parse_ku pl
             else if cmd = ascii ''KY'' then Err Unsupported
             else Err Unsupported) in
      with_res parsed (handle_generate st))"

section \<open>The parsers never panic\<close>

lemma emv_tables_not_Panic [simp]:
  "arqc_mode_of b \<noteq> Panic" "kq_session_of b \<noteq> Panic" "kw_session_of b \<noteq> Panic"
  "kw_deriv_method b \<noteq> Panic" "js_mode_of b \<noteq> Panic" "smi_require_mode_0 b \<noteq> Panic"
  "padding_flag b \<noteq> Panic"
  by (simp_all add: arqc_mode_of_def kq_session_of_def kw_session_of_def kw_deriv_method_def
      js_mode_of_def smi_require_mode_0_def padding_flag_def)

lemma build_arpc_opt_not_Panic [simp]: "build_arpc_opt st p \<noteq> Panic"
  by (cases p) simp_all

lemma ku_scheme_not_Panic: "length skd = 8 \<Longrightarrow> ku_scheme b skd \<noteq> Panic"
  by (simp add: ku_scheme_def rbind_Panic_iff)

lemma safe_fr_pan_seq: "safe fr_pan_seq"
  unfolding fr_pan_seq_def by (intro psat_intros) (simp_all add: decode_bcd_pan_seq_Ok)

lemma safe_fr_txn_data: "safe fr_txn_data"
  unfolding fr_txn_data_def by (intro psat_intros) simp_all

lemma safe_fr_arpc_params: "safe (fr_arpc_params m)"
  by (cases m) (auto intro!: psat_intros)

lemma sub_ok_pan_seq_sub [psat_intros]: "sub_ok pan_seq_sub"
  by (auto simp: sub_ok_def pan_seq_sub_def read_pan_seq_def rbind_Panic_iff rbind_Ok_iff
      decode_bcd_pan_seq_Ok slice_def split: if_splits)

lemma sub_ok_len_prefixed_sub [psat_intros]: "sub_ok len_prefixed_sub"
  by (auto simp: sub_ok_def len_prefixed_sub_def read_len_prefixed_message_def Let_def
      rbind_Panic_iff rbind_Ok_iff split: if_splits)

lemma sub_ok_delimited_sub [psat_intros]: "sub_ok delimited_sub"
  by (auto simp: sub_ok_def delimited_sub_def read_delimited_message_def rbind_Panic_iff
      rbind_Ok_iff slice_def split: option.splits if_splits dest!: position_Some_less)

declare psat_pbind [OF safe_fr_pan_seq, psat_intros] psat_pbind [OF safe_fr_txn_data, psat_intros]
  psat_pbind [OF safe_fr_arpc_params, psat_intros]

lemma safe_parse_kq_fields: "safe parse_kq_fields"
  unfolding parse_kq_fields_def by (intro psat_intros) simp_all

lemma safe_parse_kw_fields: "safe parse_kw_fields"
  unfolding parse_kw_fields_def by (intro psat_intros) simp_all

lemma safe_optional: "safe p \<Longrightarrow> safe (if b then pbind p (\<lambda>a. preturn (Some a)) else preturn None)"
  by (auto intro!: psat_pbind [where Q = "\<lambda>_. True"] psat_preturn)

lemma safe_fr_take_hex: "safe (fr_take_hex n)"
  by (rule psat_weaken [OF psat_fr_take_hex]) simp

declare psat_pbind [OF safe_optional [OF safe_fr_take_hex], psat_intros]

lemma safe_parse_js_fields: "safe parse_js_fields"
  unfolding parse_js_fields_def by (intro psat_intros) simp_all

lemma safe_parse_cap_fields: "safe (parse_cap_fields b)"
  unfolding parse_cap_fields_def by (intro psat_intros) simp_all

lemma safe_parse_k0_fields: "safe parse_k0_fields"
  unfolding parse_k0_fields_def by (intro psat_intros) simp_all

lemma safe_parse_ju_fields: "safe parse_ju_fields"
  unfolding parse_ju_fields_def by (intro psat_intros) simp_all

lemma safe_parse_ku_fields: "safe parse_ku_fields"
  unfolding parse_ku_fields_def
  by (intro psat_intros) (simp_all add: ku_scheme_not_Panic sub_ok_len_prefixed_sub sub_ok_delimited_sub)

lemma emv_parsers_not_Panic [simp]:
  "parse_kq pl \<noteq> Panic" "parse_kw pl \<noteq> Panic" "parse_js pl \<noteq> Panic" "parse_cap pl b \<noteq> Panic"
  "parse_k0 pl \<noteq> Panic" "parse_ju pl \<noteq> Panic" "parse_ku pl \<noteq> Panic"
  unfolding parse_kq_def parse_kw_def parse_js_def parse_cap_def parse_k0_def parse_ju_def
    parse_ku_def
  by (rule run_parser_not_Panic safe_parse_kq_fields safe_parse_kw_fields safe_parse_js_fields
      safe_parse_cap_fields safe_parse_k0_fields safe_parse_ju_fields safe_parse_ku_fields)+

section \<open>The handlers never panic\<close>

lemma io_ok_kq_handle [io_intros]: "io_ok A (kq_handle st code pl) well_formed_result"
  unfolding kq_handle_def handle_kq_def Let_def by (intro io_intros) simp_all

lemma io_ok_kw_handle [io_intros]: "io_ok A (kw_handle st code pl) well_formed_result"
  unfolding kw_handle_def handle_kw_def Let_def by (intro io_intros) simp_all

lemma io_ok_js_handle [io_intros]: "io_ok A (js_handle st code pl) well_formed_result"
  unfolding js_handle_def handle_js_def Let_def by (intro io_intros) simp_all

lemma io_ok_cap_handle [io_intros]: "io_ok A (cap_handle st code pl) well_formed_result"
  unfolding cap_handle_def handle_cap_def Let_def by (intro io_intros) simp_all

lemma io_ok_k0_handle [io_intros]: "io_ok A (k0_handle st code pl) well_formed_result"
  unfolding k0_handle_def handle_k0_def Let_def
  by (intro io_intros) (simp_all add: well_formed_result_def)

lemma io_ok_issuer_script_mac_handle [io_intros]:
  "io_ok A (issuer_script_mac_handle st code pl) well_formed_result"
  unfolding issuer_script_mac_handle_def handle_generate_def Let_def
  by (intro io_intros) simp_all

section \<open>Payloads of the ARQC commands\<close>

lemma reads_pan_seq: "length bcd = 8 \<Longrightarrow> decode_bcd_pan_seq bcd = Ok p \<Longrightarrow> reads fr_pan_seq bcd p"
  unfolding fr_pan_seq_def
  by (rule reads_last [OF reads_take_array]) (simp_all add: reads_def plift_def)

lemma reads_txn_data:
  "unat hi * 256 + unat lo = length w \<Longrightarrow> reads fr_txn_data ([hi, lo] @ w) (encode_upper (emv_pad w))"
  unfolding fr_txn_data_def
  by (rule reads_pbind [OF reads_u16_be], rule reads_last [OF reads_take]) (simp_all add: reads_preturn)

lemmas reads_arqc_steps [reads_intros] = reads_pbind [OF reads_txn_data]

lemma reads_pan_step:
  assumes "length bcd = 8" and "decode_bcd_pan_seq bcd = Ok (pan, sq)" and "reads (f pan sq) w y"
  shows "reads (pbind fr_pan_seq (\<lambda>(a, b). f a b)) (bcd @ w) y"
  by (rule reads_pbind [OF reads_pan_seq [OF assms(1,2)]]) (simp add: assms(3))

end
