(* ===== verification/Card_Data_Handlers.thy ===== *)
theory Card_Data_Handlers
  imports Key_Fields
begin

text \<open>
  Card verification values (\<open>cvv.rs\<close>: CW, CY, NY, RY; \<open>dynamic_cvv.rs\<close>: QY, PM) and data
  encryption (\<open>encrypt_decrypt.rs\<close>: HE, HG; \<open>international_encrypt.rs\<close>: M0, M2, M4).
\<close>

section \<open>Card verification values\<close>

record cw_fields =
  cw_cvk :: key_descriptor
  cw_pan :: bytes
  cw_expiry :: bytes
  cw_service_code :: bytes

record cy_fields =
  cy_cvk :: key_descriptor
  cy_cvv :: bytes
  cy_pan :: bytes
  cy_expiry :: bytes
  cy_service_code :: bytes

definition read_pan :: "bytes \<Rightarrow> nat \<Rightarrow> (bytes \<times> nat) result" where
  "read_pan buf pos =
     (let rest = drop pos buf in
      case position (\<lambda>b. b = 0x3B) rest of
        None \<Rightarrow> Err MalformedPayload
      | Some delim \<Rightarrow>
          if delim = 0 \<or> delim > 19 then Err MalformedPayload
          else
            rbind (slice rest 0 delim) (\<lambda>w.
            Ok (from_utf8_lossy w, pos + delim + 1)))"

definition read_expiry_service :: "bytes \<Rightarrow> nat \<Rightarrow> (bytes \<times> bytes) result" where
  "read_expiry_service buf pos =
     (let exp_end = pos + 4;
          svc_end = exp_end + 3 in
      if length buf < svc_end then Err MalformedPayload
      else
        rbind (slice buf pos exp_end) (\<lambda>e.
        rbind (slice buf exp_end svc_end) (\<lambda>s.
        Ok (from_utf8_lossy e, from_utf8_lossy s))))"

definition parse_cw :: "bytes \<Rightarrow> cw_fields result" where
  "parse_cw body =
     rbind (parse_key_32 body 0) (\<lambda>(cvk, n).
     rbind (read_pan body n) (\<lambda>(pan, pos).
     rbind (read_expiry_service body pos) (\<lambda>(expiry, service_code).
     Ok \<lparr> cw_cvk = cvk, cw_pan = pan, cw_expiry = expiry, cw_service_code = service_code \<rparr>)))"

definition parse_cy :: "bytes \<Rightarrow> cy_fields result" where
  "parse_cy body =
     rbind (parse_key_32 body 0) (\<lambda>(cvk, n).
     let cvv_end = n + 3 in
     if length body < cvv_end then Err MalformedPayload
     else
     rbind (slice body n cvv_end) (\<lambda>cvv.
     rbind (read_pan body cvv_end) (\<lambda>(pan, pos).
     rbind (read_expiry_service body pos) (\<lambda>(expiry, service_code).
     Ok \<lparr> cy_cvk = cvk, cy_cvv = from_utf8_lossy cvv, cy_pan = pan, cy_expiry = expiry,
          cy_service_code = service_code \<rparr>))))"

definition handle_cw :: "app_state \<Rightarrow> bytes \<Rightarrow> handler_result io" where
  "handle_cw st body =
     with_res (parse_cw body) (\<lambda>fields.
     with_res (resolve_descriptor (st_key_map st) (cw_cvk fields)) (\<lambda>cvk_arn.
     with_res (sdk_build st SCvv
         \<lparr> cv_card_expiry_date = cw_expiry fields, cv_service_code = cw_service_code fields \<rparr>) (\<lambda>attrs.
     Call (GenerateCardValidationData cvk_arn (cw_pan fields) attrs)
       (on_ok (\<lambda>resp. Done (success (r_validation_data resp)))))))"

definition handle_cy :: "app_state \<Rightarrow> bytes \<Rightarrow> handler_result io" where
  "handle_cy st body =
     with_res (parse_cy body) (\<lambda>fields.
     with_res (resolve_descriptor (st_key_map st) (cy_cvk fields)) (\<lambda>cvk_arn.
     with_res (sdk_build st SCvv
         \<lparr> cv_card_expiry_date = cy_expiry fields, cv_service_code = cy_service_code fields \<rparr>) (\<lambda>attrs.
     Call (VerifyCardValidationData cvk_arn (cy_pan fields) (cy_cvv fields) attrs)
       (on_verify (\<lambda>_. Done (success []))))))"

definition handle_ny :: handler_result where
  "handle_ny = from_proxy_error Unsupported"

definition handle_ry :: handler_result where
  "handle_ry = from_proxy_error Unsupported"

definition cvv_handle :: "app_state \<Rightarrow> bytes \<Rightarrow> bytes \<Rightarrow> handler_result io" where
  "cvv_handle st code pl =
     (if code = ascii ''CY'' then handle_cy st pl
      else if code = ascii ''NY'' then Done handle_ny
      else if code = ascii ''RY'' then Done handle_ry
      else handle_cw st pl)"

definition dynamic_cvv_handle :: "app_state \<Rightarrow> bytes \<Rightarrow> bytes \<Rightarrow> handler_result io" where
  "dynamic_cvv_handle st code pl = Done (from_proxy_error Unsupported)"

section \<open>Single-block encryption\<close>

definition parse_key_and_data :: "bytes \<Rightarrow> (key_descriptor \<times> bytes) result" where
  "parse_key_and_data pl =
     rbind (parse_legacy_key pl 0) (\<lambda>(key_id, key_len).
     let data_start = key_len;
         min_len = data_start + 16 in
     if length pl < min_len then Err MalformedPayload
     else
     rbind (slice pl data_start (data_start + 16)) (\<lambda>w.
     Ok (key_id, from_utf8_lossy w)))"

definition handle_he :: "app_state \<Rightarrow> bytes \<Rightarrow> handler_result io" where
  "handle_he st pl =
     with_res (parse_key_and_data pl) (\<lambda>(key_id, plain_text).
     with_res (resolve_descriptor (st_key_map st) key_id) (\<lambda>key_arn.
     with_res (sdk_build st SSymmetric Ecb) (\<lambda>sym_attrs.
     Call (EncryptData key_arn plain_text (Symmetric sym_attrs))
       (on_ok (\<lambda>resp. Done (success (r_cipher_text resp)))))))"

definition handle_hg :: "app_state \<Rightarrow> bytes \<Rightarrow> handler_result io" where
  "handle_hg st pl =
     with_res (parse_key_and_data pl) (\<lambda>(key_id, cipher_text).
     with_res (resolve_descriptor (st_key_map st) key_id) (\<lambda>key_arn.
     with_res (sdk_build st SSymmetric Ecb) (\<lambda>sym_attrs.
     Call (DecryptData key_arn cipher_text (Symmetric sym_attrs))
       (on_ok (\<lambda>resp. Done \<lparr> error_code = ascii ''00'', payload = r_plain_text resp \<rparr>)))))"

definition encrypt_decrypt_handle :: "app_state \<Rightarrow> bytes \<Rightarrow> bytes \<Rightarrow> handler_result io" where
  "encrypt_decrypt_handle st code pl =
     (if code = ascii ''HE'' then handle_he st pl
      else if code = ascii ''HG'' then handle_hg st pl
      else Done (err (ascii ''68'')))"

section \<open>M0, M2, M4\<close>

definition parse_m0_parser :: "(key_descriptor \<times> bytes) parser" where
  "parse_m0_parser =
     pbind (fr_take 2) (\<lambda>mode.
     if mode \<noteq> ascii ''00'' then plift (Err MalformedPayload)
     else
     pbind fr_byte (\<lambda>in_fmt.
     if in_fmt \<noteq> 0x31 then plift (Err MalformedPayload)
     else
     pbind (fr_take 1) (\<lambda>_.
     pbind (fr_take 3) (\<lambda>_.
     pbind (fr_parse_with parse_legacy_key) (\<lambda>key_id.
     pbind (fr_take_ascii_len_hex 4 16) (\<lambda>w.
     preturn (key_id, from_utf8_lossy w)))))))"

definition parse_m0_fields :: "bytes \<Rightarrow> (key_descriptor \<times> bytes) result" where
  "parse_m0_fields pl = run_parser parse_m0_parser pl"

text \<open>The response text: a four-digit length in bytes, then the hexadecimal data.\<close>

definition length_prefixed :: "bytes \<Rightarrow> bytes" where
  "length_prefixed hex = fmt_04X (length hex div 2) @ hex"

definition handle_m0 :: "app_state \<Rightarrow> bytes \<Rightarrow> handler_result io" where
  "handle_m0 st pl =
     with_res (parse_m0_fields pl) (\<lambda>(key_id, plain_text).
     with_res (resolve_descriptor (st_key_map st) key_id) (\<lambda>key_arn.
     with_res (sdk_build st SSymmetric Ecb) (\<lambda>sym.
     Call (EncryptData key_arn plain_text (Symmetric sym))
       (on_ok (\<lambda>resp. Done (success (length_prefixed (r_cipher_text resp))))))))"

definition handle_m2 :: "app_state \<Rightarrow> bytes \<Rightarrow> handler_result io" where
  "handle_m2 st pl =
     with_res (parse_m0_fields pl) (\<lambda>(key_id, cipher_text).
     with_res (resolve_descriptor (st_key_map st) key_id) (\<lambda>key_arn.
     with_res (sdk_build st SSymmetric Ecb) (\<lambda>sym.
     Call (DecryptData key_arn cipher_text (Symmetric sym))
       (on_ok (\<lambda>resp.
          Done \<lparr> error_code = ascii ''00'', payload = length_prefixed (r_plain_text resp) \<rparr>)))))"

text \<open>The fields of M4, read by hand with a position counter: source key, destination key, text.\<close>

definition parse_m4 :: "bytes \<Rightarrow> (key_descriptor \<times> key_descriptor \<times> bytes) result" where
  "parse_m4 pl =
     (let pos = 0 in
      if length pl < pos + 2 then Err MalformedPayload
      else rbind (slice pl pos (pos + 2)) (\<lambda>src_mode.
      if src_mode \<noteq> ascii ''00'' then Err MalformedPayload
      else
      let pos = pos + 2 in
      if length pl < pos + 2 then Err MalformedPayload
      else rbind (slice pl pos (pos + 2)) (\<lambda>dst_mode.
      if dst_mode \<noteq> ascii ''00'' then Err MalformedPayload
      else
      let pos = pos + 2 in
      if length pl < pos + 1 then Err MalformedPayload
      else rbind (index pl pos) (\<lambda>in_fmt.
      if in_fmt \<noteq> 0x31 then Err MalformedPayload
      else
      let pos = pos + 1 in
      if length pl < pos + 1 then Err MalformedPayload
      else
      let pos = pos + 1 in
      if length pl < pos + 3 then Err MalformedPayload
      else
      let pos = pos + 3 in
      rbind (parse_legacy_key pl pos) (\<lambda>(src_key_id, src_consumed).
      let pos = pos + src_consumed in
      if length pl < pos + 3 then Err MalformedPayload
      else
      let pos = pos + 3 in
      rbind (parse_legacy_key pl pos) (\<lambda>(dst_key_id, dst_consumed).
      let pos = pos + dst_consumed in
      if length pl < pos + 4 then Err MalformedPayload
      else
      rbind (slice pl pos (pos + 4)) (\<lambda>w.
      rbind (utf8_or_malformed w) (\<lambda>len_hex.
      rbind (radix_or_malformed 16 len_hex) (\<lambda>byte_count.
      let pos = pos + 4;
          msg_hex_chars = byte_count * 2 in
      if length pl < pos + msg_hex_chars then Err MalformedPayload
      else
      rbind (slice pl pos (pos + msg_hex_chars)) (\<lambda>cipher_text.
      Ok (src_key_id, dst_key_id, from_utf8_lossy cipher_text)))))))))))"

definition handle_m4 :: "app_state \<Rightarrow> bytes \<Rightarrow> handler_result io" where
  "handle_m4 st pl =
     with_res (parse_m4 pl) (\<lambda>(src_key_id, dst_key_id, cipher_text).
     with_res (resolve_descriptor (st_key_map st) src_key_id) (\<lambda>src_arn.
     with_res (resolve_descriptor (st_key_map st) dst_key_id) (\<lambda>dst_arn.
     with_res (sdk_build st SSymmetric Ecb) (\<lambda>dec_attrs.
     with_res (sdk_build st SSymmetric Ecb) (\<lambda>enc_attrs.
     Call (DecryptData src_arn cipher_text (Symmetric dec_attrs))
       (on_ok (\<lambda>resp.
          let plain = r_plain_text resp in
          Call (EncryptData dst_arn plain (Symmetric enc_attrs))
            (on_ok (\<lambda>resp. Done (success (length_prefixed (r_cipher_text resp))))))))))))"

definition international_encrypt_handle :: "app_state \<Rightarrow> bytes \<Rightarrow> bytes \<Rightarrow> handler_result io" where
  "international_encrypt_handle st code pl =
     (if code = ascii ''M0'' then handle_m0 st pl
      else if code = ascii ''M2'' then handle_m2 st pl
      else if code = ascii ''M4'' then handle_m4 st pl
      else Done (err (ascii ''68'')))"

section \<open>The parsers never panic\<close>

lemma read_pan_not_Panic [simp]: "read_pan buf pos \<noteq> Panic"
  by (auto simp: read_pan_def Let_def rbind_Panic_iff dest!: position_Some_less split: option.splits)

lemma read_expiry_service_not_Panic [simp]: "read_expiry_service buf pos \<noteq> Panic"
  by (auto simp: read_expiry_service_def Let_def rbind_Panic_iff)

lemma parse_cw_not_Panic [simp]: "parse_cw body \<noteq> Panic"
  by (auto simp: parse_cw_def rbind_Panic_iff)

lemma parse_cy_not_Panic [simp]: "parse_cy body \<noteq> Panic"
  by (auto simp: parse_cy_def rbind_Panic_iff Let_def)

lemma parse_key_and_data_not_Panic [simp]: "parse_key_and_data pl \<noteq> Panic"
  by (auto simp: parse_key_and_data_def rbind_Panic_iff Let_def)

lemma safe_parse_m0_parser: "safe parse_m0_parser"
  unfolding parse_m0_parser_def by (intro psat_intros) simp_all

lemma parse_m0_fields_not_Panic [simp]: "parse_m0_fields pl \<noteq> Panic"
  unfolding parse_m0_fields_def by (rule run_parser_not_Panic [OF safe_parse_m0_parser])

lemma parse_m4_not_Panic [simp]: "parse_m4 pl \<noteq> Panic"
  by (auto simp: parse_m4_def Let_def rbind_Panic_iff split: if_splits)

section \<open>The handlers never panic\<close>

lemma io_ok_cvv_handle [io_intros]: "io_ok A (cvv_handle st code pl) well_formed_result"
  unfolding cvv_handle_def handle_cw_def handle_cy_def handle_ny_def handle_ry_def
  by (intro io_intros) simp_all

lemma io_ok_dynamic_cvv_handle [io_intros]: "io_ok A (dynamic_cvv_handle st code pl) well_formed_result"
  by (simp add: dynamic_cvv_handle_def)

lemma io_ok_encrypt_decrypt_handle [io_intros]:
  "io_ok A (encrypt_decrypt_handle st code pl) well_formed_result"
  unfolding encrypt_decrypt_handle_def handle_he_def handle_hg_def
  by (intro io_intros) (simp_all add: well_formed_err, simp_all add: well_formed_result_def)

lemma io_ok_international_encrypt_handle [io_intros]:
  "io_ok A (international_encrypt_handle st code pl) well_formed_result"
  unfolding international_encrypt_handle_def handle_m0_def handle_m2_def handle_m4_def Let_def
  by (intro io_intros) (simp_all add: well_formed_err, simp_all add: well_formed_result_def)

section \<open>Properties\<close>

lemma fmt_04X_ascii: "is_ascii (fmt_04X n)"
proof -
  have "c < 0x80" if c: "c \<in> set (hex_nat n)" for c
  proof -
    from c hex_nat_chars [of n] obtain d where "d < 16" "c = hex_digit d" by auto
    with hex_digit_ascii show ?thesis by simp
  qed
  then have "is_ascii (hex_nat n)" by (simp add: is_ascii_def)
  moreover have "is_ascii (replicate k 0x30)" for k by (simp add: is_ascii_def)
  ultimately show ?thesis by (simp add: fmt_04X_def Let_def)
qed

definition decrypted_before :: "(apc_request \<times> apc_result) list \<Rightarrow> apc_request \<Rightarrow> bool" where
  "decrypted_before h rq =
     (case rq of
        EncryptData k p a \<Rightarrow> \<exists>src c b out. h = [(DecryptData src c b, ApcOk out)] \<and> p = r_plain_text out
      | DecryptData k c a \<Rightarrow> h = []
      | _ \<Rightarrow> False)"

lemma m4_hist: "io_hist decrypted_before (handle_m4 st pl) []"
  unfolding handle_m4_def Let_def by (intro hist_intros; simp add: decrypted_before_def)

text \<open>
  M4 never encrypts anything but the plaintext the service has just decrypted: its first
  request is the decryption, and an encryption follows only a successful one, with that
  plaintext; no other request is made.
\<close>

lemma m4_reencrypts_decrypted:
  assumes "trace svc (handle_m4 st pl) s = xs @ (rq, res) # ys"
  shows "(\<exists>k c a. rq = DecryptData k c a \<and> xs = []) \<or>
    (\<exists>k a src c b out. rq = EncryptData k (r_plain_text out) a \<and> xs = [(DecryptData src c b, ApcOk out)])"
  using io_hist_requests [OF m4_hist assms] by (cases rq) (auto simp: decrypted_before_def)

end
