(* ===== verification/Registry.thy ===== *)
theory Registry
  imports Evidence Wire_Protocol Pin_Handlers Mac_Handlers Emv_Handlers Card_Data_Handlers
    "HOL-Library.AList"
begin

text \<open>
  Command dispatch: the \<open>Handler\<close> trait as a record, the registry of
  \<open>src/src/handlers/mod.rs\<close>, the vendor module seam (\<open>src/src/vendor.rs\<close>), the payShield
  module (\<open>src/src/handlers/thales/mod.rs\<close>) and the stub for commands APC cannot serve
  (\<open>src/src/handlers/noop.rs\<close>). The hash map is an association list without duplicate keys.
\<close>

section \<open>Handlers\<close>

record handler =
  h_command_codes :: "bytes list"
  h_grounding :: "evidence list"
  h_handle :: "app_state \<Rightarrow> bytes \<Rightarrow> bytes \<Rightarrow> handler_result io"

definition mk_handler ::
    "string list \<Rightarrow> evidence list \<Rightarrow> (app_state \<Rightarrow> bytes \<Rightarrow> bytes \<Rightarrow> handler_result io) \<Rightarrow> handler" where
  "mk_handler codes grounding f =
     \<lparr> h_command_codes = map ascii codes, h_grounding = grounding, h_handle = f \<rparr>"

definition heartbeat_handle :: "app_state \<Rightarrow> bytes \<Rightarrow> bytes \<Rightarrow> handler_result io" where
  "heartbeat_handle st code pl = Done (success [])"

definition not_available_handle :: "app_state \<Rightarrow> bytes \<Rightarrow> bytes \<Rightarrow> handler_result io" where
  "not_available_handle st code pl = Done (err (ascii ''68''))"

definition PinHandler :: handler where
  "PinHandler = mk_handler [''CA'', ''CC'', ''BQ'', ''G0''] PinHandler_grounding pin_handle"

definition PinChangeHandler :: handler where
  "PinChangeHandler = mk_handler [''CU'', ''DU''] PinChangeHandler_grounding pin_change_handle"

definition DieboldPinHandler :: handler where
  "DieboldPinHandler = mk_handler [''CE'', ''GA''] DieboldPinHandler_grounding diebold_pin_handle"

definition RandomPinHandler :: handler where
  "RandomPinHandler = mk_handler [''JA''] RandomPinHandler_grounding random_pin_handle"

definition DukptPinVerifyHandler :: handler where
  "DukptPinVerifyHandler = mk_handler [''CK'', ''CM'', ''CO'', ''CQ''] DukptPinVerifyHandler_grounding dukpt_pin_verify_handle"

definition DukptPinVerifyAesHandler :: handler where
  "DukptPinVerifyAesHandler = mk_handler [''GO'', ''GQ'', ''GS'', ''GU''] DukptPinVerifyAesHandler_grounding dukpt_pin_verify_aes_handle"

definition PinVerifyNonDukptHandler :: handler where
  "PinVerifyNonDukptHandler = mk_handler [''DA'', ''DC'', ''EA'', ''EC''] PinVerifyNonDukptHandler_grounding pin_verify_non_dukpt_handle"

definition EncryptDecryptHandler :: handler where
  "EncryptDecryptHandler = mk_handler [''HE'', ''HG''] EncryptDecryptHandler_grounding encrypt_decrypt_handle"

definition InternationalEncryptHandler :: handler where
  "InternationalEncryptHandler = mk_handler [''M0'', ''M2'', ''M4''] InternationalEncryptHandler_grounding international_encrypt_handle"

definition DukptMacHandler :: handler where
  "DukptMacHandler = mk_handler [''GW''] DukptMacHandler_grounding gw_handle"

definition IssuerScriptMacHandler :: handler where
  "IssuerScriptMacHandler = mk_handler [''JU'', ''KU'', ''KY''] IssuerScriptMacHandler_grounding issuer_script_mac_handle"

definition CapArqcHandler :: handler where
  "CapArqcHandler = mk_handler [''K2'', ''KS''] CapArqcHandler_grounding cap_handle"

definition EmvDecryptHandler :: handler where
  "EmvDecryptHandler = mk_handler [''K0''] EmvDecryptHandler_grounding k0_handle"

definition KqArqcHandler :: handler where
  "KqArqcHandler = mk_handler [''KQ''] KqArqcHandler_grounding kq_handle"

definition KwArqcHandler :: handler where
  "KwArqcHandler = mk_handler [''KW''] KwArqcHandler_grounding kw_handle"

definition UnionPayArqcHandler :: handler where
  "UnionPayArqcHandler = mk_handler [''JS''] UnionPayArqcHandler_grounding js_handle"

definition HmacHandler :: handler where
  "HmacHandler = mk_handler [''LQ'', ''LS''] HmacHandler_grounding hmac_handle"

definition MacHandler :: handler where
  "MacHandler = mk_handler [''C2'', ''C4'', ''M6'', ''M8''] MacHandler_grounding mac_handle"

definition MacTranslateHandler :: handler where
  "MacTranslateHandler = mk_handler [''MY''] MacTranslateHandler_grounding my_handle"

definition LegacyMacHandler :: handler where
  "LegacyMacHandler =
     mk_handler [''MA'', ''MC'', ''ME'', ''MK'', ''MM'', ''MO'', ''MU'', ''MW'', ''MQ'', ''MS'']
       LegacyMacHandler_grounding legacy_mac_handle"

definition CvvHandler :: handler where
  "CvvHandler = mk_handler [''CW'', ''CY'', ''NY'', ''RY''] CvvHandler_grounding cvv_handle"

definition DynamicCvvHandler :: handler where
  "DynamicCvvHandler = mk_handler [''QY'', ''PM''] DynamicCvvHandler_grounding dynamic_cvv_handle"

definition HeartbeatHandler :: handler where
  "HeartbeatHandler = mk_handler [''B2''] HeartbeatHandler_grounding heartbeat_handle"

definition not_available_codes :: "string list" where
  "not_available_codes =
     [''AQ'', ''BA'', ''BC'', ''BE'', ''BK'', ''CG'', ''DE'', ''DG'', ''EE'', ''EG'', ''FW'',
      ''JC'', ''JE'', ''JG'', ''LE'', ''LG'', ''LO'', ''NG'',
      ''EM'', ''EU'', ''EW'', ''EY'', ''GM'',
      ''A0'', ''A4'', ''A6'', ''A8'', ''AA'', ''AC'', ''AE'', ''AG'', ''AK'', ''AM'', ''AS'',
      ''AU'', ''AW'', ''BI'', ''B0'', ''B8'', ''BG'', ''BU'', ''BW'', ''BS'', ''BY'', ''CS'',
      ''DW'', ''DY'', ''FA'', ''FC'', ''FE'', ''FG'', ''FK'', ''GC'', ''GE'', ''GG'', ''GK'',
      ''GY'', ''HA'', ''HC'', ''HY'', ''IA'', ''J6'', ''J8'', ''JK'', ''K8'', ''KA'', ''KC'',
      ''KG'', ''KI'', ''L0'', ''LU'', ''LW'', ''MG'', ''MI'',
      ''RI'', ''RK'', ''RM'', ''RO'', ''RQ'', ''RS'', ''RU'', ''RW'', ''HI'', ''HK'', ''HM'',
      ''HO'', ''HQ'', ''HS'', ''HU'', ''HW'',
      ''N0'', ''NC'', ''NI'', ''NO'', ''Q0'', ''Q6'', ''Q8'', ''QH'', ''RA'', ''SE'', ''TG'',
      ''TY'', ''UI'', ''VW'', ''VY'', ''WC'', ''WQ'', ''WW'', ''WY'']"

definition NotAvailableHandler :: handler where
  "NotAvailableHandler = mk_handler not_available_codes NotAvailableHandler_grounding not_available_handle"

section \<open>Vendor modules\<close>

record vendor_module =
  vm_vendor :: bytes
  vm_protocol :: protocol
  vm_handlers :: "handler list"

definition thales_handlers :: "handler list" where
  "thales_handlers =
     [PinHandler, PinChangeHandler, DieboldPinHandler, RandomPinHandler, DukptPinVerifyHandler,
      DukptPinVerifyAesHandler, PinVerifyNonDukptHandler, EncryptDecryptHandler,
      InternationalEncryptHandler, DukptMacHandler, IssuerScriptMacHandler, CapArqcHandler,
      EmvDecryptHandler, KqArqcHandler, KwArqcHandler, UnionPayArqcHandler, HmacHandler,
      MacHandler, MacTranslateHandler, LegacyMacHandler, CvvHandler, DynamicCvvHandler,
      HeartbeatHandler]"

definition ThalesModule :: vendor_module where
  "ThalesModule =
     \<lparr> vm_vendor = ascii ''thales_payshield'', vm_protocol = ThalesPayShield,
       vm_handlers = thales_handlers \<rparr>"

section \<open>The registry\<close>

type_synonym registry = "(bytes \<times> handler) list"

definition registry_empty :: registry where
  "registry_empty = []"

definition register :: "registry \<Rightarrow> handler \<Rightarrow> registry" where
  "register r h = foldl (\<lambda>m code. AList.update code h m) r (h_command_codes h)"

definition registry_for_module :: "vendor_module \<Rightarrow> registry" where
  "registry_for_module m = register (foldl register registry_empty (vm_handlers m)) NotAvailableHandler"

definition registry_build :: registry where
  "registry_build = registry_for_module ThalesModule"

definition registry_get :: "registry \<Rightarrow> bytes \<Rightarrow> handler option" where
  "registry_get r code = map_of r code"

definition registry_command_codes :: "registry \<Rightarrow> bytes list" where
  "registry_command_codes r = sort (map fst r)"

section \<open>Lookup\<close>

text \<open>
  The table interface the registry is built on: a fresh table is empty, and inserting under a
  code changes the answer for that code only.
\<close>

locale command_table =
  fixes tempty :: "'t" and tinsert :: "bytes \<Rightarrow> handler \<Rightarrow> 't \<Rightarrow> 't"
    and tlookup :: "'t \<Rightarrow> bytes \<Rightarrow> handler option"
  assumes lookup_empty: "tlookup tempty c = None"
    and lookup_insert: "tlookup (tinsert c h t) c' = (if c' = c then Some h else tlookup t c')"
begin

lemma lookup_register:
  "tlookup (foldl (\<lambda>m code. tinsert code h m) t cs) c =
     (if c \<in> set cs then Some h else tlookup t c)"
  by (induction cs arbitrary: t) (auto simp: lookup_insert)

lemma lookup_register_all:
  "tlookup (foldl (\<lambda>m h. foldl (\<lambda>m code. tinsert code h m) m (h_command_codes h)) t hs) c =
     (case find (\<lambda>h. c \<in> set (h_command_codes h)) (rev hs) of
        Some h \<Rightarrow> Some h | None \<Rightarrow> tlookup t c)"
  by (induction hs rule: rev_induct) (auto simp: lookup_register)

end

interpretation alist_table: command_table "registry_empty" "AList.update" "registry_get"
  by unfold_locales (auto simp: registry_empty_def registry_get_def update_conv')

lemma register_fold: "register = (\<lambda>m h. foldl (\<lambda>m code. AList.update code h m) m (h_command_codes h))"
  by (simp add: register_def fun_eq_iff)

text \<open>The handler registered last under a code serves it; the stubs are registered last.\<close>

lemma registry_get_for_module:
  "registry_get (registry_for_module m) c =
     find (\<lambda>h. c \<in> set (h_command_codes h)) (rev (vm_handlers m @ [NotAvailableHandler]))"
  using alist_table.lookup_register_all [of registry_empty "vm_handlers m @ [NotAvailableHandler]" c]
  by (simp add: registry_for_module_def register_fold alist_table.lookup_empty split: option.splits)

definition registered_handlers :: "handler list" where
  "registered_handlers = thales_handlers @ [NotAvailableHandler]"

lemma registry_build_get:
  "registry_get registry_build c =
     find (\<lambda>h. c \<in> set (h_command_codes h)) (rev registered_handlers)"
  by (simp only: registry_build_def registry_get_for_module registered_handlers_def)
    (simp add: ThalesModule_def)

definition registered_codes :: "string list" where
  "registered_codes =
     [''CA'', ''CC'', ''BQ'', ''G0'', ''CU'', ''DU'', ''CE'', ''GA'', ''JA'',
      ''CK'', ''CM'', ''CO'', ''CQ'', ''GO'', ''GQ'', ''GS'', ''GU'', ''DA'', ''DC'', ''EA'', ''EC'',
      ''HE'', ''HG'', ''M0'', ''M2'', ''M4'', ''GW'', ''JU'', ''KU'', ''KY'', ''K2'', ''KS'',
      ''K0'', ''KQ'', ''KW'', ''JS'', ''LQ'', ''LS'', ''C2'', ''C4'', ''M6'', ''M8'', ''MY'',
      ''MA'', ''MC'', ''ME'', ''MK'', ''MM'', ''MO'', ''MU'', ''MW'', ''MQ'', ''MS'',
      ''CW'', ''CY'', ''NY'', ''RY'', ''QY'', ''PM'', ''B2''] @ not_available_codes"

lemmas handler_defs = PinHandler_def PinChangeHandler_def DieboldPinHandler_def RandomPinHandler_def
  DukptPinVerifyHandler_def DukptPinVerifyAesHandler_def PinVerifyNonDukptHandler_def
  EncryptDecryptHandler_def InternationalEncryptHandler_def DukptMacHandler_def
  IssuerScriptMacHandler_def CapArqcHandler_def EmvDecryptHandler_def KqArqcHandler_def
  KwArqcHandler_def UnionPayArqcHandler_def HmacHandler_def MacHandler_def MacTranslateHandler_def
  LegacyMacHandler_def CvvHandler_def DynamicCvvHandler_def HeartbeatHandler_def
  NotAvailableHandler_def

lemma registered_handlers_codes:
  "concat (map h_command_codes registered_handlers) = map ascii registered_codes"
  by (simp add: registered_handlers_def thales_handlers_def handler_defs mk_handler_def
      registered_codes_def)

lemma distinct_registered_codes: "distinct registered_codes"
  by code_simp

lemma distinct_codes: "distinct (concat (map h_command_codes registered_handlers))"
  by (simp add: registered_handlers_codes distinct_map_ascii distinct_registered_codes)

text \<open>Every declared code reaches the handler that declares it.\<close>

lemma registry_get_declared:
  "h \<in> set registered_handlers \<Longrightarrow> c \<in> set (h_command_codes h) \<Longrightarrow>
     registry_get registry_build c = Some h"
  by (simp add: registry_build_get find_rev_unique [OF distinct_codes])

lemma registry_get_SomeD:
  "registry_get registry_build c = Some h \<Longrightarrow>
     h \<in> set registered_handlers \<and> c \<in> set (h_command_codes h)"
  unfolding registry_build_get by (drule find_SomeD) simp

lemma registry_get_None_iff:
  "registry_get registry_build c = None \<longleftrightarrow> c \<notin> set (map ascii registered_codes)"
  by (simp only: registry_build_get find_None_iff registered_handlers_codes [symmetric]) auto

section \<open>Every registered handler answers\<close>

lemma io_ok_heartbeat_handle [io_intros]: "io_ok A (heartbeat_handle st code pl) well_formed_result"
  by (simp add: heartbeat_handle_def)

lemma io_ok_not_available_handle [io_intros]:
  "io_ok A (not_available_handle st code pl) well_formed_result"
  by (simp add: not_available_handle_def well_formed_err)

lemma registered_handlers_ok:
  "\<forall>h \<in> set registered_handlers. io_ok documented_answer (h_handle h st code pl) well_formed_result"
  by (simp add: registered_handlers_def thales_handlers_def handler_defs mk_handler_def)
    (intro conjI io_intros)

section \<open>Properties\<close>

text \<open>
  C20: dispatch is exact: a code reaches a handler if and only if that handler is one of the
  registered ones and declares the code, so no handler shadows another, and the codes outside
  the declared list reach none.
\<close>

theorem dispatch_exact:
  "(registry_get registry_build c = Some h) = (h \<in> set registered_handlers \<and> c \<in> set (h_command_codes h))
   \<and> (registry_get registry_build c = None) = (c \<notin> set (map ascii registered_codes))"
proof
  show "(registry_get registry_build c = Some h) = (h \<in> set registered_handlers \<and> c \<in> set (h_command_codes h))"
    using registry_get_SomeD [of c h] registry_get_declared [of h c] by blast
qed (rule registry_get_None_iff)

text \<open>
  Every registered handler answers every payload: whatever bytes the client sends and whatever
  the key map holds, if the service answers MAC requests as documented the handler returns a
  result with a two-character error code and does not panic.
\<close>

lemma handlers_always_answer:
  assumes "registry_get registry_build code = Some h"
    and "\<And>t rq. documented_answer rq (snd (svc t rq))"
  shows "\<exists>r. snd (run svc (h_handle h st code pl) s) = Some r \<and> length (error_code r) = 2"
proof -
  have "io_ok documented_answer (h_handle h st code pl) well_formed_result"
    using registry_get_SomeD [OF assms(1)] registered_handlers_ok by blast
  from io_ok_run [OF this, of svc s] assms(2) show ?thesis by (simp add: well_formed_result_def)
qed

text \<open>The commands the proxy registers but does not translate.\<close>

definition gated_codes :: "string list" where
  "gated_codes = [''BQ'', ''G0'', ''CE'', ''GA'', ''JA'', ''CM'', ''CO'', ''CQ'', ''GQ'', ''GS'', ''GU'', ''KY'',
     ''LQ'', ''LS'', ''NY'', ''RY'', ''QY'', ''PM''] @ not_available_codes"

definition refuses :: "handler \<Rightarrow> string \<Rightarrow> bool" where
  "refuses h c \<longleftrightarrow> registry_get registry_build (ascii c) = Some h
     \<and> (\<forall>st pl. h_handle h st (ascii c) pl = Done (err (ascii ''68'')))"

lemma unsupported_68: "from_proxy_error Unsupported = err (ascii ''68'')"
  by (simp add: from_proxy_error_def)

lemma refuses_intro:
  assumes "h \<in> set registered_handlers" and "h = mk_handler cs g f" and "c \<in> set cs"
    and "\<And>st pl. f st (ascii c) pl = Done (err (ascii ''68''))"
  shows "refuses h c"
  using assms by (auto simp: refuses_def mk_handler_def intro!: registry_get_declared)

lemma in_registered: "h \<in> set thales_handlers \<Longrightarrow> h \<in> set registered_handlers"
  by (simp add: registered_handlers_def)

lemma refused_pin:
  "refuses PinHandler ''BQ''" "refuses PinHandler ''G0''" "refuses DieboldPinHandler ''CE''"
  "refuses DieboldPinHandler ''GA''" "refuses RandomPinHandler ''JA''"
  by (rule refuses_intro [OF in_registered handler_defs(1)] refuses_intro [OF in_registered handler_defs(3)]
      refuses_intro [OF in_registered handler_defs(4)];
      simp add: thales_handlers_def pin_handle_def diebold_pin_handle_def random_pin_handle_def ascii_inj unsupported_68)+

lemma refused_dukpt:
  "refuses DukptPinVerifyHandler ''CM''" "refuses DukptPinVerifyHandler ''CO''" "refuses DukptPinVerifyHandler ''CQ''"
  "refuses DukptPinVerifyAesHandler ''GQ''" "refuses DukptPinVerifyAesHandler ''GS''" "refuses DukptPinVerifyAesHandler ''GU''"
  by (rule refuses_intro [OF in_registered DukptPinVerifyHandler_def] refuses_intro [OF in_registered DukptPinVerifyAesHandler_def];
      simp add: thales_handlers_def dukpt_pin_verify_handle_def dukpt_pin_verify_aes_handle_def ascii_inj unsupported_68)+

lemma refused_script_mac: "refuses IssuerScriptMacHandler ''KY''"
proof (rule refuses_intro [OF in_registered IssuerScriptMacHandler_def])
  have "from_utf8_lossy (ascii ''KY'') = ascii ''KY''" by (rule is_ascii_lossy_id) (simp add: is_ascii_def ascii_def)
  then show "issuer_script_mac_handle st (ascii ''KY'') pl = Done (err (ascii ''68''))" for st pl
    by (simp add: issuer_script_mac_handle_def ascii_inj Let_def unsupported_68)
qed (simp_all add: thales_handlers_def)

lemma refused_others:
  "refuses HmacHandler ''LQ''" "refuses HmacHandler ''LS''" "refuses CvvHandler ''NY''" "refuses CvvHandler ''RY''"
  "refuses DynamicCvvHandler ''QY''" "refuses DynamicCvvHandler ''PM''"
  by (rule refuses_intro [OF in_registered HmacHandler_def] refuses_intro [OF in_registered CvvHandler_def]
      refuses_intro [OF in_registered DynamicCvvHandler_def];
      simp add: thales_handlers_def hmac_handle_def cvv_handle_def dynamic_cvv_handle_def handle_ny_def handle_ry_def
        ascii_inj unsupported_68)+

lemma refused_not_available: "c \<in> set not_available_codes \<Longrightarrow> refuses NotAvailableHandler c"
  by (rule refuses_intro [OF _ NotAvailableHandler_def])
    (simp_all add: registered_handlers_def not_available_handle_def)

text \<open>
  C21: a registered command without an APC equivalent is refused with code 68 and an empty
  payload, for every payload and key map, without a single request to the service.
\<close>

theorem gated_commands_refused:
  assumes "c \<in> set gated_codes"
  shows "\<exists>h. registry_get registry_build (ascii c) = Some h
    \<and> (\<forall>st pl. h_handle h st (ascii c) pl = Done (err (ascii ''68'')))"
proof -
  have "list_all (\<lambda>c. \<exists>h. refuses h c) [''BQ'', ''G0'', ''CE'', ''GA'', ''JA'', ''CM'', ''CO'', ''CQ'', ''GQ'',
      ''GS'', ''GU'', ''KY'', ''LQ'', ''LS'', ''NY'', ''RY'', ''QY'', ''PM'']"
    unfolding list.pred_inject
    by (intro conjI list.pred_inject(1);
        rule exI, fact refused_pin refused_dukpt refused_script_mac refused_others)
  then have "\<exists>h. refuses h c"
    using assms refused_not_available [of c] unfolding gated_codes_def list_all_iff set_append by blast
  then show ?thesis by (auto simp: refuses_def)
qed

theorem gated_commands_refused_witness:
  "\<exists>h. registry_get registry_build (ascii ''BQ'') = Some h
    \<and> (\<forall>st pl. h_handle h st (ascii ''BQ'') pl = Done (err (ascii ''68'')))"
  by (rule gated_commands_refused) (simp add: gated_codes_def)

end
