(* ===== verification/Forward.thy ===== *)
theory Forward
  imports Wire_Protocol
begin

text \<open>
  The outbound leg to a real HSM: the configuration records (\<open>src/src/config.rs\<close>), the
  client that sends one frame and reads one response (\<open>src/src/hsm_client.rs\<close>) and the
  forward-leg seam (\<open>src/src/forward.rs\<close>). The network and the TLS library are not part of
  the sources: one exchange is a script of outcomes (connect, handshake, write, the reads in
  order), and the PEM and rustls checks are predicates of an environment record. A read
  that yields no event is a read still pending.
\<close>

section \<open>Configuration\<close>

record forward_tls_config =
  ft_ca_file :: bytes
  ft_client_cert_file :: "bytes option"
  ft_client_key_file :: "bytes option"
  ft_server_name :: "bytes option"

record discover_config =
  dc_enabled :: bool
  dc_hsm_host :: bytes
  dc_hsm_port :: "16 word"
  dc_log_file :: "bytes option"
  dc_hsm_read_timeout_secs :: "nat option"
  dc_tls :: "forward_tls_config option"

record tls_config =
  tc_cert_file :: bytes
  tc_key_file :: bytes
  tc_ca_file :: "bytes option"

record listen_config =
  lc_host :: bytes
  lc_port :: "16 word"
  lc_tls :: "tls_config option"
  lc_read_timeout_secs :: "nat option"

record aws_config =
  aw_region :: bytes
  aw_profile :: "bytes option"

record proxy_config =
  pc_listen :: listen_config
  pc_vendor :: bytes
  pc_aws :: aws_config
  pc_key_mappings :: "(bytes \<times> bytes) list"
  pc_discover :: "discover_config option"

definition default_host :: bytes where
  "default_host = ascii ''0.0.0.0''"

definition default_port :: "16 word" where
  "default_port = 1500"

definition default_listen_config :: listen_config where
  "default_listen_config =
     \<lparr> lc_host = default_host, lc_port = default_port, lc_tls = None, lc_read_timeout_secs = None \<rparr>"

section \<open>TLS material\<close>

datatype net_error =
    CaFileError | TlsVersionsError | ClientCertError | ClientKeyError | ClientConfigError
  | ClientPairIncomplete | InvalidServerName
  | ConnectTimeout | ConnectFailed | HandshakeTimeout | HandshakeFailed
  | SendTimeout | SendFailed | ReadTimedOut | ReadFailed | ResponseTooLarge
  | NoForwardLegError

text \<open>What opening, parsing and validating the files and names yields.\<close>

record tls_env =
  te_ca_ok :: "bytes \<Rightarrow> bool"
  te_versions_ok :: bool
  te_cert_ok :: "bytes \<Rightarrow> bool"
  te_key_ok :: "bytes \<Rightarrow> bool"
  te_client_auth_ok :: "bytes \<Rightarrow> bytes \<Rightarrow> bool"
  te_server_name_ok :: "bytes \<Rightarrow> bool"

text \<open>A connector: the trusted CA file and the client identity, if any.\<close>

record tls_connector =
  co_ca_file :: bytes
  co_client_auth :: "(bytes \<times> bytes) option"

definition build_forward_tls_connector ::
    "tls_env \<Rightarrow> forward_tls_config \<Rightarrow> (tls_connector, net_error) res" where
  "build_forward_tls_connector env cfg =
     (if \<not> te_ca_ok env (ft_ca_file cfg) then Err CaFileError
      else if \<not> te_versions_ok env then Err TlsVersionsError
      else
        case (ft_client_cert_file cfg, ft_client_key_file cfg) of
          (Some cert, Some key) \<Rightarrow>
            if \<not> te_cert_ok env cert then Err ClientCertError
            else if \<not> te_key_ok env key then Err ClientKeyError
            else if \<not> te_client_auth_ok env cert key then Err ClientConfigError
            else Ok \<lparr> co_ca_file = ft_ca_file cfg, co_client_auth = Some (cert, key) \<rparr>
        | (None, None) \<Rightarrow> Ok \<lparr> co_ca_file = ft_ca_file cfg, co_client_auth = None \<rparr>
        | _ \<Rightarrow> Err ClientPairIncomplete)"

section \<open>The HSM client\<close>

record hsm_client =
  hc_host :: bytes
  hc_port :: "16 word"
  hc_read_timeout :: nat
  hc_tls :: "(tls_connector \<times> bytes) option"

definition from_discover :: "tls_env \<Rightarrow> discover_config \<Rightarrow> (hsm_client, net_error) res" where
  "from_discover env cfg =
     rbind
       (case dc_tls cfg of
          None \<Rightarrow> Ok None
        | Some tls_cfg \<Rightarrow>
            rbind (build_forward_tls_connector env tls_cfg) (\<lambda>connector.
            let server_name = (case ft_server_name tls_cfg of Some n \<Rightarrow> n | None \<Rightarrow> dc_hsm_host cfg) in
            if te_server_name_ok env server_name then Ok (Some (connector, server_name))
            else Err InvalidServerName))
       (\<lambda>tls.
        Ok \<lparr> hc_host = dc_hsm_host cfg, hc_port = dc_hsm_port cfg,
             hc_read_timeout = (case dc_hsm_read_timeout_secs cfg of Some t \<Rightarrow> t | None \<Rightarrow> 30),
             hc_tls = tls \<rparr>)"

datatype io_outcome = IoOk | IoErr | IoTimeout

datatype read_event = ReadBytes bytes | ReadErr | ReadTimeout

record net_script =
  ns_connect :: io_outcome
  ns_handshake :: io_outcome
  ns_write :: io_outcome
  ns_reads :: "read_event list"

definition MAX_HSM_RESPONSE :: nat where
  "MAX_HSM_RESPONSE = 256 * 1024"

text \<open>
  The read loop: \<open>None\<close> is a read that is still pending. A read of no bytes is the end of
  the stream.
\<close>

fun read_response ::
    "protocol \<Rightarrow> bytes \<Rightarrow> read_event list \<Rightarrow> (bytes, net_error) res option" where
  "read_response proto resp [] = None"
| "read_response proto resp (ReadTimeout # evs) = Some (Err ReadTimedOut)"
| "read_response proto resp (ReadErr # evs) = Some (Err ReadFailed)"
| "read_response proto resp (ReadBytes chunk # evs) =
     (if chunk = [] then Some (Ok resp)
      else
        let resp = resp @ chunk in
        case p_is_response_complete proto resp of
          Ok True \<Rightarrow> Some (Ok resp)
        | Ok False \<Rightarrow>
            if length resp > MAX_HSM_RESPONSE then Some (Err ResponseTooLarge)
            else read_response proto resp evs
        | _ \<Rightarrow> Some Panic)"

definition exchange_with_hsm ::
    "net_script \<Rightarrow> bytes \<Rightarrow> protocol \<Rightarrow> (bytes, net_error) res option" where
  "exchange_with_hsm net frame proto =
     (case ns_write net of
        IoTimeout \<Rightarrow> Some (Err SendTimeout)
      | IoErr \<Rightarrow> Some (Err SendFailed)
      | IoOk \<Rightarrow> read_response proto [] (ns_reads net))"

definition hsm_exchange ::
    "hsm_client \<Rightarrow> net_script \<Rightarrow> bytes \<Rightarrow> protocol \<Rightarrow> (bytes, net_error) res option" where
  "hsm_exchange client net frame proto =
     (case ns_connect net of
        IoTimeout \<Rightarrow> Some (Err ConnectTimeout)
      | IoErr \<Rightarrow> Some (Err ConnectFailed)
      | IoOk \<Rightarrow>
          (case hc_tls client of
             None \<Rightarrow> exchange_with_hsm net frame proto
           | Some _ \<Rightarrow>
               (case ns_handshake net of
                  IoTimeout \<Rightarrow> Some (Err HandshakeTimeout)
                | IoErr \<Rightarrow> Some (Err HandshakeFailed)
                | IoOk \<Rightarrow> exchange_with_hsm net frame proto)))"

section \<open>Forward legs\<close>

text \<open>
  A leg answers a frame, given the state of the outside world; the single-endpoint leg opens
  one connection per command, so every exchange has a script of its own.
\<close>

type_synonym 's forward_leg = "'s \<Rightarrow> bytes \<Rightarrow> protocol \<Rightarrow> 's \<times> (bytes, net_error) res option"

definition hsm_client_leg ::
    "hsm_client \<Rightarrow> ('s \<Rightarrow> bytes \<Rightarrow> 's \<times> net_script) \<Rightarrow> 's forward_leg" where
  "hsm_client_leg client connect s frame proto =
     (case connect s frame of (s', net) \<Rightarrow> (s', hsm_exchange client net frame proto))"

definition single_endpoint_leg ::
    "tls_env \<Rightarrow> discover_config \<Rightarrow> ('s \<Rightarrow> bytes \<Rightarrow> 's \<times> net_script) \<Rightarrow> 's forward_leg" where
  "single_endpoint_leg env cfg connect s frame proto =
     (case from_discover env cfg of
        Ok client \<Rightarrow> hsm_client_leg client connect s frame proto
      | Err e \<Rightarrow> (s, Some (Err e))
      | Panic \<Rightarrow> (s, Some Panic))"

definition no_forward_leg :: "'s forward_leg" where
  "no_forward_leg s frame proto = (s, Some (Err NoForwardLegError))"

section \<open>What an exchange returns\<close>

lemma read_response_bound:
  assumes "read_response proto resp evs = Some (Ok out)"
    and "length resp \<le> MAX_HSM_RESPONSE"
    and "\<forall>c. ReadBytes c \<in> set evs \<longrightarrow> length c \<le> n"
  shows "length out \<le> MAX_HSM_RESPONSE + n"
  using assms
proof (induction proto resp evs rule: read_response.induct)
  case (4 proto resp chunk evs)
  then have "length chunk \<le> n" by simp
  with 4 show ?case
    by (auto simp: Let_def split: if_splits res.splits bool.splits)
qed auto

text \<open>
  Every byte returned came from the peer, in order; and unless the peer closed the stream,
  the protocol took the whole for a complete response.
\<close>

lemma read_response_Ok:
  assumes "read_response proto resp evs = Some (Ok out)"
  shows "\<exists>cs rest. evs = map ReadBytes cs @ rest \<and> out = resp @ concat cs
    \<and> (p_is_response_complete proto out = Ok True \<or> (\<exists>more. rest = ReadBytes [] # more))"
  using assms
proof (induction proto resp evs rule: read_response.induct)
  case (4 proto resp chunk evs)
  show ?case
  proof (cases "chunk = []")
    case True
    with 4(2) show ?thesis by (intro exI [of _ "[]"] exI [of _ "ReadBytes [] # evs"]) auto
  next
    case ne: False
    show ?thesis
    proof (cases "p_is_response_complete proto (resp @ chunk) = Ok True")
      case True
      with ne 4(2) show ?thesis by (intro exI [of _ "[chunk]"]) auto
    next
      case False
      with ne 4(2) have "p_is_response_complete proto (resp @ chunk) = Ok False"
        and small: "\<not> length (resp @ chunk) > MAX_HSM_RESPONSE"
        and rec: "read_response proto (resp @ chunk) evs = Some (Ok out)"
        by (auto simp: Let_def split: res.splits bool.splits if_splits)
      from 4(1) [OF ne refl this(1) _ _ rec] small obtain cs rest
        where "evs = map ReadBytes cs @ rest" "out = (resp @ chunk) @ concat cs"
          "p_is_response_complete proto out = Ok True \<or> (\<exists>more. rest = ReadBytes [] # more)"
        by auto
      then show ?thesis by (intro exI [of _ "chunk # cs"]) auto
    qed
  qed
qed auto

text \<open>
  A framed response that arrives in pieces of any sizes is returned whole, and nothing of
  what follows is read.
\<close>

lemma read_response_frame:
  assumes fits: "2 + length rc + length ec + length p < 65536"
    and frame: "resp @ concat cs = thales_frame_response h rc ec p"
    and ne: "\<forall>c \<in> set cs. c \<noteq> []" and more: "cs \<noteq> []"
  shows "read_response ThalesPayShield resp (map ReadBytes cs @ evs) =
    Some (Ok (thales_frame_response h rc ec p))"
  using frame ne more
proof (induction cs arbitrary: resp)
  case (Cons c cs)
  define f where "f = thales_frame_response h rc ec p"
  have f: "f = (resp @ c) @ concat cs" and c: "c \<noteq> []" and cs: "\<forall>c \<in> set cs. c \<noteq> []"
    using Cons.prems by (auto simp: f_def)
  show ?case
  proof (cases "cs = []")
    case True
    then have whole: "resp @ c = f" by (simp add: f)
    then have "thales_is_response_complete (resp @ c) = Ok True"
      by (simp add: f_def is_response_complete_frame_response)
    with True c whole show ?thesis by (simp add: ThalesPayShield_def Let_def f_def)
  next
    case False
    then have "concat cs \<noteq> []" using cs by (cases cs) auto
    then have len: "length (resp @ c) < length f" by (simp add: f)
    have "thales_is_response_complete (take (length (resp @ c)) f) = Ok False"
      unfolding f_def by (rule is_response_complete_take [OF fits]) (use len in \<open>simp add: f_def\<close>)
    then have inc: "thales_is_response_complete (resp @ c) = Ok False" by (simp add: f)
    have "length f < 65540"
      using fits by (simp add: f_def frame_response_length)
    then have cap: "\<not> length (resp @ c) > MAX_HSM_RESPONSE"
      using len by (simp add: MAX_HSM_RESPONSE_def)
    have "read_response ThalesPayShield (resp @ c) (map ReadBytes cs @ evs) = Some (Ok f)"
      unfolding f_def by (rule Cons.IH) (use f cs False in \<open>simp_all add: f_def\<close>)
    with c inc cap show ?thesis by (simp add: ThalesPayShield_def Let_def f_def)
  qed
qed simp

text \<open>
  A framed response of the HSM that arrives in non-empty pieces of any sizes is returned whole,
  and nothing that arrives after it is read.
\<close>

lemma hsm_exchange_frame:
  assumes "ns_connect net = IoOk" and "ns_handshake net = IoOk" and "ns_write net = IoOk"
    and "ns_reads net = map ReadBytes cs @ evs" and "cs \<noteq> []" and "\<forall>c \<in> set cs. c \<noteq> []"
    and "concat cs = thales_frame_response h rc ec p" and "2 + length rc + length ec + length p < 65536"
  shows "hsm_exchange client net frame ThalesPayShield = Some (Ok (thales_frame_response h rc ec p))"
  using read_response_frame [OF assms(8), of "[]" cs h evs] assms
  by (simp add: hsm_exchange_def exchange_with_hsm_def split: option.splits)

section \<open>The contract of a leg\<close>

text \<open>
  What the connection loop and the probe need of a leg: an exchange under payShield framing
  ends in bytes or in an error, never in a panic.
\<close>

locale sound_leg =
  fixes leg :: "'s forward_leg"
  assumes leg_no_panic: "snd (leg s frame ThalesPayShield) \<noteq> Some Panic"

lemma read_response_no_panic: "read_response ThalesPayShield resp evs \<noteq> Some Panic"
proof (induction evs arbitrary: resp)
  case (Cons ev evs)
  show ?case
  proof (cases ev)
    case (ReadBytes chunk)
    obtain r where "thales_is_response_complete (resp @ chunk) = Ok r"
      using is_response_complete_total by blast
    with Cons ReadBytes show ?thesis
      by (auto simp: Let_def ThalesPayShield_def split: bool.splits)
  qed simp_all
qed simp

lemma from_discover_no_panic: "from_discover env cfg \<noteq> Panic"
  by (auto simp: from_discover_def rbind_Panic_iff build_forward_tls_connector_def Let_def
      split: option.splits if_splits)

lemma hsm_exchange_no_panic: "hsm_exchange client net frame ThalesPayShield \<noteq> Some Panic"
  by (auto simp: hsm_exchange_def exchange_with_hsm_def read_response_no_panic
      split: io_outcome.splits option.splits)

interpretation client_leg: sound_leg "hsm_client_leg client connect" for client connect
  by unfold_locales (simp add: hsm_client_leg_def hsm_exchange_no_panic split: prod.splits)

interpretation endpoint_leg: sound_leg "single_endpoint_leg env cfg connect" for env cfg connect
  by unfold_locales
    (simp add: single_endpoint_leg_def client_leg.leg_no_panic from_discover_no_panic split: res.splits)

interpretation no_leg: sound_leg no_forward_leg
  by unfold_locales (simp add: no_forward_leg_def)

section \<open>Properties\<close>

text \<open>
  C33: what an exchange returns are bytes of the peer in the order they came, over as many reads as it takes,
  at most the response cap plus one read of them; they form a complete response for the protocol unless the
  peer closed the stream. (The README's paragraph on passthrough limitations still speaks of a single response
  chunk; its paragraph on known risks and the code read until the response is complete.)
\<close>

theorem exchange_returns_peer_bytes:
  assumes "hsm_exchange client net frame proto = Some (Ok out)"
    and "\<forall>c. ReadBytes c \<in> set (ns_reads net) \<longrightarrow> length c \<le> 65536"
  shows "length out \<le> 256 * 1024 + 65536 \<and>
    (\<exists>cs rest. ns_reads net = map ReadBytes cs @ rest \<and> out = concat cs \<and>
      (p_is_response_complete proto out = Ok True \<or> (\<exists>later. rest = ReadBytes [] # later)))"
proof -
  have rd: "read_response proto [] (ns_reads net) = Some (Ok out)"
    using assms(1)
    by (auto simp: hsm_exchange_def exchange_with_hsm_def split: io_outcome.splits option.splits)
  from read_response_bound [OF rd _ assms(2)] have "length out \<le> 256 * 1024 + 65536"
    by (simp add: MAX_HSM_RESPONSE_def)
  with read_response_Ok [OF rd] show ?thesis by simp
qed

text \<open>A response that arrives in two reads, the first of them cut inside its length and header.\<close>

theorem exchange_returns_peer_bytes_witness:
  "hsm_exchange \<lparr> hc_host = [], hc_port = 1500, hc_read_timeout = 30, hc_tls = None \<rparr>
      \<lparr> ns_connect = IoOk, ns_handshake = IoOk, ns_write = IoOk,
        ns_reads = [ReadBytes [0, 6, 1], ReadBytes [2, 0x43, 0x42, 0x30, 0x30]] \<rparr> [] ThalesPayShield
    = Some (Ok [0, 6, 1, 2, 0x43, 0x42, 0x30, 0x30])
   \<and> length [0, 6, 1, 2, 0x43, 0x42, 0x30, 0x30 :: byte] \<le> 256 * 1024 + 65536
   \<and> (\<exists>cs rest. [ReadBytes [0, 6, 1], ReadBytes [2, 0x43, 0x42, 0x30, 0x30]] = map ReadBytes cs @ rest
      \<and> [0, 6, 1, 2, 0x43, 0x42, 0x30, 0x30] = concat cs
      \<and> (p_is_response_complete ThalesPayShield [0, 6, 1, 2, 0x43, 0x42, 0x30, 0x30] = Ok True
         \<or> (\<exists>later. rest = ReadBytes [] # later)))"
proof -
  define net where "net = \<lparr> ns_connect = IoOk, ns_handshake = IoOk, ns_write = IoOk,
    ns_reads = [ReadBytes [0, 6, 1], ReadBytes [2, 0x43, 0x42, 0x30, 0x30]] \<rparr>"
  have x: "hsm_exchange \<lparr> hc_host = [], hc_port = 1500, hc_read_timeout = 30, hc_tls = None \<rparr> net []
      ThalesPayShield = Some (Ok [0, 6, 1, 2, 0x43, 0x42, 0x30, 0x30])"
    by (simp add: net_def hsm_exchange_def exchange_with_hsm_def MAX_HSM_RESPONSE_def Let_def
        ThalesPayShield_def thales_is_response_complete_def index_def u16_from_be_bytes_def)
  from exchange_returns_peer_bytes [OF x] x show ?thesis by (simp add: net_def)
qed

text \<open>
  A peer that closes the stream in the middle of a response makes the exchange succeed with
  the incomplete bytes: the leg reports no error for a truncated answer.
\<close>

theorem exchange_truncated_is_ok:
  assumes "ns_connect net = IoOk" and "ns_handshake net = IoOk" and "ns_write net = IoOk"
    and "ns_reads net = [ReadBytes part, ReadBytes []]" and "part \<noteq> []"
    and "p_is_response_complete proto part = Ok False" and "length part \<le> 256 * 1024"
  shows "hsm_exchange client net frame proto = Some (Ok part)"
  using assms
  by (simp add: hsm_exchange_def exchange_with_hsm_def MAX_HSM_RESPONSE_def Let_def split: option.splits)

theorem exchange_truncated_is_ok_witness:
  "hsm_exchange \<lparr> hc_host = [], hc_port = 1500, hc_read_timeout = 30, hc_tls = None \<rparr>
     \<lparr> ns_connect = IoOk, ns_handshake = IoOk, ns_write = IoOk, ns_reads = [ReadBytes [0, 6, 1], ReadBytes []] \<rparr>
     [] ThalesPayShield = Some (Ok [0, 6, 1])"
  by (rule exchange_truncated_is_ok)
    (simp_all add: ThalesPayShield_def thales_is_response_complete_def index_def u16_from_be_bytes_def)

definition demo_tls_discover :: discover_config where
  "demo_tls_discover =
     \<lparr> dc_enabled = True, dc_hsm_host = ascii ''hsm'', dc_hsm_port = 1500, dc_log_file = None,
       dc_hsm_read_timeout_secs = None,
       dc_tls = Some \<lparr> ft_ca_file = ascii ''ca.pem'', ft_client_cert_file = None,
                      ft_client_key_file = None, ft_server_name = None \<rparr> \<rparr>"

text \<open>
  C34: a configured TLS leg is never downgraded. The client of a \<open>discover\<close> block goes to the
  configured host; it is plaintext exactly when no \<open>tls\<close> block is given; with one, an exchange
  succeeds only after a handshake, the connector trusts the configured CA file, and it carries
  a client identity exactly when both files are configured (never half of one).
\<close>

theorem forward_tls_never_downgraded:
  assumes "from_discover env d = Ok client"
  shows "hc_host client = dc_hsm_host d \<and> hc_port client = dc_hsm_port d
    \<and> (case dc_tls d of
         None \<Rightarrow> hc_tls client = None
       | Some t \<Rightarrow>
           (hsm_exchange client net frame proto = Some (Ok out) \<longrightarrow> ns_handshake net = IoOk)
           \<and> (ft_client_cert_file t = None) = (ft_client_key_file t = None)
           \<and> (\<exists>co. hc_tls client = Some (co, case ft_server_name t of Some n \<Rightarrow> n | None \<Rightarrow> dc_hsm_host d)
                 \<and> co_ca_file co = ft_ca_file t
                 \<and> (\<forall>cert key. (co_client_auth co = Some (cert, key)) =
                      (ft_client_cert_file t = Some cert \<and> ft_client_key_file t = Some key))))"
proof (cases "dc_tls d")
  case None
  with assms show ?thesis by (auto simp: from_discover_def)
next
  case (Some t)
  let ?name = "case ft_server_name t of Some n \<Rightarrow> n | None \<Rightarrow> dc_hsm_host d"
  obtain co where co: "build_forward_tls_connector env t = Ok co" and tls: "hc_tls client = Some (co, ?name)"
    and "hc_host client = dc_hsm_host d" "hc_port client = dc_hsm_port d"
    using assms Some by (cases "build_forward_tls_connector env t") (auto simp: from_discover_def Let_def split: if_splits)
  moreover have "hsm_exchange client net frame proto = Some (Ok out) \<longrightarrow> ns_handshake net = IoOk"
    using tls by (simp add: hsm_exchange_def split: io_outcome.split)
  moreover have "(ft_client_cert_file t = None) = (ft_client_key_file t = None)" "co_ca_file co = ft_ca_file t"
      "(co_client_auth co = Some (cert, key)) = (ft_client_cert_file t = Some cert \<and> ft_client_key_file t = Some key)" for cert key
    using co by (auto simp: build_forward_tls_connector_def split: if_splits option.splits)
  ultimately show ?thesis using Some by simp
qed

theorem forward_tls_never_downgraded_witness:
  "\<exists>client co. from_discover
      \<lparr> te_ca_ok = \<lambda>_. True, te_versions_ok = True, te_cert_ok = \<lambda>_. True, te_key_ok = \<lambda>_. True,
        te_client_auth_ok = \<lambda>_ _. True, te_server_name_ok = \<lambda>_. True \<rparr> demo_tls_discover = Ok client
    \<and> hc_tls client = Some (co, ascii ''hsm'') \<and> co_client_auth co = None"
proof -
  let ?env = "\<lparr> te_ca_ok = \<lambda>_. True, te_versions_ok = True, te_cert_ok = \<lambda>_. True, te_key_ok = \<lambda>_. True,
        te_client_auth_ok = \<lambda>_ _. True, te_server_name_ok = \<lambda>_. True \<rparr>"
  obtain client where client: "from_discover ?env demo_tls_discover = Ok client"
    by (simp add: from_discover_def build_forward_tls_connector_def demo_tls_discover_def Let_def)
  from forward_tls_never_downgraded [OF client, of "\<lparr> ns_connect = IoOk, ns_handshake = IoOk, ns_write = IoOk, ns_reads = [] \<rparr>"
      "[]" ThalesPayShield "[]"] obtain co
    where "hc_tls client = Some (co, ascii ''hsm'')" "\<forall>cert key. co_client_auth co \<noteq> Some (cert, key)"
    by (auto simp: demo_tls_discover_def)
  with client show ?thesis by (cases "co_client_auth co") auto
qed

end
