(* ===== verification/Server.thy ===== *)
theory Server
  imports Registry Forward
begin

text \<open>
  The server (\<open>src/src/server.rs\<close>): start-up, the discovery log and the connection loop (the accept
  loop is in \<open>Accept_Loop\<close>). A connection sees the outside world through its context: the APC service,
  the forward leg, the clock and the outcome of a write are functions on a world state, and
  what the peer sends is a list of read events. The response loop over the buffer is a
  \<open>partial_function\<close>: \<open>None\<close> is a loop that does not end, and for payShield framing it is
  proved that it ends.
\<close>

section \<open>Discovery log\<close>

record discovery_log =
  dl_seen :: "bytes set"
  dl_vendor :: bytes
  dl_lines :: "json list"

text \<open>
  \<open>DiscoveryLog::record\<close>: the lines are what is handed to the writer, whose outcome the code
  ignores. The JSON object prints its keys in alphabetical order.
\<close>

definition record_command :: "nat \<Rightarrow> bytes \<Rightarrow> json \<Rightarrow> discovery_log \<Rightarrow> discovery_log" where
  "record_command ts code params dl =
     (let cmd = from_utf8_lossy code in
      if cmd \<in> dl_seen dl then dl
      else dl\<lparr> dl_seen := insert cmd (dl_seen dl),
               dl_lines := dl_lines dl @
                 [JObj [(ascii ''cmd'', JStr cmd), (ascii ''params'', params), (ascii ''ts'', JNum ts),
                        (ascii ''vendor'', JStr (dl_vendor dl))]] \<rparr>)"

definition log_discovery_command ::
    "protocol \<Rightarrow> nat \<Rightarrow> bytes \<Rightarrow> bytes \<Rightarrow> discovery_log option \<Rightarrow> discovery_log option" where
  "log_discovery_command proto ts code pl log =
     (let params = p_redact_discovery proto pl in map_option (record_command ts code params) log)"

section \<open>Serving one command\<close>

text \<open>What every connection shares: the world, the request counter and the discovery log.\<close>

record 'w shared =
  sh_world :: 'w
  sh_request_seq :: "64 word"
  sh_log :: "discovery_log option"

record 'w conn_ctx =
  cx_state :: app_state
  cx_service :: "'w service"
  cx_registry :: registry
  cx_protocol :: protocol
  cx_discover :: "discover_config option"
  cx_forward :: "'w forward_leg"
  cx_idle_timeout :: "nat option"
  cx_clock :: "'w \<Rightarrow> nat"
  cx_write :: "'w \<Rightarrow> bytes \<Rightarrow> 'w \<times> bool"

text \<open>
  The response to a command that has been parsed from the front of \<open>buf\<close>; \<open>None\<close> is a forward
  leg that does not answer.
\<close>

definition respond ::
    "'w conn_ctx \<Rightarrow> 'w shared \<Rightarrow> bytes \<Rightarrow> parsed_command \<Rightarrow> 'w shared \<times> (bytes, net_error) res option" where
  "respond ctx sh buf cmd =
     (let proto = cx_protocol ctx; code = command_code cmd;
          sh = sh\<lparr> sh_request_seq := sh_request_seq sh + 1 \<rparr> in
      case registry_get (cx_registry ctx) code of
        Some h \<Rightarrow>
          (case run (cx_service ctx) (h_handle h (cx_state ctx) code (cmd_payload cmd)) (sh_world sh) of
             (w, None) \<Rightarrow> (sh\<lparr> sh_world := w \<rparr>, Some Panic)
           | (w, Some r) \<Rightarrow>
               (sh\<lparr> sh_world := w \<rparr>,
                Some (Ok (p_frame_response proto (header cmd) (p_response_code proto code)
                            (error_code r) (payload r)))))
      | None \<Rightarrow>
          (case cx_discover ctx of
             Some dcfg \<Rightarrow>
               if dc_enabled dcfg then
                 let sh = sh\<lparr> sh_log := log_discovery_command proto (cx_clock ctx (sh_world sh)) code
                                          (cmd_payload cmd) (sh_log sh) \<rparr> in
                 (case (slice buf 0 (frame_len cmd) :: (bytes, net_error) res) of
                    Ok frame \<Rightarrow>
                      (case cx_forward ctx (sh_world sh) frame proto of
                         (w, None) \<Rightarrow> (sh\<lparr> sh_world := w \<rparr>, None)
                       | (w, Some (Ok resp)) \<Rightarrow> (sh\<lparr> sh_world := w \<rparr>, Some (Ok resp))
                       | (w, Some (Err e)) \<Rightarrow>
                           (sh\<lparr> sh_world := w \<rparr>, Some (Ok (p_frame_error proto (header cmd) code (ascii ''41''))))
                       | (w, Some Panic) \<Rightarrow> (sh\<lparr> sh_world := w \<rparr>, Some Panic))
                  | _ \<Rightarrow> (sh, Some Panic))
               else (sh, Some (Ok (p_frame_error proto (header cmd) code (ascii ''68''))))
           | None \<Rightarrow> (sh, Some (Ok (p_frame_error proto (header cmd) code (ascii ''68''))))))"

section \<open>The connection loop\<close>

definition MAX_INBOUND_ACCUMULATION :: nat where
  "MAX_INBOUND_ACCUMULATION = 256 * 1024"

definition READ_BUF :: nat where
  "READ_BUF = 4096"

text \<open>
  How a connection stands when its loop stops: the peer closed it or the proxy did
  (\<open>return Ok(())\<close>), an I/O error, a panic of the task, or still waiting for a read or for
  the forward leg.
\<close>

datatype conn_end = Closed | IoFailed | ConnPanic | Waiting

record 'w conn =
  cn_shared :: "'w shared"
  cn_buf :: bytes
  cn_out :: "bytes list"

text \<open>Answer a parsed command: respond, write, drain; \<open>Some e\<close> ends the connection.\<close>

definition serve_one :: "'w conn_ctx \<Rightarrow> 'w conn \<Rightarrow> parsed_command \<Rightarrow> 'w conn \<times> conn_end option" where
  "serve_one ctx c cmd =
     (case respond ctx (cn_shared c) (cn_buf c) cmd of
        (sh, None) \<Rightarrow> (c\<lparr> cn_shared := sh \<rparr>, Some Waiting)
      | (sh, Some (Ok resp)) \<Rightarrow>
          (case cx_write ctx (sh_world sh) resp of
             (w, ok) \<Rightarrow>
               let c = c\<lparr> cn_shared := sh\<lparr> sh_world := w \<rparr> \<rparr> in
               if \<not> ok then (c, Some IoFailed)
               else if frame_len cmd \<le> length (cn_buf c) then
                 (c\<lparr> cn_out := cn_out c @ [resp], cn_buf := drop (frame_len cmd) (cn_buf c) \<rparr>, None)
               else (c\<lparr> cn_out := cn_out c @ [resp] \<rparr>, Some ConnPanic))
      | (sh, Some _) \<Rightarrow> (c\<lparr> cn_shared := sh \<rparr>, Some ConnPanic))"

partial_function (option) serve_buffered ::
    "'w conn_ctx \<Rightarrow> 'w conn \<Rightarrow> ('w conn \<times> conn_end option) option" where
  "serve_buffered ctx c =
     (case p_parse (cx_protocol ctx) (cn_buf c) of
        Ok None \<Rightarrow> Some (c, None)
      | Ok (Some cmd) \<Rightarrow>
          (case serve_one ctx c cmd of
             (c', None) \<Rightarrow> serve_buffered ctx c'
           | (c', Some e) \<Rightarrow> Some (c', Some e))
      | _ \<Rightarrow> Some (c, Some ConnPanic))"

text \<open>
  The read loop over what the socket delivers. A timeout can only be seen when an idle timeout
  is configured.
\<close>

fun conn_loop ::
    "'w conn_ctx \<Rightarrow> 'w conn \<Rightarrow> read_event list \<Rightarrow> ('w conn \<times> conn_end) option" where
  "conn_loop ctx c [] = Some (c, Waiting)"
| "conn_loop ctx c (ReadTimeout # evs) =
     (case cx_idle_timeout ctx of Some t \<Rightarrow> Some (c, Closed) | None \<Rightarrow> conn_loop ctx c evs)"
| "conn_loop ctx c (ReadErr # evs) = Some (c, IoFailed)"
| "conn_loop ctx c (ReadBytes chunk # evs) =
     (if chunk = [] then Some (c, Closed)
      else
        let c = c\<lparr> cn_buf := cn_buf c @ chunk \<rparr> in
        if length (cn_buf c) > MAX_INBOUND_ACCUMULATION then Some (c, Closed)
        else
          (case serve_buffered ctx c of
             None \<Rightarrow> None
           | Some (c', Some e) \<Rightarrow> Some (c', e)
           | Some (c', None) \<Rightarrow> conn_loop ctx c' evs))"

definition handle_connection ::
    "'w conn_ctx \<Rightarrow> 'w shared \<Rightarrow> read_event list \<Rightarrow> ('w conn \<times> conn_end) option" where
  "handle_connection ctx sh evs = conn_loop ctx \<lparr> cn_shared = sh, cn_buf = [], cn_out = [] \<rparr> evs"

section \<open>The commands of a stream\<close>

text \<open>
  The abstract server: commands are answered one after the other, each from its own frame.
  \<open>enc\<close> is the wire form of a command.
\<close>

fun serve_commands ::
    "(parsed_command \<Rightarrow> bytes) \<Rightarrow> 'w conn_ctx \<Rightarrow> 'w shared \<Rightarrow> parsed_command list
      \<Rightarrow> 'w shared \<times> bytes list \<times> conn_end option" where
  "serve_commands enc ctx sh [] = (sh, [], None)"
| "serve_commands enc ctx sh (cmd # cmds) =
     (case respond ctx sh (enc cmd) cmd of
        (sh, None) \<Rightarrow> (sh, [], Some Waiting)
      | (sh, Some (Ok resp)) \<Rightarrow>
          (case cx_write ctx (sh_world sh) resp of
             (w, ok) \<Rightarrow>
               let sh = sh\<lparr> sh_world := w \<rparr> in
               if \<not> ok then (sh, [], Some IoFailed)
               else
                 (case serve_commands enc ctx sh cmds of
                    (sh', outs, e) \<Rightarrow> (sh', resp # outs, e)))
      | (sh, Some _) \<Rightarrow> (sh, [], Some ConnPanic))"

context framing
begin

lemma parse_None_take:
  assumes "parse b = Ok None"
  shows "parse (take n b) = Ok None"
proof -
  obtain r where r: "parse (take n b) = Ok r" using parse_total by blast
  show ?thesis
  proof (cases r)
    case (Some c)
    with r parse_extend [of "take n b" c "drop n b"] assms show ?thesis by simp
  qed (simp add: r)
qed

end

text \<open>
  What a framing with a wire form promises: the parser recognises exactly the wire forms of
  well-formed commands, and a frame is small enough that the accumulation cap is never reached
  by a stream of frames.
\<close>

locale stream_codec = framing parse
  for parse :: "bytes \<Rightarrow> parsed_command option result" +
  fixes enc :: "parsed_command \<Rightarrow> bytes" and wf :: "parsed_command \<Rightarrow> bool"
  assumes parse_iff: "parse b = Ok (Some c) \<longleftrightarrow> wf c \<and> (\<exists>rest. b = enc c @ rest)"
    and enc_length: "wf c \<Longrightarrow> length (enc c) = frame_len c"
    and enc_bound: "wf c \<Longrightarrow> length (enc c) + READ_BUF \<le> MAX_INBOUND_ACCUMULATION"
begin

lemma parse_enc: "wf c \<Longrightarrow> parse (enc c @ rest) = Ok (Some c)"
  using parse_iff by blast

lemma parse_strict_prefix:
  assumes "wf c" and "n < length (enc c)"
  shows "parse (take n (enc c)) = Ok None"
proof -
  obtain r where r: "parse (take n (enc c)) = Ok r" using parse_total by blast
  show ?thesis
  proof (cases r)
    case (Some c')
    with r have p: "parse (take n (enc c)) = Ok (Some c')" by simp
    from parse_extend [OF p, of "drop n (enc c)"] parse_enc [OF assms(1), of "[]"] have "c' = c" by simp
    with parse_le [OF p] assms enc_length show ?thesis by simp
  qed (simp add: r)
qed

text \<open>
  A prefix of a stream of frames with an incomplete tail is some whole frames and a rest that
  parses to nothing.
\<close>

lemma prefix_decomposition:
  assumes "\<forall>c \<in> set cmds. wf c" and "parse tail = Ok None"
    and "b @ later = concat (map enc cmds) @ tail" and "length tail + READ_BUF \<le> MAX_INBOUND_ACCUMULATION"
  shows "\<exists>served todo rest. cmds = served @ todo \<and> b = concat (map enc served) @ rest
    \<and> parse rest = Ok None \<and> rest @ later = concat (map enc todo) @ tail
    \<and> length rest + READ_BUF \<le> MAX_INBOUND_ACCUMULATION"
  using assms
proof (induction cmds arbitrary: b)
  case Nil
  then have "b = take (length b) tail"
    by (metis append_eq_conv_conj append_Nil concat.simps(1) list.map(1))
  moreover from this Nil.prems(2) have "parse b = Ok None" by (metis parse_None_take)
  moreover have "length b \<le> length tail" using arg_cong [OF Nil.prems(3), of length] by simp
  ultimately show ?case using Nil.prems(3,4) by (intro exI [of _ "[]"] exI [of _ b]) auto
next
  case (Cons c cmds)
  define n where "n = length (enc c)"
  show ?case
  proof (cases "length b < n")
    case True
    from Cons.prems(3) have "take (length b) (b @ later) = take (length b) (enc c @ concat (map enc cmds) @ tail)"
      by simp
    with True have b: "b = take (length b) (enc c)" by (simp add: n_def)
    with True Cons.prems(1) have "parse b = Ok None"
      using parse_strict_prefix [of c "length b"] by (simp add: n_def)
    moreover have "length b + READ_BUF \<le> MAX_INBOUND_ACCUMULATION"
      using True enc_bound [of c] Cons.prems(1) by (simp add: n_def)
    ultimately show ?thesis using Cons.prems(3)
      by (intro exI [of _ "[]"] exI [of _ "c # cmds"] exI [of _ b]) auto
  next
    case False
    from Cons.prems(3) have stream: "b @ later = enc c @ concat (map enc cmds) @ tail" by simp
    from arg_cong [OF this, of "take n"] False have "take n b = enc c" by (simp add: n_def)
    then have split: "b = enc c @ drop n b" by (metis append_take_drop_id)
    from arg_cong [OF stream, of "drop n"] False
    have later: "drop n b @ later = concat (map enc cmds) @ tail" by (simp add: n_def)
    from Cons.IH [OF _ Cons.prems(2) later Cons.prems(4)] Cons.prems(1) obtain d todo rest
      where "cmds = d @ todo" "drop n b = concat (map enc d) @ rest" "parse rest = Ok None"
        "rest @ later = concat (map enc todo) @ tail"
        "length rest + READ_BUF \<le> MAX_INBOUND_ACCUMULATION"
      by auto
    with split show ?thesis
      by (intro exI [of _ "c # d"] exI [of _ todo] exI [of _ rest]) auto
  qed
qed

lemma respond_buffered:
  assumes "wf cmd"
  shows "respond ctx sh (enc cmd @ rest) cmd = respond ctx sh (enc cmd) cmd"
proof -
  have slices: "slice (enc cmd @ rest) 0 (frame_len cmd) = (Ok (enc cmd) :: (bytes, net_error) res)"
    "slice (enc cmd) 0 (frame_len cmd) = (Ok (enc cmd) :: (bytes, net_error) res)"
    using assms by (simp_all add: slice_def enc_length [symmetric])
  show ?thesis unfolding respond_def slices ..
qed

lemma serve_buffered_None:
  "p_parse (cx_protocol ctx) = parse \<Longrightarrow> parse (cn_buf c) = Ok None \<Longrightarrow>
    serve_buffered ctx c = Some (c, None)"
  by (simp add: serve_buffered.simps)

text \<open>Serving a buffer of whole frames is serving the commands; an incomplete rest stays.\<close>

lemma serve_buffered_frames:
  assumes "p_parse (cx_protocol ctx) = parse" and "\<forall>c \<in> set cmds. wf c"
    and "parse rest = Ok None" and "cn_buf c = concat (map enc cmds) @ rest"
    and "serve_commands enc ctx (cn_shared c) cmds = (sh, outs, e)"
  shows "\<exists>b. serve_buffered ctx c =
      Some (c\<lparr> cn_shared := sh, cn_buf := b, cn_out := cn_out c @ outs \<rparr>, e) \<and> (e = None \<longrightarrow> b = rest)"
  using assms(2-)
proof (induction cmds arbitrary: c sh outs e)
  case Nil
  with serve_buffered_None [OF assms(1)] show ?case by auto
next
  case (Cons cmd cmds)
  have wf: "wf cmd" and buf: "cn_buf c = enc cmd @ concat (map enc cmds) @ rest"
    using Cons.prems by auto
  then have parse: "parse (cn_buf c) = Ok (Some cmd)" by (simp add: parse_enc)
  have resp: "respond ctx (cn_shared c) (cn_buf c) cmd = respond ctx (cn_shared c) (enc cmd) cmd"
    using wf by (simp add: buf respond_buffered)
  obtain sh1 r where r: "respond ctx (cn_shared c) (enc cmd) cmd = (sh1, r)" by force
  show ?case
  proof (cases "\<exists>resp w. r = Some (Ok resp) \<and> cx_write ctx (sh_world sh1) resp = (w, True)")
    case True
    then obtain bs w where ok: "r = Some (Ok bs)" "cx_write ctx (sh_world sh1) bs = (w, True)"
      by blast
    define c1 where "c1 = c\<lparr> cn_shared := sh1\<lparr> sh_world := w \<rparr>, cn_out := cn_out c @ [bs],
      cn_buf := concat (map enc cmds) @ rest \<rparr>"
    have one: "serve_one ctx c cmd = (c1, None)"
      unfolding serve_one_def resp r using wf ok by (simp add: c1_def buf enc_length [symmetric])
    obtain outs' where outs: "outs = bs # outs'"
        "serve_commands enc ctx (cn_shared c1) cmds = (sh, outs', e)"
      using Cons.prems(4) by (auto simp: r ok c1_def Let_def split: prod.splits)
    from Cons.IH [OF _ Cons.prems(2) _ outs(2)] Cons.prems(1) show ?thesis
      using outs(1) assms(1) parse one by (auto simp: c1_def serve_buffered.simps [of ctx c])
  next
    case False
    with Cons.prems(4) have "\<exists>e'. e = Some e' \<and> serve_one ctx c cmd = (c\<lparr> cn_shared := sh \<rparr>, e) \<and> outs = []"
      by (auto simp: serve_one_def resp r Let_def split: option.splits res.splits prod.splits if_splits)
    then show ?thesis
      using assms(1) parse by (auto simp: serve_buffered.simps [of ctx c] intro!: exI [of _ "cn_buf c"])
  qed
qed

end

lemma serve_commands_append:
  "serve_commands enc ctx sh (xs @ ys) =
     (case serve_commands enc ctx sh xs of
        (sh', outs, Some e) \<Rightarrow> (sh', outs, Some e)
      | (sh', outs, None) \<Rightarrow>
          (case serve_commands enc ctx sh' ys of (sh'', outs', e) \<Rightarrow> (sh'', outs @ outs', e)))"
proof (induction xs arbitrary: sh)
  case (Cons x xs)
  then show ?case
    by (auto simp: Let_def split: prod.splits option.splits res.splits)
qed (auto split: prod.splits)

context stream_codec
begin

text \<open>
  However the bytes of a stream of frames are cut into reads, the connection answers the
  commands in order and keeps the incomplete tail.
\<close>

lemma conn_loop_frames:
  assumes proto: "p_parse (cx_protocol ctx) = parse"
    and tail: "parse tail = Ok None" "length tail + READ_BUF \<le> MAX_INBOUND_ACCUMULATION"
    and "\<forall>c \<in> set cmds. wf c" and "\<forall>ch \<in> set chunks. ch \<noteq> [] \<and> length ch \<le> READ_BUF"
    and "cn_buf c @ concat chunks = concat (map enc cmds) @ tail"
    and "parse (cn_buf c) = Ok None" and "length (cn_buf c) + READ_BUF \<le> MAX_INBOUND_ACCUMULATION"
    and "serve_commands enc ctx (cn_shared c) cmds = (sh, outs, e)"
  shows "\<exists>b. conn_loop ctx c (map ReadBytes chunks @ evs) =
    (let c' = c\<lparr> cn_shared := sh, cn_buf := b, cn_out := cn_out c @ outs \<rparr> in
     case e of Some e' \<Rightarrow> Some (c', e') | None \<Rightarrow> conn_loop ctx c' evs) \<and> (e = None \<longrightarrow> b = tail)"
  using assms(4-)
proof (induction chunks arbitrary: c cmds sh outs e)
  case Nil
  have "cmds = []"
  proof (rule ccontr)
    assume "cmds \<noteq> []"
    then obtain cmd rest where "cmds = cmd # rest" by (cases cmds) auto
    with Nil.prems parse_enc [of cmd "concat (map enc rest) @ tail"] show False by auto
  qed
  with Nil.prems show ?case by (auto intro!: exI [of _ tail])
next
  case (Cons ch chunks)
  define c1 where "c1 = c\<lparr> cn_buf := cn_buf c @ ch \<rparr>"
  have "cn_buf c1 @ concat chunks = concat (map enc cmds) @ tail"
    using Cons.prems(3) by (simp add: c1_def)
  from prefix_decomposition [OF Cons.prems(1) tail(1) this tail(2)] obtain served todo rest
    where d: "cmds = served @ todo" "cn_buf c1 = concat (map enc served) @ rest"
      "parse rest = Ok None" "rest @ concat chunks = concat (map enc todo) @ tail"
      "length rest + READ_BUF \<le> MAX_INBOUND_ACCUMULATION"
    by auto
  obtain sh1 outs1 e1 where s1: "serve_commands enc ctx (cn_shared c1) served = (sh1, outs1, e1)"
    by (metis prod_cases3)
  from serve_buffered_frames [OF proto _ d(3,2) s1] Cons.prems(1) d(1) obtain b
    where sb: "serve_buffered ctx c1 =
        Some (c1\<lparr> cn_shared := sh1, cn_buf := b, cn_out := cn_out c1 @ outs1 \<rparr>, e1)"
      and b: "e1 = None \<longrightarrow> b = rest" by auto
  have fits: "ch \<noteq> []" "\<not> length (cn_buf c @ ch) > MAX_INBOUND_ACCUMULATION"
    using Cons.prems(2,5) by auto
  note all = Cons.prems(6) [unfolded d(1) serve_commands_append]
  show ?case
  proof (cases e1)
    case (Some e')
    with s1 all have "sh = sh1" "outs = outs1" "e = Some e'" by (auto simp: c1_def)
    with Some sb fits show ?thesis by (auto simp: c1_def Let_def intro!: exI [of _ b])
  next
    case None
    define c2 where "c2 = c1\<lparr> cn_shared := sh1, cn_buf := rest, cn_out := cn_out c1 @ outs1 \<rparr>"
    from None s1 all obtain outs2 where s2: "serve_commands enc ctx (cn_shared c2) todo = (sh, outs2, e)"
      and outs: "outs = outs1 @ outs2"
      by (auto simp: c1_def c2_def split: prod.splits)
    have "conn_loop ctx c (map ReadBytes (ch # chunks) @ evs) = conn_loop ctx c2 (map ReadBytes chunks @ evs)"
      using None sb b fits by (simp add: c1_def c2_def Let_def)
    moreover from Cons.IH [OF _ _ _ _ _ s2] Cons.prems(1,2) d show ?thesis
      unfolding calculation by (auto simp: c2_def c1_def outs)
  qed
qed

end

section \<open>Termination and panics of the loop\<close>

context framing
begin

text \<open>The inner loop ends with nothing left to parse, having consumed a prefix of the buffer.\<close>

lemma serve_buffered_ends:
  assumes "p_parse (cx_protocol ctx) = parse"
  shows "\<exists>c' e. serve_buffered ctx c = Some (c', e) \<and> (\<exists>k. cn_buf c' = drop k (cn_buf c))
    \<and> (\<exists>outs. cn_out c' = cn_out c @ outs) \<and> (e = None \<longrightarrow> parse (cn_buf c') = Ok None)"
proof (induction "length (cn_buf c)" arbitrary: c rule: less_induct)
  case less
  obtain r where r: "parse (cn_buf c) = Ok r" using parse_total by blast
  show ?case
  proof (cases r)
    case None
    with r assms show ?thesis by (auto simp: serve_buffered.simps intro: exI [of _ 0])
  next
    case (Some cmd)
    obtain c1 e1 where one: "serve_one ctx c cmd = (c1, e1)" by force
    then have k: "\<exists>k. cn_buf c1 = drop k (cn_buf c)" and o: "\<exists>outs. cn_out c1 = cn_out c @ outs"
      by (auto simp: serve_one_def Let_def split: prod.splits option.splits res.splits if_splits
          intro: exI [of _ 0])
    show ?thesis
    proof (cases e1)
      case None
      with one have "cn_buf c1 = drop (frame_len cmd) (cn_buf c)"
        by (auto simp: serve_one_def Let_def split: prod.splits option.splits res.splits if_splits)
      moreover from r Some parse_pos parse_le have "0 < frame_len cmd" "frame_len cmd \<le> length (cn_buf c)"
        by simp_all
      ultimately have "length (cn_buf c1) < length (cn_buf c)" by simp
      from less [OF this] obtain c' e where "serve_buffered ctx c1 = Some (c', e)"
        "\<exists>k. cn_buf c' = drop k (cn_buf c1)" "\<exists>outs. cn_out c' = cn_out c1 @ outs"
        "e = None \<longrightarrow> parse (cn_buf c') = Ok None" by blast
      with None one r Some assms k o show ?thesis
        by (auto simp: serve_buffered.simps [of ctx c])
    next
      case (Some e)
      with \<open>r = Some cmd\<close> one r assms k o show ?thesis
        by (auto simp: serve_buffered.simps [of ctx c])
    qed
  qed
qed

lemma serve_buffered_no_panic:
  assumes "p_parse (cx_protocol ctx) = parse"
    and resp: "\<And>sh buf cmd. frame_len cmd \<le> length buf \<Longrightarrow> snd (respond ctx sh buf cmd) = None
      \<or> (\<exists>out. snd (respond ctx sh buf cmd) = Some (Ok out))"
    and "serve_buffered ctx c = Some (c', e)"
  shows "e \<noteq> Some ConnPanic"
  using assms(3)
proof (induction "length (cn_buf c)" arbitrary: c rule: less_induct)
  case less
  obtain r where r: "parse (cn_buf c) = Ok r" using parse_total by blast
  show ?case
  proof (cases r)
    case None
    with r assms less.prems show ?thesis by (auto simp: serve_buffered.simps)
  next
    case (Some cmd)
    with r parse_pos parse_le have len: "0 < frame_len cmd" "frame_len cmd \<le> length (cn_buf c)"
      by simp_all
    obtain c1 e1 where one: "serve_one ctx c cmd = (c1, e1)" by force
    with resp [OF len(2), of "cn_shared c"] len have e1: "e1 \<noteq> Some ConnPanic"
      and "e1 = None \<longrightarrow> cn_buf c1 = drop (frame_len cmd) (cn_buf c)"
      by (auto simp: serve_one_def Let_def split: prod.splits option.splits res.splits if_splits)
    with len less.hyps [of c1] less.prems one r Some assms(1) show ?thesis
      by (cases e1) (auto simp: serve_buffered.simps [of ctx c])
  qed
qed

text \<open>The read loop always returns, and its buffer never outgrows the cap by more than one read.\<close>

lemma conn_loop_ends:
  assumes proto: "p_parse (cx_protocol ctx) = parse"
    and "\<forall>ch. ReadBytes ch \<in> set evs \<longrightarrow> length ch \<le> READ_BUF"
    and "length (cn_buf c) \<le> MAX_INBOUND_ACCUMULATION"
  shows "\<exists>c' e. conn_loop ctx c evs = Some (c', e)
    \<and> length (cn_buf c') \<le> MAX_INBOUND_ACCUMULATION + READ_BUF"
  using assms(2,3)
proof (induction evs arbitrary: c)
  case (Cons ev evs)
  show ?case
  proof (cases ev)
    case (ReadBytes ch)
    define c1 where "c1 = c\<lparr> cn_buf := cn_buf c @ ch \<rparr>"
    have small: "length (cn_buf c1) \<le> MAX_INBOUND_ACCUMULATION + READ_BUF"
      using Cons.prems ReadBytes by (force simp: c1_def intro: add_mono)
    from serve_buffered_ends [OF proto, of c1] obtain c' e k
      where sb: "serve_buffered ctx c1 = Some (c', e)" "cn_buf c' = drop k (cn_buf c1)" by blast
    then have "length (cn_buf c') \<le> length (cn_buf c1)" by simp
    with sb small Cons.prems Cons.IH [of c'] show ?thesis
      by (cases e) (auto simp: ReadBytes c1_def [symmetric] Let_def)
  qed (use Cons in \<open>auto split: option.splits\<close>)
qed simp

lemma conn_loop_no_panic:
  assumes proto: "p_parse (cx_protocol ctx) = parse"
    and resp: "\<And>sh buf cmd. frame_len cmd \<le> length buf \<Longrightarrow> snd (respond ctx sh buf cmd) = None
      \<or> (\<exists>out. snd (respond ctx sh buf cmd) = Some (Ok out))"
    and "conn_loop ctx c evs = Some (c', e)"
  shows "e \<noteq> ConnPanic"
  using assms(3)
proof (induction evs arbitrary: c)
  case (Cons ev evs)
  show ?case
  proof (cases ev)
    case (ReadBytes ch)
    with Cons serve_buffered_no_panic [OF proto resp] show ?thesis
      by (auto simp: Let_def split: if_splits option.splits prod.splits)
  qed (use Cons in \<open>auto split: option.splits\<close>)
qed simp

text \<open>
  A stream with no complete command at its head gets no answer: the bytes pile up until the
  cap closes the connection.
\<close>

lemma conn_loop_stuck:
  assumes proto: "p_parse (cx_protocol ctx) = parse"
    and "parse (cn_buf c @ concat chunks) = Ok None" and "\<forall>ch \<in> set chunks. ch \<noteq> []"
    and "length (cn_buf c) \<le> MAX_INBOUND_ACCUMULATION"
  shows "\<exists>b. conn_loop ctx c (map ReadBytes chunks) =
    Some (c\<lparr> cn_buf := b \<rparr>,
      if length (cn_buf c @ concat chunks) > MAX_INBOUND_ACCUMULATION then Closed else Waiting)"
  using assms(2-)
proof (induction chunks arbitrary: c)
  case Nil
  then show ?case by (auto intro!: exI [of _ "cn_buf c"])
next
  case (Cons ch chunks)
  define c1 where "c1 = c\<lparr> cn_buf := cn_buf c @ ch \<rparr>"
  from Cons.prems(1) have whole: "parse (cn_buf c1 @ concat chunks) = Ok None" by (simp add: c1_def)
  from parse_None_take [OF this, of "length (cn_buf c1)"] proto
  have sb: "serve_buffered ctx c1 = Some (c1, None)" by (simp add: serve_buffered.simps)
  show ?case
  proof (cases "length (cn_buf c1) > MAX_INBOUND_ACCUMULATION")
    case True
    with Cons.prems(2) show ?thesis by (auto simp: c1_def Let_def)
  next
    case False
    then obtain b where "conn_loop ctx c1 (map ReadBytes chunks) = Some (c1\<lparr> cn_buf := b \<rparr>,
        if length (cn_buf c1 @ concat chunks) > MAX_INBOUND_ACCUMULATION then Closed else Waiting)"
      using Cons.IH [OF whole] Cons.prems by (auto simp: c1_def)
    with False sb Cons.prems(2) show ?thesis by (auto simp: c1_def Let_def)
  qed
qed

end

section \<open>payShield connections\<close>

lemma thales_parse_ThalesPayShield [simp]: "p_parse ThalesPayShield = thales_parse"
  by (simp add: ThalesPayShield_def)

interpretation thales_stream: stream_codec thales_parse request_frame well_formed_command
proof unfold_locales
  fix b c
  show "thales_parse b = Ok (Some c) \<longleftrightarrow> well_formed_command c \<and> (\<exists>rest. b = request_frame c @ rest)"
    by (rule thales_parse_iff)
  show "length (request_frame c) = frame_len c" if "well_formed_command c"
    using that by (rule request_frame_length)
  show "length (request_frame c) + READ_BUF \<le> MAX_INBOUND_ACCUMULATION" if "well_formed_command c"
    using that by (simp add: request_frame_length)
      (simp add: well_formed_command_def READ_BUF_def MAX_INBOUND_ACCUMULATION_def)
qed

context sound_leg
begin

text \<open>A command is answered, or the forward leg is still pending; the task does not panic.\<close>

lemma respond_answers:
  assumes "cx_registry ctx = registry_build" and "cx_protocol ctx = ThalesPayShield"
    and "cx_forward ctx = leg" and "\<And>w rq. documented_answer rq (snd (cx_service ctx w rq))"
    and "frame_len cmd \<le> length buf"
  shows "snd (respond ctx sh buf cmd) = None \<or> (\<exists>out. snd (respond ctx sh buf cmd) = Some (Ok out))"
proof (cases "registry_get registry_build (command_code cmd)")
  case (Some h)
  then have "h \<in> set registered_handlers" using registry_get_SomeD by blast
  then have "io_ok documented_answer (h_handle h (cx_state ctx) (command_code cmd) (cmd_payload cmd))
      well_formed_result"
    using registered_handlers_ok by blast
  from io_ok_run [OF this, of "cx_service ctx" "sh_world sh", OF assms(4)] Some assms(1) show ?thesis
    by (auto simp: respond_def Let_def split: prod.splits option.splits)
next
  case None
  have "slice buf 0 (frame_len cmd) = (Ok (take (frame_len cmd) buf) :: (bytes, net_error) res)"
    using assms(5) by (simp add: slice_def)
  with None assms(1-3) leg_no_panic show ?thesis
    by (auto simp: respond_def Let_def split: prod.splits option.splits res.splits)
      (metis snd_conv)+
qed

end

section \<open>The discovery log\<close>

definition logged_codes :: "discovery_log \<Rightarrow> bytes list" where
  "logged_codes dl =
     List.map_filter (\<lambda>j. case j of JObj ((k, JStr cmd) # _) \<Rightarrow> Some cmd | _ \<Rightarrow> None) (dl_lines dl)"

text \<open>One line per code seen since the log was opened.\<close>

definition log_ok :: "discovery_log \<Rightarrow> bool" where
  "log_ok dl \<longleftrightarrow> distinct (logged_codes dl) \<and> set (logged_codes dl) = dl_seen dl
     \<and> length (dl_lines dl) = length (logged_codes dl)"

lemma logged_codes_record:
  "logged_codes (record_command ts code params dl) =
     (if from_utf8_lossy code \<in> dl_seen dl then logged_codes dl
      else logged_codes dl @ [from_utf8_lossy code])"
  by (simp add: record_command_def logged_codes_def Let_def List.map_filter_def)

lemma log_ok_record: "log_ok dl \<Longrightarrow> log_ok (record_command ts code params dl)"
proof (cases "from_utf8_lossy code \<in> dl_seen dl")
  case True
  then show "log_ok dl \<Longrightarrow> ?thesis" by (simp add: record_command_def Let_def)
next
  case False
  assume ok: "log_ok dl"
  have "logged_codes (record_command ts code params dl) = logged_codes dl @ [from_utf8_lossy code]"
    using False by (simp add: logged_codes_record)
  moreover have "dl_seen (record_command ts code params dl) = insert (from_utf8_lossy code) (dl_seen dl)"
    "length (dl_lines (record_command ts code params dl)) = Suc (length (dl_lines dl))"
    using False by (simp_all add: record_command_def Let_def)
  ultimately show ?thesis using ok False by (simp add: log_ok_def)
qed

lemma dl_seen_record:
  "dl_seen (record_command ts code params dl) = insert (from_utf8_lossy code) (dl_seen dl)"
  by (auto simp: record_command_def Let_def)

section \<open>Start-up\<close>

datatype startup_error =
    UnknownVendor bytes
  | CertFileError | KeyFileError | NoPrivateKey | ClientCaError | VerifierError
  | ServerTlsVersions | ServerConfigError
  | BindFailed

text \<open>What opening, parsing and validating the listener's files yields.\<close>

record server_tls_env =
  se_certs_ok :: "bytes \<Rightarrow> bool"
  se_private_key :: "bytes \<Rightarrow> bool option"
  se_ca_ok :: "bytes \<Rightarrow> bool"
  se_verifier_ok :: "bytes \<Rightarrow> bool"
  se_versions_ok :: bool
  se_single_cert_ok :: "bytes \<Rightarrow> bytes \<Rightarrow> bool"

record server_tls =
  sv_cert_file :: bytes
  sv_key_file :: bytes
  sv_client_verifier :: "bytes option"

text \<open>
  \<open>se_private_key\<close>: \<open>None\<close> is a file that cannot be opened or parsed, \<open>Some False\<close> one that holds
  no private key.
\<close>

definition build_tls_config :: "server_tls_env \<Rightarrow> tls_config \<Rightarrow> (server_tls, startup_error) res" where
  "build_tls_config env tls =
     (if \<not> se_certs_ok env (tc_cert_file tls) then Err CertFileError
      else
        case se_private_key env (tc_key_file tls) of
          None \<Rightarrow> Err KeyFileError
        | Some False \<Rightarrow> Err NoPrivateKey
        | Some True \<Rightarrow>
            rbind
              (case tc_ca_file tls of
                 Some ca_path \<Rightarrow>
                   if \<not> se_ca_ok env ca_path then Err ClientCaError
                   else if \<not> se_verifier_ok env ca_path then Err VerifierError
                   else Ok (Some ca_path)
               | None \<Rightarrow> Ok None)
              (\<lambda>verifier.
               if \<not> se_versions_ok env then Err ServerTlsVersions
               else if \<not> se_single_cert_ok env (tc_cert_file tls) (tc_key_file tls) then Err ServerConfigError
               else Ok \<lparr> sv_cert_file = tc_cert_file tls, sv_key_file = tc_key_file tls,
                         sv_client_verifier = verifier \<rparr>))"

text \<open>
  The environment of the process; the SDK clients depend on the region and the credential
  profile they are built with.
\<close>

record 'w start_env =
  en_control :: "aws_config \<Rightarrow> 'w control_client"
  en_service :: "aws_config \<Rightarrow> 'w service"
  en_build_ok :: "sdk_struct \<Rightarrow> bool"
  en_client_tls :: tls_env
  en_server_tls :: server_tls_env
  en_connect :: "'w \<Rightarrow> bytes \<Rightarrow> 'w \<times> net_script"
  en_log_opens :: "bytes \<Rightarrow> bool"
  en_bind_ok :: "bytes \<Rightarrow> 16 word \<Rightarrow> bool"
  en_clock :: "'w \<Rightarrow> nat"
  en_write :: "'w \<Rightarrow> bytes \<Rightarrow> 'w \<times> bool"

definition discovery_open :: "bytes \<Rightarrow> discovery_log" where
  "discovery_open vendor = \<lparr> dl_seen = {}, dl_vendor = vendor, dl_lines = [] \<rparr>"

definition open_discovery_log :: "'w start_env \<Rightarrow> proxy_config \<Rightarrow> discovery_log option" where
  "open_discovery_log env cfg =
     (case pc_discover cfg of
        None \<Rightarrow> None
      | Some d \<Rightarrow>
          (case dc_log_file d of
             None \<Rightarrow> None
           | Some path \<Rightarrow> if en_log_opens env path then Some (discovery_open (pc_vendor cfg)) else None))"

definition select_forward ::
    "'w start_env \<Rightarrow> 'w forward_leg option \<Rightarrow> discover_config option \<Rightarrow> 'w forward_leg" where
  "select_forward env injected discover =
     (case (injected, discover) of
        (Some leg, _) \<Rightarrow> leg
      | (None, Some d) \<Rightarrow> single_endpoint_leg (en_client_tls env) d (en_connect env)
      | (None, None) \<Rightarrow> no_forward_leg)"

text \<open>
  \<open>run_with\<close> up to its accept loop: the context of every connection, the shared state and the
  TLS acceptor. \<open>None\<close> is an inventory scan that never ends.
\<close>

definition run_with ::
    "'w start_env \<Rightarrow> 'w \<Rightarrow> proxy_config \<Rightarrow> vendor_module list \<Rightarrow> 'w forward_leg option
      \<Rightarrow> ('w conn_ctx \<times> 'w shared \<times> server_tls option, startup_error) res option" where
  "run_with env w cfg modules injected =
     (case load_key_map (en_control env (pc_aws cfg)) w (map_of (pc_key_mappings cfg)) of
        None \<Rightarrow> None
      | Some (w', Ok km) \<Rightarrow>
          (let state = \<lparr> st_key_map = km, build_ok = en_build_ok env \<rparr> in
           case find (\<lambda>m. vm_vendor m = pc_vendor cfg) modules of
             None \<Rightarrow> Some (Err (UnknownVendor (pc_vendor cfg)))
           | Some module \<Rightarrow>
               let proto = vm_protocol module; registry = registry_for_module module in
               Some
                 (rbind
                    (case lc_tls (pc_listen cfg) of
                       None \<Rightarrow> Ok None
                     | Some tls \<Rightarrow> rmap Some (build_tls_config (en_server_tls env) tls))
                    (\<lambda>acceptor.
                     let log = open_discovery_log env cfg;
                         forward = select_forward env injected (pc_discover cfg) in
                     if \<not> en_bind_ok env (lc_host (pc_listen cfg)) (lc_port (pc_listen cfg)) then Err BindFailed
                     else
                       Ok (\<lparr> cx_state = state, cx_service = en_service env (pc_aws cfg), cx_registry = registry,
                             cx_protocol = proto, cx_discover = pc_discover cfg, cx_forward = forward,
                             cx_idle_timeout = lc_read_timeout_secs (pc_listen cfg),
                             cx_clock = en_clock env, cx_write = en_write env \<rparr>,
                           \<lparr> sh_world = w', sh_request_seq = 1, sh_log = log \<rparr>, acceptor))))
      | Some (w', _) \<Rightarrow> Some Panic)"

definition server_run ::
    "'w start_env \<Rightarrow> 'w \<Rightarrow> proxy_config
      \<Rightarrow> ('w conn_ctx \<times> 'w shared \<times> server_tls option, startup_error) res option" where
  "server_run env w cfg = run_with env w cfg [ThalesModule] None"

lemma build_tls_config_OkD:
  "build_tls_config env tls = Ok sv \<Longrightarrow>
     sv = \<lparr> sv_cert_file = tc_cert_file tls, sv_key_file = tc_key_file tls,
            sv_client_verifier = tc_ca_file tls \<rparr>"
  by (auto simp: build_tls_config_def rbind_Ok_iff split: if_splits option.splits bool.splits)

text \<open>What the built-in start-up serves with.\<close>

lemma server_run_OkD:
  assumes "server_run env w cfg = Some (Ok (ctx, sh, acceptor))"
  shows "pc_vendor cfg = ascii ''thales_payshield''"
    and "cx_protocol ctx = ThalesPayShield" and "cx_registry ctx = registry_build"
    and "cx_forward ctx = select_forward env None (pc_discover cfg)"
    and "cx_discover ctx = pc_discover cfg" and "cx_service ctx = en_service env (pc_aws cfg)"
    and "map_option sv_client_verifier acceptor = map_option tc_ca_file (lc_tls (pc_listen cfg))"
    and "sh_request_seq sh = 1" and "\<forall>dl. sh_log sh = Some dl \<longrightarrow> log_ok dl"
  using assms
  by (auto simp: server_run_def run_with_def Let_def rbind_Ok_iff registry_build_def ThalesModule_def
      log_ok_def logged_codes_def open_discovery_log_def discovery_open_def List.map_filter_def
      dest: build_tls_config_OkD split: option.splits res.splits if_splits prod.splits)

lemma server_run_state:
  assumes "server_run env w cfg = Some (Ok (ctx, sh, acceptor))"
  shows "load_key_map (en_control env (pc_aws cfg)) w (map_of (pc_key_mappings cfg)) =
      Some (sh_world sh, Ok (st_key_map (cx_state ctx)))"
    and "build_ok (cx_state ctx) = en_build_ok env" and "cx_write ctx = en_write env" and "cx_clock ctx = en_clock env"
    and "sh_log sh = open_discovery_log env cfg"
  using assms
  by (auto simp: server_run_def run_with_def Let_def rbind_Ok_iff split: option.splits res.splits if_splits prod.splits)

section \<open>Properties\<close>

text \<open>
  C1: however the bytes of a sequence of well-formed payShield commands, followed by an
  incomplete tail, are split into reads, the connection writes the responses of the abstract server that
  answers the commands one by one, ends the way it ends, and keeps exactly the tail.
\<close>

theorem connection_refines:
  assumes "cx_protocol ctx = ThalesPayShield" and "\<forall>cmd \<in> set cmds. well_formed_command cmd"
    and "thales_parse tail = Ok None" and "length tail < 65538"
    and "\<forall>ch \<in> set chunks. ch \<noteq> [] \<and> length ch \<le> READ_BUF"
    and "concat chunks = concat (map request_frame cmds) @ tail"
    and "serve_commands request_frame ctx sh cmds = (sh', outs, e)"
  shows "\<exists>b. handle_connection ctx sh (map ReadBytes chunks) =
      Some (\<lparr> cn_shared = sh', cn_buf = b, cn_out = outs \<rparr>, case e of None \<Rightarrow> Waiting | Some e' \<Rightarrow> e')
    \<and> (e = None \<longrightarrow> b = tail)"
proof -
  define c where "c = \<lparr> cn_shared = sh, cn_buf = [], cn_out = [] \<rparr>"
  have cap: "length tail + READ_BUF \<le> MAX_INBOUND_ACCUMULATION"
    "length (cn_buf c) + READ_BUF \<le> MAX_INBOUND_ACCUMULATION"
    using assms(4) by (simp_all add: c_def READ_BUF_def MAX_INBOUND_ACCUMULATION_def)
  have "p_parse (cx_protocol ctx) = thales_parse" by (simp add: assms(1))
  from thales_stream.conn_loop_frames [OF this assms(3) cap(1) assms(2,5) _ _ cap(2), of sh' outs e "[]"]
    assms(6,7)
  show ?thesis
    by (auto simp: c_def handle_connection_def thales_parse_short Let_def split: option.splits)
qed

definition echo_ctx :: "unit conn_ctx" where
  "echo_ctx =
     \<lparr> cx_state = \<lparr> st_key_map = key_map_new Map.empty, build_ok = (\<lambda>_. True) \<rparr>,
       cx_service = (\<lambda>w rq. (w, ApcErr)), cx_registry = registry_build,
       cx_protocol = ThalesPayShield, cx_discover = None, cx_forward = no_forward_leg,
       cx_idle_timeout = None, cx_clock = (\<lambda>_. 0), cx_write = (\<lambda>w _. (w, True)) \<rparr>"

definition heartbeat :: parsed_command where
  "heartbeat = \<lparr> header = (1, 2), command_code = ascii ''B2'', cmd_payload = [], frame_len = 6 \<rparr>"

lemma heartbeat_frame: "request_frame heartbeat = [0, 4, 1, 2, 0x42, 0x32]"
  by (simp add: request_frame_def heartbeat_def u16_to_be_bytes_def ascii_def unat_of_nat)

lemma registry_get_B2: "registry_get registry_build (ascii ''B2'') = Some HeartbeatHandler"
  by (rule registry_get_declared)
    (simp_all add: registered_handlers_def thales_handlers_def HeartbeatHandler_def mk_handler_def)

lemma echo_heartbeat:
  "respond echo_ctx sh buf heartbeat =
     (sh\<lparr> sh_request_seq := sh_request_seq sh + 1 \<rparr>, Some (Ok [0, 6, 1, 2, 0x42, 0x33, 0x30, 0x30]))"
  by (simp add: respond_def echo_ctx_def heartbeat_def registry_get_B2 HeartbeatHandler_def
      mk_handler_def heartbeat_handle_def ThalesPayShield_def Let_def success_def
      thales_frame_response_def u16_to_be_bytes_def unat_of_nat)
    (simp add: ascii_def thales_response_code_def get_def)

lemma echo_write: "cx_write echo_ctx w out = (w, True)"
  by (simp add: echo_ctx_def)

theorem connection_refines_witness:
  "\<exists>b sh'. handle_connection echo_ctx \<lparr> sh_world = (), sh_request_seq = 1, sh_log = None \<rparr>
      (map ReadBytes [[0, 4, 1], [2, 0x42, 0x32, 0, 4], [1, 2, 0x42, 0x32, 0]]) =
    Some (\<lparr> cn_shared = sh', cn_buf = b,
      cn_out = [[0, 6, 1, 2, 0x42, 0x33, 0x30, 0x30], [0, 6, 1, 2, 0x42, 0x33, 0x30, 0x30]] \<rparr>, Waiting)
    \<and> b = [0]"
proof -
  define sh where "sh = \<lparr> sh_world = (), sh_request_seq = 1, sh_log = None \<rparr>"
  obtain sh' where "serve_commands request_frame echo_ctx sh [heartbeat, heartbeat] =
      (sh', [[0, 6, 1, 2, 0x42, 0x33, 0x30, 0x30], [0, 6, 1, 2, 0x42, 0x33, 0x30, 0x30]], None)"
    by (simp add: echo_heartbeat echo_write)
  from connection_refines [OF _ _ _ _ _ _ this, of "[0]" "[[0, 4, 1], [2, 0x42, 0x32, 0, 4], [1, 2, 0x42, 0x32, 0]]"]
  show ?thesis
    by (auto simp: sh_def [symmetric] heartbeat_frame thales_parse_short READ_BUF_def)
      (auto simp: echo_ctx_def heartbeat_def well_formed_command_def)
qed

text \<open>
  C22: under payShield framing the connection loop returns for every sequence of read events,
  whatever the service, the forward leg and the peer do, and its buffer never exceeds the
  accumulation cap by more than one read.
\<close>

theorem connection_bounded:
  assumes "cx_protocol ctx = ThalesPayShield"
    and "\<forall>ch. ReadBytes ch \<in> set evs \<longrightarrow> length ch \<le> READ_BUF"
  shows "\<exists>c e. handle_connection ctx sh evs = Some (c, e) \<and> length (cn_buf c) \<le> 256 * 1024 + 4096"
proof -
  from assms(1) have "p_parse (cx_protocol ctx) = thales_parse" by simp
  from thales.conn_loop_ends [OF this assms(2), of "\<lparr> cn_shared = sh, cn_buf = [], cn_out = [] \<rparr>"]
  show ?thesis by (auto simp: handle_connection_def MAX_INBOUND_ACCUMULATION_def READ_BUF_def)
qed

theorem connection_bounded_witness:
  "\<exists>c e. handle_connection echo_ctx \<lparr> sh_world = (), sh_request_seq = 1, sh_log = None \<rparr>
      [ReadBytes [0, 4, 1], ReadErr] = Some (c, e) \<and> length (cn_buf c) \<le> 256 * 1024 + 4096"
  by (rule connection_bounded) (auto simp: echo_ctx_def READ_BUF_def)

text \<open>The leg the built-in start-up selects is a sound one.\<close>

lemma select_forward_sound: "sound_leg (select_forward env None d)"
  using endpoint_leg.sound_leg_axioms no_leg.sound_leg_axioms
  by (auto simp: select_forward_def split: option.splits)

section \<open>Sample configuration of the witnesses\<close>

definition demo_env :: "unit start_env" where
  "demo_env =
     \<lparr> en_control = (\<lambda>_ w rq. (w, Some \<lparr> lk_keys = [], lk_next_token = None \<rparr>)),
       en_service = (\<lambda>_ w rq. (w, ApcErr)), en_build_ok = (\<lambda>_. True),
       en_client_tls = \<lparr> te_ca_ok = (\<lambda>_. True), te_versions_ok = True, te_cert_ok = (\<lambda>_. True),
         te_key_ok = (\<lambda>_. True), te_client_auth_ok = (\<lambda>_ _. True), te_server_name_ok = (\<lambda>_. True) \<rparr>,
       en_server_tls = \<lparr> se_certs_ok = (\<lambda>_. True), se_private_key = (\<lambda>_. Some True),
         se_ca_ok = (\<lambda>_. True), se_verifier_ok = (\<lambda>_. True), se_versions_ok = True,
         se_single_cert_ok = (\<lambda>_ _. True) \<rparr>,
       en_connect = (\<lambda>w _. (w, \<lparr> ns_connect = IoErr, ns_handshake = IoOk, ns_write = IoOk, ns_reads = [] \<rparr>)),
       en_log_opens = (\<lambda>_. True), en_bind_ok = (\<lambda>_ _. True), en_clock = (\<lambda>_. 0),
       en_write = (\<lambda>w _. (w, True)) \<rparr>"

definition demo_discover :: discover_config where
  "demo_discover =
     \<lparr> dc_enabled = True, dc_hsm_host = ascii ''hsm'', dc_hsm_port = 1500,
       dc_log_file = Some (ascii ''d.log''), dc_hsm_read_timeout_secs = None, dc_tls = None \<rparr>"

definition demo_cfg :: proxy_config where
  "demo_cfg =
     \<lparr> pc_listen = default_listen_config, pc_vendor = ascii ''thales_payshield'',
       pc_aws = \<lparr> aw_region = ascii ''us-east-1'', aw_profile = None \<rparr>,
       pc_key_mappings = [], pc_discover = Some demo_discover \<rparr>"

lemma demo_run: "\<exists>ctx sh. server_run demo_env () demo_cfg = Some (Ok (ctx, sh, None))"
proof -
  have "serves (en_control demo_env (pc_aws demo_cfg)) () None (lk_keys \<lparr> lk_keys = [], lk_next_token = None \<rparr>) ()"
    by (rule last_page) (simp_all add: demo_env_def)
  from scan_apc_serves [OF this] show ?thesis
    by (simp add: server_run_def run_with_def load_key_map_def Let_def)
      (simp add: demo_cfg_def demo_env_def ThalesModule_def default_listen_config_def)
qed

text \<open>
  A buffer whose length prefix announces fewer than four bytes can never become a
  command: the connection answers nothing more, keeps every byte that arrives, and is closed
  exactly when the accumulation cap is passed.
\<close>

lemma malformed_head_stalls:
  assumes "cx_protocol ctx = ThalesPayShield" and "\<forall>ch \<in> set chunks. ch \<noteq> []"
    and "concat chunks = a # b # rest" and "u16_from_be_bytes a b < 4"
  shows "\<exists>buf. handle_connection ctx sh (map ReadBytes chunks) =
    Some (\<lparr> cn_shared = sh, cn_buf = buf, cn_out = [] \<rparr>,
      if length (concat chunks) > MAX_INBOUND_ACCUMULATION then Closed else Waiting)"
proof -
  define c where "c = \<lparr> cn_shared = sh, cn_buf = [], cn_out = [] \<rparr>"
  have "thales_parse (a # b # rest) = Ok None"
    using assms(4) by (auto simp: thales_parse_def index_def)
  then have "thales_parse (cn_buf c @ concat chunks) = Ok None" by (simp add: assms(3) c_def)
  from thales.conn_loop_stuck [OF _ this assms(2), of ctx] assms(1)
  show ?thesis by (simp add: c_def handle_connection_def)
qed

text \<open>
  C26: a command with no registered handler is refused with code 68 when discovery is absent or
  disabled; with discovery enabled its frame, and nothing but its frame, goes to the forward
  leg, and the answer is the leg's bytes or code 41 when the leg fails.
\<close>

theorem unhandled_command:
  assumes "cx_protocol ctx = ThalesPayShield" and "registry_get (cx_registry ctx) (command_code cmd) = None"
    and "well_formed_command cmd"
  shows "snd (respond ctx sh (request_frame cmd @ later) cmd) =
    (case cx_discover ctx of
       Some d \<Rightarrow>
         if dc_enabled d then
           (case snd (cx_forward ctx (sh_world sh) (request_frame cmd) ThalesPayShield) of
              Some (Err _) \<Rightarrow> Some (Ok (thales_frame_error (header cmd) (command_code cmd) (ascii ''41'')))
            | r \<Rightarrow> r)
         else Some (Ok (thales_frame_error (header cmd) (command_code cmd) (ascii ''68'')))
     | None \<Rightarrow> Some (Ok (thales_frame_error (header cmd) (command_code cmd) (ascii ''68''))))"
proof -
  have "slice (request_frame cmd @ later) 0 (frame_len cmd) = (Ok (request_frame cmd) :: (bytes, net_error) res)"
    using assms(3) by (simp add: slice_def request_frame_length [symmetric])
  with assms(1,2) show ?thesis
    by (auto simp: respond_def Let_def ThalesPayShield_def split: option.splits prod.splits res.splits)
qed

definition unknown_command :: parsed_command where
  "unknown_command = \<lparr> header = (1, 2), command_code = ascii ''ZZ'', cmd_payload = [], frame_len = 6 \<rparr>"

lemma registry_get_ZZ: "registry_get registry_build (ascii ''ZZ'') = None"
  by (simp only: registry_get_None_iff set_map image_iff ascii_inj registered_codes_def
      not_available_codes_def) simp

theorem unhandled_command_witness:
  "snd (respond echo_ctx \<lparr> sh_world = (), sh_request_seq = 1, sh_log = None \<rparr>
       (request_frame unknown_command @ []) unknown_command) =
     Some (Ok [0, 6, 1, 2, 0x5A, 0x5B, 0x36, 0x38])"
proof -
  have "snd (respond echo_ctx \<lparr> sh_world = (), sh_request_seq = 1, sh_log = None \<rparr> (request_frame unknown_command @ []) unknown_command) =
      Some (Ok (thales_frame_error (1, 2) (ascii ''ZZ'') (ascii ''68'')))"
    by (subst unhandled_command)
      (simp_all add: echo_ctx_def unknown_command_def well_formed_command_def registry_get_ZZ)
  then show ?thesis
    by (simp add: thales_frame_error_def thales_frame_response_def u16_to_be_bytes_def unat_of_nat
        thales_response_code_def get_def ascii_def)
qed

text \<open>
  The discovery log of a proxy holds one line per distinct command code it has seen,
  whatever commands arrive: serving keeps the invariant and adds no more than the code served.
\<close>

lemma discovery_log_once:
  assumes "sh_log sh = Some dl" and "log_ok dl" and "respond ctx sh buf cmd = (sh', r)"
  shows "\<exists>dl'. sh_log sh' = Some dl' \<and> log_ok dl'
    \<and> dl_seen dl' \<subseteq> insert (from_utf8_lossy (command_code cmd)) (dl_seen dl)"
proof -
  have "sh_log sh' = sh_log sh \<or>
      sh_log sh' = log_discovery_command (cx_protocol ctx) (cx_clock ctx (sh_world sh)) (command_code cmd)
        (cmd_payload cmd) (sh_log sh)"
    using assms(3) by (auto simp: respond_def Let_def split: option.splits prod.splits res.splits if_splits)
  with assms(1,2) show ?thesis
    by (auto simp: log_discovery_command_def log_ok_record dl_seen_record)
qed

end
