(* ===== verification/Hsm_Probe.thy ===== *)
theory Hsm_Probe
  imports Forward
begin

text \<open>
  The key-check-value probe against the source HSM (\<open>src/src/hsm_probe.rs\<close>): the \<open>BU\<close>
  payload candidates of a wire key form, the interpretation of the \<open>BV\<close> answer and the
  loop that sends the candidates over a forward leg. A probe may be waiting for the leg
  (\<open>None\<close>). The formatted texts of the malformed-response variants are kept as their
  ingredients.
\<close>

definition PROBE_HEADER :: "byte \<times> byte" where
  "PROBE_HEADER = (0x50, 0x42)"

datatype malformed_bv =
    IncompleteFrame nat
  | HeaderNotEchoed
  | WrongResponseCode bytes
  | MissingErrorCode
  | BadKcvField bytes

datatype probe_outcome =
    Kcv bytes
  | KeyTypeUnknown
  | CommandDisabled
  | HsmError malformed_bv
  | UnsupportedForm
  | Unreachable net_error

datatype bv_parse = BvKcv bytes | BvError bytes | BvMalformed malformed_bv

text \<open>\<open>apc.as_bytes()[..n].eq_ignore_ascii_case(&hsm.as_bytes()[..n])\<close> with \<open>n\<close> the common length up to 6.\<close>

definition kcv_matches :: "bytes \<Rightarrow> bytes \<Rightarrow> bool" where
  "kcv_matches apc hsm =
     (let n = min (min (length apc) (length hsm)) 6 in
      n > 0 \<and> eq_ignore_ascii_case (take n apc) (take n hsm))"

definition bu_candidates :: "bytes \<Rightarrow> bytes list option" where
  "bu_candidates key_form =
     (if starts_with (ascii ''S'') key_form \<and> length key_form > 1 then
        Some [ascii ''FFF'' @ key_form @ ascii '';FFF;001'']
      else
        let (len_flag, hex) =
          (case first key_form of
             Some b \<Rightarrow>
               if b = 0x55 then (ascii ''1'', drop 1 key_form)
               else if b = 0x54 then (ascii ''2'', drop 1 key_form)
               else (ascii ''0'', key_form)
           | None \<Rightarrow> (ascii ''0'', key_form));
          expected = (if len_flag = ascii ''0'' then 16 else if len_flag = ascii ''1'' then 32 else 48)
        in
        if length hex \<noteq> expected \<or> \<not> list_all is_ascii_hexdigit hex then None
        else Some (map (\<lambda>t. ascii t @ len_flag @ key_form @ ascii '';001'') [''01'', ''02'', ''03'', ''00'']))"

definition parse_bv :: "bytes \<Rightarrow> bv_parse result" where
  "parse_bv resp =
     rbind (thales_parse resp) (\<lambda>parsed.
     Ok (case parsed of
           None \<Rightarrow> BvMalformed (IncompleteFrame (length resp))
         | Some c \<Rightarrow>
             if header c \<noteq> PROBE_HEADER then BvMalformed HeaderNotEchoed
             else if command_code c \<noteq> ascii ''BV'' then
               BvMalformed (WrongResponseCode (from_utf8_lossy (command_code c)))
             else if length (cmd_payload c) < 2 then BvMalformed MissingErrorCode
             else
               let ecode = from_utf8_lossy (take 2 (cmd_payload c));
                   kcv_field = drop 2 (cmd_payload c) in
               if ecode \<noteq> ascii ''00'' then BvError ecode
               else
                 let kcv = to_ascii_uppercase (trim_end (from_utf8_lossy kcv_field)) in
                 if (length kcv \<noteq> 6 \<and> length kcv \<noteq> 16) \<or> \<not> list_all is_ascii_hexdigit kcv
                 then BvMalformed (BadKcvField kcv)
                 else BvKcv kcv))"

fun probe_candidates ::
    "'s forward_leg \<Rightarrow> bytes list \<Rightarrow> 's \<Rightarrow> 's \<times> (probe_outcome, net_error) res option" where
  "probe_candidates leg [] s = (s, Some (Ok KeyTypeUnknown))"
| "probe_candidates leg (p # ps) s =
     (case leg s (frame_request PROBE_HEADER (ascii ''BU'') p) ThalesPayShield of
        (s', None) \<Rightarrow> (s', None)
      | (s', Some (Err e)) \<Rightarrow> (s', Some (Ok (Unreachable e)))
      | (s', Some Panic) \<Rightarrow> (s', Some Panic)
      | (s', Some (Ok resp)) \<Rightarrow>
          (case parse_bv resp of
             Ok (BvKcv kcv) \<Rightarrow> (s', Some (Ok (Kcv kcv)))
           | Ok (BvError code) \<Rightarrow>
               if code = ascii ''68'' then (s', Some (Ok CommandDisabled))
               else probe_candidates leg ps s'
           | Ok (BvMalformed why) \<Rightarrow> (s', Some (Ok (HsmError why)))
           | _ \<Rightarrow> (s', Some Panic)))"

definition thales_kcv ::
    "'s forward_leg \<Rightarrow> bytes \<Rightarrow> 's \<Rightarrow> 's \<times> (probe_outcome, net_error) res option" where
  "thales_kcv leg key_form s =
     (case bu_candidates key_form of
        None \<Rightarrow> (s, Some (Ok UnsupportedForm))
      | Some candidates \<Rightarrow> probe_candidates leg candidates s)"

section \<open>Reading the answer\<close>

lemma is_ascii_hexdigit_upper: "is_ascii_hexdigit b \<Longrightarrow> is_ascii_hexdigit (ascii_upper b)"
proof -
  assume hex: "is_ascii_hexdigit b"
  have "unat (b - 0x20) = unat b - 32" if "0x61 \<le> b"
    using that by (simp add: unat_sub word_le_nat_alt)
  with hex show ?thesis
    by (auto simp: is_ascii_hexdigit_def ascii_upper_def word_le_nat_alt)
qed

lemma parse_bv_total: "\<exists>r. parse_bv resp = Ok r"
  using thales_parse_total [of resp] by (auto simp: parse_bv_def)

text \<open>The key check value in an answer is what the \<open>BV\<close> frame carries after \<open>00\<close>.\<close>

lemma parse_bv_KcvD:
  assumes "parse_bv resp = Ok (BvKcv kcv)"
  shows "\<exists>c. thales_parse resp = Ok (Some c) \<and> header c = PROBE_HEADER
    \<and> command_code c = ascii ''BV'' \<and> from_utf8_lossy (take 2 (cmd_payload c)) = ascii ''00''
    \<and> kcv = to_ascii_uppercase (trim_end (from_utf8_lossy (drop 2 (cmd_payload c))))"
    and "length kcv = 6 \<or> length kcv = 16" and "list_all is_ascii_hexdigit kcv"
    and "to_ascii_uppercase kcv = kcv"
  using assms
  by (auto simp: parse_bv_def rbind_Ok_iff Let_def split: option.splits if_splits)

text \<open>No whitespace character ends in an ASCII hexadecimal digit.\<close>

lemma whitespace_last: "list_all (\<lambda>w. w \<noteq> [] \<and> \<not> is_ascii_hexdigit (last w)) whitespace"
  by code_simp

lemma trim_end_hexdigit:
  assumes "list_all is_ascii_hexdigit s"
  shows "trim_end s = s"
proof (cases "rev s")
  case Nil
  then show ?thesis by (simp add: trim_end_def strip_any.simps starts_with_def whitespace_def)
next
  case (Cons b bs)
  then have "b \<in> set s" by (metis list.set_intros(1) set_rev)
  with assms have "is_ascii_hexdigit b" by (simp add: list_all_iff)
  then have "\<not> starts_with (rev w) (b # bs)" if "w \<in> set whitespace" for w
    using that whitespace_last by (cases w rule: rev_cases) (auto simp: list_all_iff starts_with_def)
  then have "find (\<lambda>p. p \<noteq> [] \<and> starts_with p (b # bs)) (map rev whitespace) = None"
    by (auto simp: find_None_iff)
  with Cons show ?thesis by (simp add: trim_end_def strip_any.simps)
qed

lemma hexdigits_is_ascii: "list_all is_ascii_hexdigit s \<Longrightarrow> is_ascii s"
  by (auto simp: list_all_iff is_ascii_def is_ascii_hexdigit_def word_le_nat_alt word_less_nat_alt)

lemma parse_bv_response:
  assumes kcv: "length kcv = 6 \<or> length kcv = 16" "list_all is_ascii_hexdigit kcv"
  shows "parse_bv (thales_frame_response PROBE_HEADER (ascii ''BV'') (ascii ''00'') kcv) =
    Ok (BvKcv (to_ascii_uppercase kcv))"
proof -
  define c where "c = \<lparr> header = PROBE_HEADER, command_code = ascii ''BV'',
    cmd_payload = ascii ''00'' @ kcv, frame_len = 8 + length kcv \<rparr>"
  have wf: "well_formed_command c" using kcv by (auto simp: c_def well_formed_command_def)
  have "thales_frame_response PROBE_HEADER (ascii ''BV'') (ascii ''00'') kcv = request_frame c"
    by (simp add: thales_frame_response_def request_frame_def c_def Let_def)
  then have "thales_parse (thales_frame_response PROBE_HEADER (ascii ''BV'') (ascii ''00'') kcv) =
      Ok (Some c)"
    using thales_parse_request [OF wf, of "[]"] by simp
  moreover have "from_utf8_lossy kcv = kcv" "trim_end kcv = kcv"
    using kcv(2) by (simp_all add: is_ascii_lossy_id hexdigits_is_ascii trim_end_hexdigit)
  moreover have "from_utf8_lossy (ascii ''00'') = ascii ''00''"
    by (simp add: is_ascii_lossy_id is_ascii_def ascii_def)
  moreover have "list_all is_ascii_hexdigit (to_ascii_uppercase kcv)"
    using kcv(2) by (auto simp: list_all_iff to_ascii_uppercase_def is_ascii_hexdigit_upper)
  ultimately show ?thesis using kcv(1) by (auto simp: parse_bv_def c_def)
qed

section \<open>The probe loop\<close>

text \<open>A key check value is reported only for an answer of the leg to one of the candidates.\<close>

lemma probe_candidates_Kcv:
  assumes "snd (probe_candidates leg ps s) = Some (Ok (Kcv kcv))"
  shows "\<exists>p \<in> set ps. \<exists>t resp.
    snd (leg t (frame_request PROBE_HEADER (ascii ''BU'') p) ThalesPayShield) = Some (Ok resp)
    \<and> parse_bv resp = Ok (BvKcv kcv)"
  using assms
proof (induction ps arbitrary: s)
  case (Cons p ps)
  obtain s' r where l: "leg s (frame_request PROBE_HEADER (ascii ''BU'') p) ThalesPayShield = (s', r)"
    by force
  show ?case
  proof (cases "\<exists>code. \<exists>resp. r = Some (Ok resp) \<and> parse_bv resp = Ok (BvError code)
      \<and> code \<noteq> ascii ''68''")
    case True
    with Cons.prems l have "snd (probe_candidates leg ps s') = Some (Ok (Kcv kcv))" by auto
    from Cons.IH [OF this] show ?thesis by auto
  next
    case False
    with Cons.prems l obtain resp where "r = Some (Ok resp)" "parse_bv resp = Ok (BvKcv kcv)"
      by (auto split: option.splits res.splits bv_parse.splits if_splits)
    with l show ?thesis by (metis list.set_intros(1) snd_conv)
  qed
qed simp

text \<open>The number of exchanges: a leg that also counts.\<close>

definition counting_leg :: "'s forward_leg \<Rightarrow> ('s \<times> nat) forward_leg" where
  "counting_leg leg = (\<lambda>(s, n) frame proto. case leg s frame proto of (s', r) \<Rightarrow> ((s', Suc n), r))"

lemma probe_candidates_count:
  "snd (fst (probe_candidates (counting_leg leg) ps (s, n))) \<le> n + length ps"
proof (induction ps arbitrary: s n)
  case (Cons p ps)
  obtain s' r where l: "leg s (frame_request PROBE_HEADER (ascii ''BU'') p) ThalesPayShield = (s', r)"
    by force
  have "snd (fst (probe_candidates (counting_leg leg) ps (s', Suc n))) \<le> Suc n + length ps"
    by (rule Cons.IH)
  then show ?case
    by (simp add: counting_leg_def l split: option.splits res.splits bv_parse.splits)
qed simp

lemma bu_candidates_length:
  "bu_candidates key_form = Some ps \<Longrightarrow> length ps = 1 \<or> length ps = 4"
  by (auto simp: bu_candidates_def Let_def split: if_splits option.splits prod.splits)

context sound_leg
begin

lemma probe_no_panic: "snd (probe_candidates leg ps s) \<noteq> Some Panic"
proof (induction ps arbitrary: s)
  case (Cons p ps)
  obtain s' r where l: "leg s (frame_request PROBE_HEADER (ascii ''BU'') p) ThalesPayShield = (s', r)"
    by force
  with leg_no_panic have "r \<noteq> Some Panic" by (metis snd_conv)
  moreover have "parse_bv x \<noteq> Panic \<and> (\<forall>e. parse_bv x \<noteq> Err e)" for x
    using parse_bv_total [of x] by auto
  ultimately show ?case
    using Cons.IH by (simp add: l split: option.splits res.splits bv_parse.splits)
qed simp

lemma thales_kcv_no_panic: "snd (thales_kcv leg key_form s) \<noteq> Some Panic"
  by (simp add: thales_kcv_def probe_no_panic split: option.splits)

end

section \<open>Comparing check values\<close>

lemma kcv_matches_iff:
  assumes "length apc = 6" and "6 \<le> length hsm"
  shows "kcv_matches apc hsm \<longleftrightarrow> to_ascii_uppercase apc = to_ascii_uppercase (take 6 hsm)"
  using assms by (simp add: kcv_matches_def eq_ignore_ascii_case_def Let_def min_def)

section \<open>Properties\<close>

text \<open>
  C35: the probe reports a check value only when the forward leg answered one of the \<open>BU\<close>
  candidates of this key form with a complete frame that echoes the probe header, carries the
  code \<open>BV\<close> and the error code \<open>00\<close>; the value is 6 or 16 upper-case hexadecimal digits.
\<close>

theorem probe_kcv_sound:
  assumes "snd (thales_kcv leg key_form s) = Some (Ok (Kcv v))"
  shows "(length v = 6 \<or> length v = 16) \<and> list_all is_ascii_hexdigit v \<and> to_ascii_uppercase v = v \<and>
    (\<exists>ps p t resp c. bu_candidates key_form = Some ps \<and> p \<in> set ps
      \<and> snd (leg t (frame_request PROBE_HEADER (ascii ''BU'') p) ThalesPayShield) = Some (Ok resp)
      \<and> thales_parse resp = Ok (Some c) \<and> header c = PROBE_HEADER \<and> command_code c = ascii ''BV''
      \<and> from_utf8_lossy (take 2 (cmd_payload c)) = ascii ''00'')"
proof -
  from assms obtain ps where ps: "bu_candidates key_form = Some ps"
      "snd (probe_candidates leg ps s) = Some (Ok (Kcv v))"
    by (auto simp: thales_kcv_def split: option.splits)
  from probe_candidates_Kcv [OF ps(2)] obtain p t resp where p: "p \<in> set ps"
      "snd (leg t (frame_request PROBE_HEADER (ascii ''BU'') p) ThalesPayShield) = Some (Ok resp)"
      "parse_bv resp = Ok (BvKcv v)"
    by blast
  note bv = parse_bv_KcvD [OF p(3)]
  from bv(1) ps(1) p(1,2) bv(2-) show ?thesis by blast
qed

definition demo_key :: bytes where
  "demo_key = ascii ''0123456789ABCDEF''"

definition agreeing_leg :: "unit forward_leg" where
  "agreeing_leg s frame proto =
     (s, Some (Ok (thales_frame_response PROBE_HEADER (ascii ''BV'') (ascii ''00'') (ascii ''08D7B4''))))"

lemma agreeing_leg_kcv: "snd (thales_kcv agreeing_leg demo_key ()) = Some (Ok (Kcv (ascii ''08D7B4'')))"
proof -
  have "parse_bv (thales_frame_response PROBE_HEADER (ascii ''BV'') (ascii ''00'') (ascii ''08D7B4'')) =
      Ok (BvKcv (to_ascii_uppercase (ascii ''08D7B4'')))"
    by (rule parse_bv_response) (simp_all add: ascii_def is_ascii_hexdigit_def)
  moreover have "to_ascii_uppercase (ascii ''08D7B4'') = ascii ''08D7B4''"
    by (simp add: ascii_def to_ascii_uppercase_def ascii_upper_def)
  moreover have "bu_candidates demo_key = Some (map (\<lambda>t. ascii t @ ascii ''0'' @ demo_key @ ascii '';001'')
      [''01'', ''02'', ''03'', ''00''])"
    by (simp add: bu_candidates_def demo_key_def ascii_def starts_with_def is_ascii_hexdigit_def)
  ultimately show ?thesis by (simp add: thales_kcv_def agreeing_leg_def)
qed

theorem probe_kcv_sound_witness:
  "\<exists>ps p t resp c. bu_candidates demo_key = Some ps \<and> p \<in> set ps
    \<and> snd (agreeing_leg t (frame_request PROBE_HEADER (ascii ''BU'') p) ThalesPayShield) = Some (Ok resp)
    \<and> thales_parse resp = Ok (Some c) \<and> command_code c = ascii ''BV''"
  using probe_kcv_sound [OF agreeing_leg_kcv] by blast

text \<open>A probe of one key form makes at most four exchanges, whatever the HSM answers.\<close>

lemma probe_at_most_four: "snd (fst (thales_kcv (counting_leg leg) key_form (s, n))) \<le> n + 4"
proof (cases "bu_candidates key_form")
  case (Some ps)
  with probe_candidates_count [of leg ps s n] bu_candidates_length [OF Some] show ?thesis
    by (auto simp: thales_kcv_def)
qed (simp add: thales_kcv_def)

text \<open>
  A probe over a configured HSM client never panics, whatever bytes the HSM returns and
  whatever text the mapping key is.
\<close>

theorem probe_never_panics:
  "snd (thales_kcv (hsm_client_leg client connect) key_form s) \<noteq> Some Panic"
  by (rule client_leg.thales_kcv_no_panic)

text \<open>
  An APC check value of six digits matches a returned one exactly when the first six
  digits agree up to letter case, whether the HSM returned 6 or 16 of them; an empty value
  matches nothing.
\<close>

lemma kcv_comparison:
  assumes "length apc = 6" and "6 \<le> length hsm"
  shows "kcv_matches apc hsm = (to_ascii_uppercase apc = to_ascii_uppercase (take 6 hsm))
    \<and> \<not> kcv_matches [] hsm \<and> \<not> kcv_matches apc []"
  using kcv_matches_iff [OF assms] by (simp add: kcv_matches_def)

end
