(* ===== verification/Verify.thy ===== *)
theory Verify
  imports Server Hsm_Probe
begin

text \<open>
  The \<open>--verify-only\<close> pass (\<open>src/src/verify.rs\<close>): the report, the check of one key, the choice
  of the leg the check values are probed through, and the pass itself. The report lines
  are kept as what they are about; the formatted text adds nothing. The mapping table is
  a hash map, so the pass is over the entries in any order.
\<close>

section \<open>The report\<close>

datatype key_check =
    KeyOk (kc_kcv: bytes) (kc_usage: bytes) (kc_algo: bytes)
  | NotFound
  | Disabled
  | WrongState key_state
  | ApiError bytes

datatype probe_note = NoProbe | HsmAgrees bytes | NotProbeable | TypesRejected | ProbeError malformed_bv

datatype line =
    Credentials
  | Inventory
  | KeyLine bytes bytes key_check probe_note
  | KeyMismatch bytes bytes bytes bytes
  | KeyFailed bytes bytes key_check
  | ProbeEnabled "(bytes \<times> 16 word) option"
  | ProbeSkippedVendor bytes
  | ProbeTls net_error
  | ProbeDisabled
  | ProbeUnreachable net_error
  | FileLine string bytes
  | PlaintextListener
  | ClientPairLine
  | PlaintextForward

record report =
  rp_ok :: "line list"
  rp_warnings :: "line list"
  rp_errors :: "line list"

definition report_empty :: report where
  "report_empty = \<lparr> rp_ok = [], rp_warnings = [], rp_errors = [] \<rparr>"

definition report_pass :: "line \<Rightarrow> report \<Rightarrow> report" where
  "report_pass l r = r\<lparr> rp_ok := rp_ok r @ [l] \<rparr>"

definition report_warn :: "line \<Rightarrow> report \<Rightarrow> report" where
  "report_warn l r = r\<lparr> rp_warnings := rp_warnings r @ [l] \<rparr>"

definition report_fail :: "line \<Rightarrow> report \<Rightarrow> report" where
  "report_fail l r = r\<lparr> rp_errors := rp_errors r @ [l] \<rparr>"

definition is_clean :: "report \<Rightarrow> bool" where
  "is_clean r \<longleftrightarrow> rp_errors r = []"

text \<open>The last segment of an ARN of the service, as the lines print it.\<close>

definition short :: "bytes \<Rightarrow> bytes" where
  "short arn_or_alias =
     (let prefix = ascii ''arn:aws:payment-cryptography:'' in
      if starts_with prefix arn_or_alias then
        let rest = drop (length prefix) arn_or_alias in
        (case position (\<lambda>b. b = 0x3A) (rev rest) of
           Some i \<Rightarrow> drop (length rest - i) rest
         | None \<Rightarrow> arn_or_alias)
      else arn_or_alias)"

section \<open>Checking one key\<close>

record apc_key =
  gk_key_state :: key_state
  gk_enabled :: bool
  gk_key_check_value :: bytes
  gk_key_attributes :: "key_attributes option"

datatype get_key_result = GetKeyOk "apc_key option" | GetKeyErr bytes

type_synonym 'w get_key_client = "'w \<Rightarrow> bytes \<Rightarrow> 'w \<times> get_key_result"

definition str_contains :: "bytes \<Rightarrow> bytes \<Rightarrow> bool" where
  "str_contains s pat \<longleftrightarrow> list_ex (\<lambda>i. starts_with pat (drop i s)) [0..<Suc (length s)]"

definition check_one_key :: "'w get_key_client \<Rightarrow> 'w \<Rightarrow> bytes \<Rightarrow> 'w \<times> key_check" where
  "check_one_key client w ident =
     (case client w ident of
        (w', GetKeyOk None) \<Rightarrow> (w', ApiError (ascii ''get_key returned no Key field''))
      | (w', GetKeyOk (Some key)) \<Rightarrow>
          (w', if gk_key_state key \<noteq> CreateComplete then WrongState (gk_key_state key)
               else if \<not> gk_enabled key then Disabled
               else case gk_key_attributes key of
                      None \<Rightarrow> ApiError (ascii ''get_key returned no KeyAttributes'')
                    | Some attrs \<Rightarrow>
                        KeyOk (gk_key_check_value key) (ka_key_usage attrs) (ka_key_algorithm attrs))
      | (w', GetKeyErr msg) \<Rightarrow>
          (w', if str_contains msg (ascii ''ResourceNotFoundException'') then NotFound else ApiError msg))"

section \<open>The pass\<close>

text \<open>\<open>ve_credentials\<close>: no provider, a provider that fails, credentials.\<close>

record 'w verify_env =
  ve_credentials :: "aws_config \<Rightarrow> bool option"
  ve_control :: "aws_config \<Rightarrow> 'w control_client"
  ve_get_key :: "aws_config \<Rightarrow> 'w get_key_client"
  ve_exists :: "bytes \<Rightarrow> bool"
  ve_client_tls :: tls_env
  ve_connect :: "'w \<Rightarrow> bytes \<Rightarrow> 'w \<times> net_script"

definition hsm_probe_target ::
    "'w verify_env \<Rightarrow> proxy_config \<Rightarrow> 'w forward_leg option \<Rightarrow> report
      \<Rightarrow> (report \<times> 'w forward_leg option, net_error) res" where
  "hsm_probe_target env cfg injected rp =
     (case pc_discover cfg of
        None \<Rightarrow> Ok (rp, None)
      | Some discover \<Rightarrow>
          if pc_vendor cfg \<noteq> ascii ''thales_payshield'' then
            Ok (report_warn (ProbeSkippedVendor (pc_vendor cfg)) rp, None)
          else
            (case injected of
               Some leg \<Rightarrow> Ok (report_pass (ProbeEnabled None) rp, Some leg)
             | None \<Rightarrow>
                 (case from_discover (ve_client_tls env) discover of
                    Ok client \<Rightarrow>
                      Ok (report_pass (ProbeEnabled (Some (dc_hsm_host discover, dc_hsm_port discover))) rp,
                          Some (hsm_client_leg client (ve_connect env)))
                  | Err e \<Rightarrow> Ok (report_fail (ProbeTls e) rp, None)
                  | Panic \<Rightarrow> Panic)))"

record 'w pass_state =
  ps_world :: 'w
  ps_report :: report
  ps_hsm :: "'w forward_leg option"
  ps_checked :: "bytes \<Rightarrow> key_check option"

text \<open>The outcome of a probe, turned into report lines; a fatal one also drops the leg.\<close>

fun report_probe ::
    "bytes \<Rightarrow> bytes \<Rightarrow> key_check \<Rightarrow> probe_outcome \<Rightarrow> 'w pass_state \<Rightarrow> 'w pass_state" where
  "report_probe lbl arn kc (Kcv h) ps =
     (if kcv_matches (kc_kcv kc) h then
        ps\<lparr> ps_report := report_pass (KeyLine lbl (short arn) kc (HsmAgrees h)) (ps_report ps) \<rparr>
      else
        ps\<lparr> ps_report := report_fail (KeyMismatch lbl (short arn) (kc_kcv kc) h) (ps_report ps) \<rparr>)"
| "report_probe lbl arn kc UnsupportedForm ps =
     ps\<lparr> ps_report := report_warn (KeyLine lbl (short arn) kc NotProbeable) (ps_report ps) \<rparr>"
| "report_probe lbl arn kc KeyTypeUnknown ps =
     ps\<lparr> ps_report := report_warn (KeyLine lbl (short arn) kc TypesRejected) (ps_report ps) \<rparr>"
| "report_probe lbl arn kc (HsmError e) ps =
     ps\<lparr> ps_report := report_warn (KeyLine lbl (short arn) kc (ProbeError e)) (ps_report ps) \<rparr>"
| "report_probe lbl arn kc CommandDisabled ps =
     ps\<lparr> ps_hsm := None,
         ps_report := report_pass (KeyLine lbl (short arn) kc NoProbe)
           (report_warn ProbeDisabled (ps_report ps)) \<rparr>"
| "report_probe lbl arn kc (Unreachable e) ps =
     ps\<lparr> ps_hsm := None,
         ps_report := report_pass (KeyLine lbl (short arn) kc NoProbe)
           (report_warn (ProbeUnreachable e) (ps_report ps)) \<rparr>"

text \<open>Each distinct identifier is looked up once.\<close>

definition ensure_checked :: "'w get_key_client \<Rightarrow> bytes \<Rightarrow> 'w pass_state \<Rightarrow> 'w pass_state" where
  "ensure_checked client arn ps =
     (if ps_checked ps arn \<noteq> None then ps
      else case check_one_key client (ps_world ps) arn of
             (w, kc) \<Rightarrow> ps\<lparr> ps_world := w, ps_checked := (ps_checked ps)(arn \<mapsto> kc) \<rparr>)"

text \<open>One turn of the loop over \<open>key_mappings\<close>; \<open>None\<close> is a probe that does not return.\<close>

definition check_entry ::
    "'w get_key_client \<Rightarrow> bytes \<times> bytes \<Rightarrow> 'w pass_state \<Rightarrow> ('w pass_state, net_error) res option" where
  "check_entry client e ps =
     (case e of (lbl, arn) \<Rightarrow>
        let ps = ensure_checked client arn ps in
        (case ps_checked ps arn of
           None \<Rightarrow> Some Panic
         | Some (KeyOk v usage algo) \<Rightarrow>
             (case ps_hsm ps of
                None \<Rightarrow>
                  Some (Ok (ps\<lparr> ps_report := report_pass
                    (KeyLine lbl (short arn) (KeyOk v usage algo) NoProbe) (ps_report ps) \<rparr>))
              | Some leg \<Rightarrow>
                  (case thales_kcv leg lbl (ps_world ps) of
                     (w, None) \<Rightarrow> None
                   | (w, Some (Ok outcome)) \<Rightarrow>
                       Some (Ok (report_probe lbl arn (KeyOk v usage algo) outcome (ps\<lparr> ps_world := w \<rparr>)))
                   | (w, Some (Err x)) \<Rightarrow> Some (Err x)
                   | (w, Some Panic) \<Rightarrow> Some Panic))
         | Some kc \<Rightarrow>
             Some (Ok (ps\<lparr> ps_report := report_fail (KeyFailed lbl (short arn) kc) (ps_report ps) \<rparr>))))"

fun check_entries ::
    "'w get_key_client \<Rightarrow> (bytes \<times> bytes) list \<Rightarrow> 'w pass_state \<Rightarrow> ('w pass_state, net_error) res option" where
  "check_entries client [] ps = Some (Ok ps)"
| "check_entries client (e # es) ps =
     (case check_entry client e ps of
        Some (Ok ps') \<Rightarrow> check_entries client es ps'
      | r \<Rightarrow> r)"

definition check_file_exists :: "'w verify_env \<Rightarrow> string \<Rightarrow> bytes \<Rightarrow> report \<Rightarrow> report" where
  "check_file_exists env lbl path rp =
     (if ve_exists env path then report_pass (FileLine lbl path) rp else report_fail (FileLine lbl path) rp)"

fun check_opt :: "'w verify_env \<Rightarrow> string \<Rightarrow> bytes option \<Rightarrow> report \<Rightarrow> report" where
  "check_opt env lbl (Some path) rp = check_file_exists env lbl path rp"
| "check_opt env lbl None rp = rp"

definition check_listen_tls :: "'w verify_env \<Rightarrow> tls_config option \<Rightarrow> report \<Rightarrow> report" where
  "check_listen_tls env tls rp =
     (case tls of
        Some t \<Rightarrow>
          check_opt env ''listen.tls.ca_file (mTLS)'' (tc_ca_file t)
            (check_file_exists env ''listen.tls.key_file'' (tc_key_file t)
              (check_file_exists env ''listen.tls.cert_file'' (tc_cert_file t) rp))
      | None \<Rightarrow> report_warn PlaintextListener rp)"

definition check_forward_tls :: "'w verify_env \<Rightarrow> discover_config option \<Rightarrow> report \<Rightarrow> report" where
  "check_forward_tls env discover rp =
     (case discover of
        None \<Rightarrow> rp
      | Some d \<Rightarrow>
          (case dc_tls d of
             Some t \<Rightarrow>
               let rp = check_opt env ''discover.tls.client_key_file (mTLS)'' (ft_client_key_file t)
                 (check_opt env ''discover.tls.client_cert_file (mTLS)'' (ft_client_cert_file t)
                   (check_file_exists env ''discover.tls.ca_file'' (ft_ca_file t) rp)) in
               (if (ft_client_cert_file t = None) \<noteq> (ft_client_key_file t = None)
                then report_fail ClientPairLine rp else rp)
           | None \<Rightarrow> if dc_enabled d then report_warn PlaintextForward rp else rp))"

text \<open>The pass: the report and the verdict.\<close>

definition verify_run ::
    "'w verify_env \<Rightarrow> 'w \<Rightarrow> proxy_config \<Rightarrow> 'w forward_leg option \<Rightarrow> (report \<times> bool, net_error) res option" where
  "verify_run env w cfg injected =
     (let aws = \<lparr> aw_region = aw_region (pc_aws cfg), aw_profile = None \<rparr>; rp = report_empty in
      case ve_credentials env aws of
        None \<Rightarrow> Some (Ok (report_fail Credentials rp, False))
      | Some False \<Rightarrow> Some (Ok (report_fail Credentials rp, False))
      | Some True \<Rightarrow>
          let rp = report_pass Credentials rp in
          (case scan_apc (ve_control env aws) w (key_map_new Map.empty) of
             None \<Rightarrow> None
           | Some (w', Panic) \<Rightarrow> Some Panic
           | Some (w', scan) \<Rightarrow>
               let rp = (case scan of Ok _ \<Rightarrow> report_pass Inventory rp | _ \<Rightarrow> report_warn Inventory rp) in
               (case hsm_probe_target env cfg injected rp of
                  Ok (rp, hsm) \<Rightarrow>
                    (case check_entries (ve_get_key env aws) (pc_key_mappings cfg)
                            \<lparr> ps_world = w', ps_report = rp, ps_hsm = hsm, ps_checked = Map.empty \<rparr> of
                       None \<Rightarrow> None
                     | Some (Ok ps) \<Rightarrow>
                         let rp = check_forward_tls env (pc_discover cfg)
                           (check_listen_tls env (lc_tls (pc_listen cfg)) (ps_report ps)) in
                         Some (Ok (rp, is_clean rp))
                     | Some (Err x) \<Rightarrow> Some (Err x)
                     | Some Panic \<Rightarrow> Some Panic)
                | Err x \<Rightarrow> Some (Err x)
                | Panic \<Rightarrow> Some Panic)))"

section \<open>The printed report\<close>

text \<open>
  What the pass prints, line by line; \<open>fmt\<close> is the text of a report line. \<open>verify_output\<close> is the whole
  output of a pass that ends with a report.
\<close>

definition rule_line :: bytes where
  "rule_line = concat (replicate 61 [0xE2, 0x94, 0x80])"

definition passed_line :: bytes where
  "passed_line = ascii ''Verification PASSED '' @ em_dash @ ascii '' config is ready to serve.''"

definition failed_line :: bytes where
  "failed_line = ascii ''Verification FAILED '' @ em_dash @ ascii '' fix errors before starting the proxy.''"

definition print_report :: "(line \<Rightarrow> bytes) \<Rightarrow> report \<Rightarrow> bytes list" where
  "print_report fmt rp =
     map (\<lambda>l. ascii ''  ok    '' @ fmt l) (rp_ok rp)
     @ map (\<lambda>l. ascii ''  warn  '' @ fmt l) (rp_warnings rp)
     @ map (\<lambda>l. ascii ''  FAIL  '' @ fmt l) (rp_errors rp)
     @ [rule_line]
     @ [display_nat (length (rp_ok rp)) @ ascii '' ok, '' @ display_nat (length (rp_warnings rp))
          @ ascii '' warning(s), '' @ display_nat (length (rp_errors rp)) @ ascii '' error(s)'']
     @ [if is_clean rp then passed_line else failed_line]"

definition verify_output :: "(line \<Rightarrow> bytes) \<Rightarrow> proxy_config \<Rightarrow> report \<Rightarrow> bytes list" where
  "verify_output fmt cfg rp =
     [ascii ''apc-proxy verify-only against '' @ aw_region (pc_aws cfg)] @ [rule_line] @ print_report fmt rp"

section \<open>What a clean report means\<close>

lemmas report_defs = report_pass_def report_warn_def report_fail_def report_empty_def is_clean_def

text \<open>Errors are never taken back.\<close>

lemma report_probe_errors: "\<exists>more. rp_errors (ps_report (report_probe lbl arn kc oc ps)) = rp_errors (ps_report ps) @ more"
  by (cases oc) (auto simp: report_defs)

lemma ensure_checked_report [simp]:
  "ps_report (ensure_checked client arn ps) = ps_report ps"
  "ps_hsm (ensure_checked client arn ps) = ps_hsm ps"
  by (simp_all add: ensure_checked_def split: prod.splits)

text \<open>What the cache holds is an answer of the service.\<close>

definition checked_ok :: "'w get_key_client \<Rightarrow> 'w pass_state \<Rightarrow> bool" where
  "checked_ok client ps \<longleftrightarrow>
     (\<forall>arn kc. ps_checked ps arn = Some kc \<longrightarrow> (\<exists>w. snd (check_one_key client w arn) = kc))"

lemma ensure_checked_ok:
  "checked_ok client ps \<Longrightarrow> checked_ok client (ensure_checked client arn ps)"
  "\<exists>kc. ps_checked (ensure_checked client arn ps) arn = Some kc"
  by (auto simp: checked_ok_def ensure_checked_def split: prod.splits) (metis snd_conv)

lemma report_probe_checked [simp]: "ps_checked (report_probe lbl arn kc oc ps) = ps_checked ps"
  by (cases oc) simp_all

text \<open>
  A turn that leaves no error behind has found a usable key and, where the HSM gave a check
  value, the same one.
\<close>

lemma check_entry_cases:
  assumes "check_entry client (lbl, arn) ps = Some (Ok ps')"
  obtains (ok) v usage algo where
      "ps_checked (ensure_checked client arn ps) arn = Some (KeyOk v usage algo)"
      "ps_hsm ps = None \<or> (\<exists>leg w oc. ps_hsm ps = Some leg \<and>
         thales_kcv leg lbl (ps_world (ensure_checked client arn ps)) = (w, Some (Ok oc)) \<and>
         (\<forall>h. oc = Kcv h \<and> rp_errors (ps_report ps') = [] \<longrightarrow> kcv_matches v h))"
      "ps_checked ps' = ps_checked (ensure_checked client arn ps)"
      "\<exists>more. rp_errors (ps_report ps') = rp_errors (ps_report ps) @ more"
  | (failed) "rp_errors (ps_report ps') \<noteq> []"
      "ps_checked ps' = ps_checked (ensure_checked client arn ps)"
      "\<exists>more. rp_errors (ps_report ps') = rp_errors (ps_report ps) @ more"
proof -
  define ps1 where "ps1 = ensure_checked client arn ps"
  have r1: "ps_report ps1 = ps_report ps" "ps_hsm ps1 = ps_hsm ps" by (simp_all add: ps1_def)
  obtain kc where kc: "ps_checked ps1 arn = Some kc"
    using ensure_checked_ok(2) unfolding ps1_def by blast
  show thesis
  proof (cases kc)
    case (KeyOk v usage algo)
    show thesis
    proof (cases "ps_hsm ps")
      case None
      with assms kc KeyOk r1 show thesis
        by (intro ok [of v usage algo]) (auto simp: check_entry_def ps1_def [symmetric] report_defs)
    next
      case (Some leg)
      with assms kc KeyOk r1 obtain w oc
        where oc: "thales_kcv leg lbl (ps_world ps1) = (w, Some (Ok oc))"
          and ps': "ps' = report_probe lbl arn kc oc (ps1\<lparr> ps_world := w \<rparr>)"
        by (auto simp: check_entry_def ps1_def [symmetric] split: prod.splits option.splits res.splits)
      have "kcv_matches v h" if "oc = Kcv h" "rp_errors (ps_report ps') = []" for h
        using that by (auto simp: ps' KeyOk report_defs split: if_splits)
      moreover have "\<exists>more. rp_errors (ps_report ps') = rp_errors (ps_report ps) @ more"
        using report_probe_errors [of lbl arn kc oc "ps1\<lparr> ps_world := w \<rparr>"] r1 by (simp add: ps')
      ultimately show thesis
        using Some oc kc KeyOk ps' by (intro ok [of v usage algo]) (auto simp: ps1_def)
    qed
  qed (use assms kc r1 in \<open>auto simp: check_entry_def ps1_def [symmetric] report_defs intro: failed\<close>)
qed

lemma check_one_key_KeyOk:
  assumes "snd (check_one_key client w arn) = KeyOk v usage algo"
  shows "\<exists>key. snd (client w arn) = GetKeyOk (Some key) \<and> gk_key_state key = CreateComplete
    \<and> gk_enabled key \<and> gk_key_check_value key = v"
  using assms by (auto simp: check_one_key_def split: prod.splits get_key_result.splits option.splits if_splits)

lemma check_entries_errors:
  assumes "check_entries client es ps = Some (Ok ps')"
  shows "\<exists>more. rp_errors (ps_report ps') = rp_errors (ps_report ps) @ more"
  using assms
proof (induction es arbitrary: ps)
  case (Cons e es)
  obtain lbl arn where e: "e = (lbl, arn)" by force
  from Cons.prems obtain ps1 where ps1: "check_entry client e ps = Some (Ok ps1)"
    "check_entries client es ps1 = Some (Ok ps')"
    by (auto split: option.splits res.splits)
  from ps1(1) [unfolded e] have "\<exists>more. rp_errors (ps_report ps1) = rp_errors (ps_report ps) @ more"
    by (cases rule: check_entry_cases) auto
  with Cons.IH [OF ps1(2)] show ?case by auto
qed simp

lemma check_entries_clean:
  assumes "check_entries client es ps = Some (Ok ps')" and "checked_ok client ps"
    and "rp_errors (ps_report ps') = []" and "(lbl, arn) \<in> set es"
  shows "\<exists>w v usage algo. snd (check_one_key client w arn) = KeyOk v usage algo"
  using assms
proof (induction es arbitrary: ps)
  case (Cons e es)
  obtain l a where e: "e = (l, a)" by force
  from Cons.prems obtain ps1 where ps1: "check_entry client e ps = Some (Ok ps1)"
    "check_entries client es ps1 = Some (Ok ps')"
    by (auto split: option.splits res.splits)
  have clean: "rp_errors (ps_report ps1) = []"
    using check_entries_errors [OF ps1(2)] Cons.prems(3) by auto
  from ps1(1) [unfolded e] have "checked_ok client ps1 \<and>
      (\<exists>w v usage algo. snd (check_one_key client w a) = KeyOk v usage algo)"
  proof (cases rule: check_entry_cases)
    case (ok v usage algo)
    with ensure_checked_ok(1) [OF Cons.prems(2), of a] show ?thesis
      unfolding checked_ok_def by metis
  qed (use clean in simp)
  with Cons.IH [OF ps1(2)] Cons.prems(3,4) e show ?case by auto
qed simp

text \<open>The file checks add errors and never remove one.\<close>

lemma check_file_errors:
  "rp_errors (check_file_exists env lbl path rp) =
     rp_errors rp @ (if ve_exists env path then [] else [FileLine lbl path])"
  by (simp add: check_file_exists_def report_defs)

lemma check_opt_errors:
  "rp_errors (check_opt env lbl p rp) =
     rp_errors rp @ (case p of Some path \<Rightarrow> if ve_exists env path then [] else [FileLine lbl path] | None \<Rightarrow> [])"
  by (cases p) (simp_all add: check_file_errors)

lemma check_tls_errors:
  "\<exists>more. rp_errors (check_forward_tls env d (check_listen_tls env t rp)) = rp_errors rp @ more"
  by (auto simp: check_forward_tls_def check_listen_tls_def check_file_errors check_opt_errors Let_def
      report_warn_def report_fail_def split: option.splits)

text \<open>The pass returns what its report says, and the last line it prints says the same.\<close>

lemma verify_run_verdict: "verify_run env w cfg injected = Some (Ok (rp, ok)) \<Longrightarrow> ok = is_clean rp"
  by (auto simp: verify_run_def Let_def report_fail_def is_clean_def split: option.splits bool.splits res.splits prod.splits)

lemma verify_output_verdict:
  assumes "verify_run env w cfg injected = Some (Ok (rp, ok))"
  shows "last (verify_output fmt cfg rp) = passed_line \<longleftrightarrow> ok"
proof -
  have "passed_line \<noteq> failed_line" by (simp add: passed_line_def failed_line_def ascii_def)
  then show ?thesis using verify_run_verdict [OF assms] by (simp add: verify_output_def print_report_def)
qed

text \<open>A successful pass, taken apart.\<close>

lemma verify_run_OkE:
  assumes "verify_run env w cfg injected = Some (Ok (rp, True))"
  obtains w' rp0 hsm ps where
    "check_entries (ve_get_key env \<lparr> aw_region = aw_region (pc_aws cfg), aw_profile = None \<rparr>)
       (pc_key_mappings cfg) \<lparr> ps_world = w', ps_report = rp0, ps_hsm = hsm, ps_checked = Map.empty \<rparr>
       = Some (Ok ps)"
    "rp = check_forward_tls env (pc_discover cfg) (check_listen_tls env (lc_tls (pc_listen cfg)) (ps_report ps))"
    "rp_errors rp = []" "rp_errors (ps_report ps) = []" "rp_errors rp0 = []"
proof -
  from assms obtain w' rp0 hsm ps where *:
    "check_entries (ve_get_key env \<lparr> aw_region = aw_region (pc_aws cfg), aw_profile = None \<rparr>)
       (pc_key_mappings cfg) \<lparr> ps_world = w', ps_report = rp0, ps_hsm = hsm, ps_checked = Map.empty \<rparr>
       = Some (Ok ps)"
    "rp = check_forward_tls env (pc_discover cfg) (check_listen_tls env (lc_tls (pc_listen cfg)) (ps_report ps))"
    "rp_errors rp = []"
    unfolding verify_run_def Let_def is_clean_def
    by (auto split: option.splits bool.splits res.splits prod.splits)
  then have "rp_errors (ps_report ps) = []" using check_tls_errors by (metis append_is_Nil_conv)
  moreover from this check_entries_errors [OF *(1)] have "rp_errors rp0 = []" by auto
  ultimately show thesis using * that by blast
qed

text \<open>The TLS files a configuration names.\<close>

definition tls_files :: "proxy_config \<Rightarrow> bytes list" where
  "tls_files cfg =
     (case lc_tls (pc_listen cfg) of
        None \<Rightarrow> []
      | Some t \<Rightarrow> tc_cert_file t # tc_key_file t # List.map_filter id [tc_ca_file t]) @
     (case pc_discover cfg of
        None \<Rightarrow> []
      | Some d \<Rightarrow>
          (case dc_tls d of
             None \<Rightarrow> []
           | Some t \<Rightarrow> ft_ca_file t # List.map_filter id [ft_client_cert_file t, ft_client_key_file t]))"

lemma check_file_clean:
  fixes opt :: "bytes option"
  shows "rp_errors (check_file_exists env lbl path rp) = [] \<longleftrightarrow> ve_exists env path \<and> rp_errors rp = []"
    and "rp_errors (check_opt env lbl opt rp) = [] \<longleftrightarrow> (\<forall>path. opt = Some path \<longrightarrow> ve_exists env path) \<and> rp_errors rp = []"
  by (cases opt; auto simp: check_file_exists_def report_defs)+

lemma check_tls_clean:
  assumes "rp_errors (check_forward_tls env (pc_discover cfg) (check_listen_tls env (lc_tls (pc_listen cfg)) rp)) = []"
  shows "list_all (ve_exists env) (tls_files cfg)"
  using assms unfolding tls_files_def check_forward_tls_def check_listen_tls_def Let_def
  by (auto simp: check_file_clean report_fail_def report_warn_def List.map_filter_def
      split: option.splits if_splits)

section \<open>Properties\<close>

text \<open>What a ready verdict says of a mapping and of the TLS files.\<close>

lemma verify_run_clean:
  assumes "verify_run env w cfg injected = Some (Ok (rp, True))"
  shows "\<forall>(lbl, arn) \<in> set (pc_key_mappings cfg). \<exists>v key.
      snd (ve_get_key env \<lparr> aw_region = aw_region (pc_aws cfg), aw_profile = None \<rparr> v arn) = GetKeyOk (Some key)
      \<and> gk_key_state key = CreateComplete \<and> gk_enabled key"
    and "list_all (ve_exists env) (tls_files cfg)"
proof -
  let ?client = "ve_get_key env \<lparr> aw_region = aw_region (pc_aws cfg), aw_profile = None \<rparr>"
  from assms obtain w' rp0 hsm ps where ps:
    "check_entries ?client (pc_key_mappings cfg)
       \<lparr> ps_world = w', ps_report = rp0, ps_hsm = hsm, ps_checked = Map.empty \<rparr> = Some (Ok ps)"
    and clean: "rp_errors (ps_report ps) = []"
    and rp: "rp = check_forward_tls env (pc_discover cfg) (check_listen_tls env (lc_tls (pc_listen cfg)) (ps_report ps))"
      "rp_errors rp = []"
    by (rule verify_run_OkE)
  have ok: "checked_ok ?client \<lparr> ps_world = w', ps_report = rp0, ps_hsm = hsm, ps_checked = Map.empty \<rparr>"
    by (simp add: checked_ok_def)
  have "\<exists>v key. snd (?client v arn) = GetKeyOk (Some key) \<and> gk_key_state key = CreateComplete \<and> gk_enabled key"
    if "(lbl, arn) \<in> set (pc_key_mappings cfg)" for lbl arn
    using check_entries_clean [OF ps ok clean that] check_one_key_KeyOk [of ?client] by meson
  then show "\<forall>(lbl, arn) \<in> set (pc_key_mappings cfg). \<exists>v key. snd (?client v arn) = GetKeyOk (Some key)
      \<and> gk_key_state key = CreateComplete \<and> gk_enabled key" by blast
  show "list_all (ve_exists env) (tls_files cfg)" by (rule check_tls_clean [OF rp(2) [unfolded rp(1)]])
qed

text \<open>What the pass reads of a configuration.\<close>

lemma verify_run_cong:
  assumes "aw_region (pc_aws cfg) = aw_region (pc_aws cfg')" and "pc_key_mappings cfg = pc_key_mappings cfg'"
    and "pc_discover cfg = pc_discover cfg'" and "pc_listen cfg = pc_listen cfg'"
    and "hsm_probe_target env cfg = hsm_probe_target env cfg'"
  shows "verify_run env w cfg injected = verify_run env w cfg' injected"
  unfolding verify_run_def assms ..

definition demo_verify_env :: "unit verify_env" where
  "demo_verify_env =
     \<lparr> ve_credentials = (\<lambda>_. Some True),
       ve_control = (\<lambda>_ w rq. (w, Some \<lparr> lk_keys = [], lk_next_token = None \<rparr>)),
       ve_get_key = (\<lambda>_ w i. (w, GetKeyOk (Some \<lparr> gk_key_state = CreateComplete, gk_enabled = True,
         gk_key_check_value = ascii ''08D7B4'', gk_key_attributes = Some \<lparr> ka_key_usage = ascii ''P0'', ka_key_algorithm = ascii ''TDES_2KEY'' \<rparr> \<rparr>))),
       ve_exists = (\<lambda>_. True),
       ve_client_tls = en_client_tls demo_env, ve_connect = en_connect demo_env \<rparr>"

definition demo_verify_cfg :: "bytes \<Rightarrow> proxy_config" where
  "demo_verify_cfg vendor =
     demo_cfg\<lparr> pc_vendor := vendor, pc_key_mappings := [(ascii ''ZPK1'', ascii ''alias/zpk'')],
               pc_discover := None \<rparr>"

lemma demo_verify_scan:
  "scan_apc (ve_control demo_verify_env aws) () km = Some ((), Ok (km\<lparr> kcv_index := kcv_index km \<rparr>))"
proof -
  have "serves (ve_control demo_verify_env aws) () None (lk_keys \<lparr> lk_keys = [], lk_next_token = None \<rparr>) ()"
    by (rule last_page) (simp_all add: demo_verify_env_def)
  from scan_apc_serves [OF this, of km] show ?thesis
    by (simp add: inventory_index_def [abs_def] inventory_arns_def List.map_filter_def)
qed

lemma demo_verify_clean:
  "\<exists>rp. verify_run demo_verify_env () (demo_verify_cfg vendor) None = Some (Ok (rp, True))"
proof -
  have "ve_credentials demo_verify_env aws = Some True" for aws by (simp add: demo_verify_env_def)
  then show ?thesis
    by (simp add: verify_run_def demo_verify_scan hsm_probe_target_def demo_verify_cfg_def demo_cfg_def Let_def)
      (simp add: demo_verify_env_def check_entry_def ensure_checked_def check_one_key_def Let_def
        check_forward_tls_def check_listen_tls_def default_listen_config_def report_defs)
qed

text \<open>
  The verification pass never looks at the configured credential profile: two
  configurations that differ in \<open>aws.profile\<close> only get the same report and the same verdict,
  although the server builds its clients from that profile.
\<close>

lemma verify_ignores_profile:
  "verify_run env w (cfg\<lparr> pc_aws := \<lparr> aw_region = r, aw_profile = p \<rparr> \<rparr>) injected =
   verify_run env w (cfg\<lparr> pc_aws := \<lparr> aw_region = r, aw_profile = q \<rparr> \<rparr>) injected"
  by (rule verify_run_cong) (simp_all add: hsm_probe_target_def fun_eq_iff split: option.split)

text \<open>
  Without a \<open>discover\<close> block the verdict does not depend on the vendor, while the server
  refuses to start for any vendor but the built-in one: a configuration can be declared ready
  that the proxy will not boot.
\<close>

lemma verify_misses_vendor:
  assumes "pc_discover cfg = None" and "vendor \<noteq> ascii ''thales_payshield''"
  shows "verify_run env w (cfg\<lparr> pc_vendor := vendor \<rparr>) injected = verify_run env w cfg injected
    \<and> server_run senv w (cfg\<lparr> pc_vendor := vendor \<rparr>) \<noteq> Some (Ok r)"
proof
  show "verify_run env w (cfg\<lparr> pc_vendor := vendor \<rparr>) injected = verify_run env w cfg injected"
    by (rule verify_run_cong) (simp_all add: hsm_probe_target_def fun_eq_iff assms(1))
  show "server_run senv w (cfg\<lparr> pc_vendor := vendor \<rparr>) \<noteq> Some (Ok r)"
    using server_run_OkD(1) [of senv w "cfg\<lparr> pc_vendor := vendor \<rparr>"] assms(2) by (cases r) auto
qed

end
