(* ===== verification/Command_Line.thy ===== *)
theory Command_Line
  imports Verify
begin

text \<open>
  The program itself (\<open>src/src/main.rs\<close>): the configuration file, and then either the verification
  pass with its exit status or the listener. Reading the file and \<open>serde_yaml::from_str\<close> are
  parameters, like the environments of the pass and of the server. Setting up the log output is
  left out.
\<close>

section \<open>The configuration file\<close>

datatype main_error = ConfigRead | ConfigParse | VerifyFailed net_error | StartFailed startup_error

record 'w main_env =
  me_read_to_string :: "bytes \<Rightarrow> bytes option"
  me_from_str :: "bytes \<Rightarrow> proxy_config option"
  me_verify :: "'w verify_env"
  me_server :: "'w start_env"

definition from_yaml :: "'w main_env \<Rightarrow> bytes \<Rightarrow> (proxy_config, main_error) res" where
  "from_yaml env path =
     rbind (ok_or ConfigRead (me_read_to_string env path)) (\<lambda>content.
     ok_or ConfigParse (me_from_str env content))"

section \<open>The program\<close>

record cli =
  cl_config :: bytes
  cl_verify_only :: bool

definition default_cli :: cli where
  "default_cli = \<lparr> cl_config = ascii ''proxy.yaml'', cl_verify_only = False \<rparr>"

text \<open>How the process stands: exited with a status, failed with an error, or listening.\<close>

datatype 'w main_outcome =
    Exit int
  | Failed main_error
  | Panicking
  | Listening "'w conn_ctx" "'w shared" "server_tls option"

definition main :: "'w main_env \<Rightarrow> 'w \<Rightarrow> cli \<Rightarrow> 'w main_outcome option" where
  "main env w cli =
     (case from_yaml env (cl_config cli) of
        Ok cfg \<Rightarrow>
          if cl_verify_only cli then
            (case verify_run (me_verify env) w cfg None of
               None \<Rightarrow> None
             | Some (Ok (_, ok)) \<Rightarrow> Some (Exit (if ok then 0 else 1))
             | Some (Err e) \<Rightarrow> Some (Failed (VerifyFailed e))
             | Some Panic \<Rightarrow> Some Panicking)
          else
            (case server_run (me_server env) w cfg of
               None \<Rightarrow> None
             | Some (Ok (ctx, sh, acceptor)) \<Rightarrow> Some (Listening ctx sh acceptor)
             | Some (Err e) \<Rightarrow> Some (Failed (StartFailed e))
             | Some Panic \<Rightarrow> Some Panicking)
      | Err e \<Rightarrow> Some (Failed e)
      | Panic \<Rightarrow> Some Panicking)"

text \<open>The status the shell sees: \<open>main\<close> returning an error is 1, a panic 101.\<close>

fun exit_status :: "'w main_outcome \<Rightarrow> int option" where
  "exit_status (Exit n) = Some n"
| "exit_status (Failed e) = Some 1"
| "exit_status Panicking = Some 101"
| "exit_status (Listening ctx sh acceptor) = None"

lemma main_exit_zero:
  assumes "main env w cli = Some out" and "exit_status out = Some 0"
  shows "cl_verify_only cli \<and> (\<exists>cfg rp. from_yaml env (cl_config cli) = Ok cfg
    \<and> verify_run (me_verify env) w cfg None = Some (Ok (rp, True)))"
  using assms by (auto simp: main_def split: res.splits option.splits if_splits prod.splits)

text \<open>A pass over a configuration without a \<open>discover\<close> block whose keys are all usable.\<close>

lemma check_entries_usable:
  assumes "\<And>lbl arn. (lbl, arn) \<in> set es \<Longrightarrow> \<exists>v u a. \<forall>w. snd (check_one_key client w arn) = KeyOk v u a"
    and "ps_hsm ps = None" and "rp_errors (ps_report ps) = []" and "checked_ok client ps"
  shows "\<exists>ps'. check_entries client es ps = Some (Ok ps') \<and> rp_errors (ps_report ps') = []"
  using assms
proof (induction es arbitrary: ps)
  case (Cons e es)
  obtain lbl arn where e: "e = (lbl, arn)" by force
  from Cons.prems(1) [of lbl arn] e obtain v u a where key: "\<forall>w. snd (check_one_key client w arn) = KeyOk v u a" by auto
  define ps1 where "ps1 = ensure_checked client arn ps"
  have ok1: "checked_ok client ps1" using ensure_checked_ok(1) [OF Cons.prems(4)] by (simp add: ps1_def)
  with ensure_checked_ok(2) [of client arn ps] key have "ps_checked ps1 arn = Some (KeyOk v u a)"
    by (fastforce simp: checked_ok_def ps1_def)
  then have step: "check_entry client e ps = Some (Ok (ps1\<lparr> ps_report := report_pass
      (KeyLine lbl (short arn) (KeyOk v u a) NoProbe) (ps_report ps1) \<rparr>))"
    using Cons.prems(2) by (simp add: check_entry_def e ps1_def [symmetric] Let_def) (simp add: ps1_def)
  have "\<exists>ps'. check_entries client es (ps1\<lparr> ps_report := report_pass
      (KeyLine lbl (short arn) (KeyOk v u a) NoProbe) (ps_report ps1) \<rparr>) = Some (Ok ps')
      \<and> rp_errors (ps_report ps') = []"
  proof (rule Cons.IH)
    show "\<exists>v u a. \<forall>w. snd (check_one_key client w arn') = KeyOk v u a" if "(lbl', arn') \<in> set es" for lbl' arn'
      using Cons.prems(1) [of lbl' arn'] that by simp
  qed (use Cons.prems(2,3) ok1 in \<open>simp_all add: ps1_def report_defs checked_ok_def\<close>)
  with step show ?case by simp
qed simp

lemma usable_key:
  assumes "\<forall>w. \<exists>w'. client w arn = (w', GetKeyOk (Some key))"
    and "gk_key_state key = CreateComplete" and "gk_enabled key" and "gk_key_attributes key = Some attrs"
  shows "\<exists>v u a. \<forall>w. snd (check_one_key client w arn) = KeyOk v u a"
proof (intro exI allI)
  fix w
  from assms(1) obtain w' where "client w arn = (w', GetKeyOk (Some key))" by blast
  with assms(2-) show "snd (check_one_key client w arn) =
      KeyOk (gk_key_check_value key) (ka_key_usage attrs) (ka_key_algorithm attrs)"
    by (simp add: check_one_key_def)
qed

lemma listen_tls_clean:
  "rp_errors rp = [] \<Longrightarrow> pc_discover cfg = None \<Longrightarrow> list_all (ve_exists env) (tls_files cfg) \<Longrightarrow>
    rp_errors (check_listen_tls env (lc_tls (pc_listen cfg)) rp) = []"
  by (auto simp: check_listen_tls_def tls_files_def check_file_clean report_warn_def List.map_filter_def
      split: option.splits)

definition demo_main_env :: "unit main_env" where
  "demo_main_env =
     \<lparr> me_read_to_string = (\<lambda>path. Some path),
       me_from_str = (\<lambda>_. Some (demo_verify_cfg (ascii ''thales_payshield''))),
       me_verify = demo_verify_env, me_server = demo_env \<rparr>"

lemma demo_from_yaml: "from_yaml demo_main_env path = Ok (demo_verify_cfg (ascii ''thales_payshield''))"
  by (simp add: from_yaml_def demo_main_env_def)

lemma demo_main: "main demo_main_env () (default_cli\<lparr> cl_verify_only := True \<rparr>) = Some (Exit 0)"
proof -
  obtain rp where "verify_run demo_verify_env () (demo_verify_cfg (ascii ''thales_payshield'')) None
      = Some (Ok (rp, True))"
    using demo_verify_clean by blast
  then show ?thesis by (simp add: main_def demo_from_yaml) (simp add: demo_main_env_def)
qed

section \<open>Properties\<close>

text \<open>
  C31: exit status 0 means ready. The program ends with status 0 only in verification mode, and then
  every entry of \<open>key_mappings\<close> was looked up and the service returned an enabled key in state
  \<open>CREATE_COMPLETE\<close> for it, and every TLS file the configuration names exists.
\<close>

theorem exit_zero_means_ready:
  assumes "main env w cli = Some out" and "exit_status out = Some 0"
  shows "cl_verify_only cli \<and> (\<exists>cfg. from_yaml env (cl_config cli) = Ok cfg
    \<and> (\<forall>(lbl, arn) \<in> set (pc_key_mappings cfg). \<exists>v key.
        snd (ve_get_key (me_verify env) \<lparr> aw_region = aw_region (pc_aws cfg), aw_profile = None \<rparr> v arn) = GetKeyOk (Some key)
        \<and> gk_key_state key = CreateComplete \<and> gk_enabled key)
    \<and> list_all (ve_exists (me_verify env)) (tls_files cfg))"
proof -
  from main_exit_zero [OF assms] obtain cfg rp where cfg: "cl_verify_only cli" "from_yaml env (cl_config cli) = Ok cfg"
    and run: "verify_run (me_verify env) w cfg None = Some (Ok (rp, True))" by blast
  from verify_run_clean [OF run] cfg show ?thesis by blast
qed

theorem exit_zero_means_ready_witness:
  "\<exists>v key. snd (ve_get_key demo_verify_env \<lparr> aw_region = ascii ''us-east-1'', aw_profile = None \<rparr> v (ascii ''alias/zpk''))
      = GetKeyOk (Some key) \<and> gk_key_state key = CreateComplete \<and> gk_enabled key"
proof -
  have "me_verify demo_main_env = demo_verify_env" by (simp add: demo_main_env_def)
  with exit_zero_means_ready [OF demo_main] show ?thesis
    by (auto simp: demo_from_yaml) (simp add: demo_verify_cfg_def demo_cfg_def)
qed

text \<open>
  C32: a ready configuration is recognised. In verification mode, with credentials, an inventory scan
  that returns, no \<open>discover\<close> block, TLS files that exist and mappings whose keys the service
  reports enabled and complete, the program ends with status 0.
\<close>

theorem ready_config_exits_zero:
  fixes env :: "'w main_env" and cfg :: proxy_config
  defines "aws \<equiv> \<lparr> aw_region = aw_region (pc_aws cfg), aw_profile = None \<rparr>"
  assumes "from_yaml env (cl_config cli) = Ok cfg" and "cl_verify_only cli" and "pc_discover cfg = None"
    and "ve_credentials (me_verify env) aws = Some True"
    and "scan_apc (ve_control (me_verify env) aws) w (key_map_new Map.empty) = Some (w', scan)" and "scan \<noteq> Panic"
    and "list_all (ve_exists (me_verify env)) (tls_files cfg)"
    and "\<And>lbl arn. (lbl, arn) \<in> set (pc_key_mappings cfg) \<Longrightarrow> \<exists>key attrs.
      (\<forall>v. \<exists>v'. ve_get_key (me_verify env) aws v arn = (v', GetKeyOk (Some key)))
      \<and> gk_key_state key = CreateComplete \<and> gk_enabled key \<and> gk_key_attributes key = Some attrs"
  shows "main env w cli = Some (Exit 0)"
proof -
  define rp where "rp = (case scan of Ok _ \<Rightarrow> report_pass Inventory (report_pass Credentials report_empty)
    | _ \<Rightarrow> report_warn Inventory (report_pass Credentials report_empty))"
  let ?ps = "\<lparr> ps_world = w', ps_report = rp, ps_hsm = None, ps_checked = Map.empty \<rparr>"
  have "\<exists>ps. check_entries (ve_get_key (me_verify env) aws) (pc_key_mappings cfg) ?ps = Some (Ok ps)
      \<and> rp_errors (ps_report ps) = []"
  proof (rule check_entries_usable)
    fix lbl arn assume "(lbl, arn) \<in> set (pc_key_mappings cfg)"
    from assms(9) [OF this] show "\<exists>v u a. \<forall>x. snd (check_one_key (ve_get_key (me_verify env) aws) x arn) = KeyOk v u a"
      using usable_key by metis
  qed (auto simp: rp_def report_defs checked_ok_def split: res.splits)
  then obtain ps where ps: "check_entries (ve_get_key (me_verify env) aws) (pc_key_mappings cfg) ?ps = Some (Ok ps)"
    "rp_errors (ps_report ps) = []" by blast
  let ?rp = "check_listen_tls (me_verify env) (lc_tls (pc_listen cfg)) (ps_report ps)"
  have "verify_run (me_verify env) w cfg None = Some (Ok (?rp, is_clean ?rp))"
    using assms(4-7) ps(1)
    unfolding verify_run_def Let_def aws_def [symmetric] hsm_probe_target_def check_forward_tls_def
    by (cases scan) (simp_all add: rp_def)
  moreover have "is_clean ?rp" using listen_tls_clean [OF ps(2) assms(4,8)] by (simp add: is_clean_def)
  ultimately show ?thesis using assms(2,3) by (simp add: main_def)
qed

theorem ready_config_exits_zero_witness:
  "main demo_main_env () (default_cli\<lparr> cl_verify_only := True \<rparr>) = Some (Exit 0)"
  by (rule ready_config_exits_zero [OF demo_from_yaml])
    (simp_all add: demo_main_env_def demo_verify_scan,
     simp_all add: demo_verify_env_def demo_verify_cfg_def demo_cfg_def tls_files_def default_listen_config_def)

end
