(* ===== verification/Key_Provenance.thy ===== *)
theory Key_Provenance
  imports Registry "HOL-Library.Sublist"
begin

text \<open>
  Where the keys of a request come from. A parser of a handler hands out the key fields of the
  payload and nothing else: the judgement \<open>yields\<close> follows the buffer through a parser of the
  field reader, and one fact per command says that the key descriptors of its fields were read
  from the payload the client sent.
\<close>

section \<open>Key fields of a payload\<close>

text \<open>The descriptor one of the key-field parsers reads somewhere in the payload.\<close>

definition key_field_of :: "bytes \<Rightarrow> key_descriptor \<Rightarrow> bool" where
  "key_field_of pl d \<longleftrightarrow>
     (\<exists>off n. parse_legacy_key pl off = Ok (d, n) \<or> parse_bdk pl off = Ok (d, n) \<or> parse_key_32 pl off = Ok (d, n))"

lemma key_field_ofI:
  "parse_legacy_key pl off = Ok (d, n) \<Longrightarrow> key_field_of pl d"
  "parse_bdk pl off = Ok (d, n) \<Longrightarrow> key_field_of pl d"
  "parse_key_32 pl off = Ok (d, n) \<Longrightarrow> key_field_of pl d"
  by (auto simp: key_field_of_def)

lemma sublist_take_drop: "sublist (take n (drop off xs)) xs"
  by (meson sublist_drop sublist_order.order_trans sublist_take)

text \<open>Its text is a stretch of the payload.\<close>

lemma key_field_raw:
  "parse_legacy_key pl off = Ok (d, n) \<Longrightarrow> raw d = from_utf8_lossy (take n (drop off pl))"
  "parse_bdk pl off = Ok (d, n) \<Longrightarrow> raw d = from_utf8_lossy (take n (drop off pl))"
  "parse_key_32 pl off = Ok (d, n) \<Longrightarrow> raw d = from_utf8_lossy (take n (drop off pl))"
  unfolding key_field_defs Let_def
  by (auto simp: parse_fixed_key_Ok_iff dest: parse_tr31_block_OkD(3) split: option.splits if_splits)

lemma key_field_text: "key_field_of pl d \<Longrightarrow> \<exists>w. sublist w pl \<and> raw d = from_utf8_lossy w"
  unfolding key_field_of_def using key_field_raw sublist_take_drop by metis

section \<open>What a parser hands out\<close>

definition yields :: "bytes \<Rightarrow> 'a parser \<Rightarrow> ('a \<Rightarrow> bool) \<Rightarrow> bool" where
  "yields buf p Q \<longleftrightarrow> (\<forall>r x r'. fr_buf r = buf \<longrightarrow> p r = Ok (x, r') \<longrightarrow> fr_buf r' = buf \<and> Q x)"

abbreviation keeps :: "bytes \<Rightarrow> 'a parser \<Rightarrow> bool" where
  "keeps buf p \<equiv> yields buf p (\<lambda>_. True)"

named_theorems yields_intros

lemma yields_pbind:
  assumes "yields buf p P" and "\<And>x. P x \<Longrightarrow> yields buf (f x) Q"
  shows "yields buf (pbind p f) Q"
  unfolding yields_def
proof (intro allI impI)
  fix r y r'
  assume r: "fr_buf r = buf" and "pbind p f r = Ok (y, r')"
  then obtain x r1 where "p r = Ok (x, r1)" "f x r1 = Ok (y, r')" by (auto simp: pbind_def rbind_Ok_iff)
  with assms r show "fr_buf r' = buf \<and> Q y" unfolding yields_def by blast
qed

lemma yields_preturn [yields_intros]: "Q x \<Longrightarrow> yields buf (preturn x) Q"
  by (simp add: yields_def preturn_def)

lemma yields_plift [yields_intros]: "(\<And>x. m = Ok x \<Longrightarrow> Q x) \<Longrightarrow> yields buf (plift m) Q"
  by (auto simp: yields_def plift_def)

lemma yields_if [yields_intros]:
  "(b \<Longrightarrow> yields buf p Q) \<Longrightarrow> (\<not> b \<Longrightarrow> yields buf q Q) \<Longrightarrow> yields buf (if b then p else q) Q"
  by simp

lemma yields_case_prod [yields_intros]:
  "(\<And>a b. p = (a, b) \<Longrightarrow> yields buf (f a b) Q) \<Longrightarrow> yields buf (case p of (a, b) \<Rightarrow> f a b) Q"
  by (cases p) simp

lemma keeps_take: "keeps buf (fr_take n)"
  by (auto simp: yields_def fr_take_def Let_def split: if_splits)

lemma keeps_parse_with: "keeps buf (fr_parse_with f)"
  by (auto simp: yields_def fr_parse_with_def rbind_Ok_iff)

lemma keeps_remaining: "keeps buf fr_remaining"
  by (auto simp: yields_def fr_remaining_def)

lemma keeps_plift: "keeps buf (plift m)"
  by (auto simp: yields_def plift_def)

lemma keeps_pbind: "keeps buf p \<Longrightarrow> (\<And>x. keeps buf (f x)) \<Longrightarrow> keeps buf (pbind p f)"
  by (rule yields_pbind)

lemmas keeps_basic = keeps_pbind keeps_take keeps_remaining keeps_plift keeps_parse_with yields_preturn yields_if TrueI

lemma keeps_derived:
  "keeps buf (fr_take_array n)" "keeps buf fr_byte" "keeps buf (fr_expect_byte b)" "keeps buf fr_u16_be"
  "keeps buf (fr_take_hex n)" "keeps buf (fr_take_lossy n)" "keeps buf (fr_take_ascii_len_field k radix)"
  "keeps buf (fr_take_ascii_len_hex k radix)" "keeps buf fr_pvki"
  unfolding fr_take_array_def fr_byte_def fr_expect_byte_def fr_u16_be_def fr_take_hex_def fr_take_lossy_def
    fr_take_ascii_len_field_def fr_take_ascii_len_hex_def fr_pvki_def
  by (intro keeps_basic)+

lemma yields_key:
  "yields buf (fr_parse_with parse_legacy_key) (key_field_of buf)" "yields buf (fr_parse_with parse_bdk) (key_field_of buf)"
  "yields buf (fr_parse_with parse_key_32) (key_field_of buf)"
  by (auto simp: yields_def fr_parse_with_def rbind_Ok_iff intro: key_field_ofI)

lemmas yields_keys [yields_intros] = yields_key [THEN yields_pbind]

lemma keeps_fields:
  "keeps buf fr_pan_seq" "keeps buf fr_txn_data" "keeps buf (fr_arpc_params m)" "keeps buf fr_message_hex"
  "keeps buf (fr_mac_to_verify v n)" "keeps buf (if v then pbind (fr_take_hex n) (\<lambda>u. preturn (Some u)) else preturn None)"
  unfolding fr_pan_seq_def fr_txn_data_def fr_message_hex_def fr_mac_to_verify_def
  by (intro keeps_basic keeps_derived | cases m; simp; intro keeps_basic keeps_derived)+

lemmas yields_steps [yields_intros] = keeps_take [THEN yields_pbind] keeps_remaining [THEN yields_pbind]
  keeps_plift [THEN yields_pbind] keeps_derived [THEN yields_pbind] keeps_fields [THEN yields_pbind]
  keeps_parse_with [of _ ksn_sub, THEN yields_pbind] keeps_parse_with [of _ pan_seq_sub, THEN yields_pbind]
  keeps_parse_with [of _ len_prefixed_sub, THEN yields_pbind]
  keeps_parse_with [of _ "if v then len_prefixed_sub else delimited_sub" for v, THEN yields_pbind]

lemma run_parser_yields: "yields buf p Q \<Longrightarrow> run_parser p buf = Ok x \<Longrightarrow> Q x"
  unfolding yields_def run_parser_def fr_new_def
  by (auto dest!: spec [of _ "\<lparr> fr_buf = buf, fr_pos = 0 \<rparr>"])

section \<open>The key fields of each command\<close>

named_theorems key_fields

text \<open>The commands read with the field reader.\<close>

lemma translate_keys [key_fields]:
  "parse_translate pl flag = Ok f \<Longrightarrow> key_field_of pl (pf_source_key f)"
  "parse_translate pl flag = Ok f \<Longrightarrow> key_field_of pl (pf_dest_key f)"
  unfolding parse_translate_def parse_translate_fields_def
  by (erule run_parser_yields [rotated], intro yields_intros, simp_all)+

lemma du_keys [key_fields]:
  "parse_du pl = Ok f \<Longrightarrow> key_field_of pl (du_enc_key_id f)"
  "parse_du pl = Ok f \<Longrightarrow> key_field_of pl (du_pvk_id f)"
  unfolding parse_du_def parse_du_fields_def
  by (erule run_parser_yields [rotated], intro yields_intros, simp_all)+

lemma cu_keys [key_fields]:
  "parse_cu pl = Ok f \<Longrightarrow> key_field_of pl (cu_enc_key_id f)"
  "parse_cu pl = Ok f \<Longrightarrow> key_field_of pl (cu_pvk_id f)"
  unfolding parse_cu_def parse_cu_fields_def
  by (erule run_parser_yields [rotated], intro yields_intros, simp_all)+

lemma ibm_keys [key_fields]:
  "parse_ibm pl = Ok f \<Longrightarrow> key_field_of pl (if_enc_key_id f)"
  "parse_ibm pl = Ok f \<Longrightarrow> key_field_of pl (if_pvk_id f)"
  unfolding parse_ibm_def parse_ibm_fields_def
  by (erule run_parser_yields [rotated], intro yields_intros, simp_all)+

lemma visa_keys [key_fields]:
  "parse_visa pl = Ok f \<Longrightarrow> key_field_of pl (vf_enc_key_id f)"
  "parse_visa pl = Ok f \<Longrightarrow> key_field_of pl (vf_pvk_id f)"
  unfolding parse_visa_def parse_visa_fields_def
  by (erule run_parser_yields [rotated], intro yields_intros, simp_all)+

lemma c2_keys [key_fields]:
  "parse_c2_payload pl v = Ok f \<Longrightarrow> key_field_of pl (mf_key_id f)"
  unfolding parse_c2_payload_def parse_c2_fields_def
  by (erule run_parser_yields [rotated], intro yields_intros, simp_all)+

lemma m6_keys [key_fields]:
  "parse_m6_payload pl v = Ok f \<Longrightarrow> key_field_of pl (mf_key_id f)"
  unfolding parse_m6_payload_def parse_m6_fields_def
  by (erule run_parser_yields [rotated], intro yields_intros, simp_all)+

lemma my_keys [key_fields]:
  "parse_my pl = Ok f \<Longrightarrow> key_field_of pl (mt_in_key_id f)"
  "parse_my pl = Ok f \<Longrightarrow> key_field_of pl (mt_out_key_id f)"
  unfolding parse_my_def parse_my_fields_def
  by (erule run_parser_yields [rotated], intro yields_intros, simp_all)+

lemma gw_keys [key_fields]:
  "parse_gw pl = Ok f \<Longrightarrow> key_field_of pl (gw_bdk_id f)"
  unfolding parse_gw_def parse_gw_fields_def
  by (erule run_parser_yields [rotated], intro yields_intros, simp_all)+

lemma kq_keys [key_fields]:
  "parse_kq pl = Ok f \<Longrightarrow> key_field_of pl (kq_key_id f)"
  unfolding parse_kq_def parse_kq_fields_def
  by (erule run_parser_yields [rotated], intro yields_intros, simp_all)+

lemma kw_keys [key_fields]:
  "parse_kw pl = Ok f \<Longrightarrow> key_field_of pl (kw_key_id f)"
  unfolding parse_kw_def parse_kw_fields_def
  by (erule run_parser_yields [rotated], intro yields_intros, simp_all)+

lemma js_keys [key_fields]:
  "parse_js pl = Ok f \<Longrightarrow> key_field_of pl (js_key_id f)"
  unfolding parse_js_def parse_js_fields_def
  by (erule run_parser_yields [rotated], intro yields_intros, simp_all)+

lemma cap_keys [key_fields]:
  "parse_cap pl k2 = Ok f \<Longrightarrow> key_field_of pl (cap_key_id f)"
  unfolding parse_cap_def parse_cap_fields_def
  by (erule run_parser_yields [rotated], intro yields_intros, simp_all)+

lemma k0_keys [key_fields]:
  "parse_k0 pl = Ok f \<Longrightarrow> key_field_of pl (k0_key_id f)"
  unfolding parse_k0_def parse_k0_fields_def
  by (erule run_parser_yields [rotated], intro yields_intros, simp_all)+

lemma ju_keys [key_fields]:
  "parse_ju pl = Ok f \<Longrightarrow> key_field_of pl (smi_key_id f)"
  unfolding parse_ju_def parse_ju_fields_def
  by (erule run_parser_yields [rotated], intro yields_intros, simp_all)+

lemma ku_keys [key_fields]:
  "parse_ku pl = Ok f \<Longrightarrow> key_field_of pl (smi_key_id f)"
  unfolding parse_ku_def parse_ku_fields_def
  by (erule run_parser_yields [rotated], intro yields_intros, simp_all)+

text \<open>A handler of several commands chooses the parser by the code.\<close>

lemma chosen_keys [key_fields]:
  "(if b then parse_m6_payload pl v else parse_c2_payload pl v) = Ok f \<Longrightarrow> key_field_of pl (mf_key_id f)"
  "(if b then parse_ju pl else if c then parse_ku pl else if e then Err e1 else Err e2) = Ok g
    \<Longrightarrow> key_field_of pl (smi_key_id g)"
  by (auto simp: key_fields split: if_splits)

lemma m0_keys [key_fields]:
  assumes "parse_m0_fields pl = Ok (d, w)"
  shows "key_field_of pl d"
proof -
  have "yields pl parse_m0_parser (\<lambda>x. key_field_of pl (fst x))"
    unfolding parse_m0_parser_def by (intro yields_intros; simp)
  from run_parser_yields [OF this] assms show ?thesis by (force simp: parse_m0_fields_def)
qed

text \<open>The commands read by hand.\<close>

lemma go_keys [key_fields]:
  "parse_go pl = Ok f \<Longrightarrow> key_field_of pl (go_bdk_id f)" "parse_go pl = Ok f \<Longrightarrow> key_field_of pl (go_pvk_id f)"
  unfolding parse_go_def Let_def
  by (auto simp: rbind_Ok_iff intro: key_field_ofI split: if_splits)

lemma cw_keys [key_fields]:
  "parse_cw pl = Ok f \<Longrightarrow> key_field_of pl (cw_cvk f)" "parse_cy pl = Ok g \<Longrightarrow> key_field_of pl (cy_cvk g)"
  unfolding parse_cw_def parse_cy_def Let_def
  by (auto simp: rbind_Ok_iff intro: key_field_ofI split: if_splits)

lemma key_and_data_keys [key_fields]: "parse_key_and_data pl = Ok (d, w) \<Longrightarrow> key_field_of pl d"
  unfolding parse_key_and_data_def Let_def
  by (auto simp: rbind_Ok_iff intro: key_field_ofI split: if_splits)

lemma m4_keys [key_fields]:
  "parse_m4 pl = Ok (d, e, w) \<Longrightarrow> key_field_of pl d" "parse_m4 pl = Ok (d, e, w) \<Longrightarrow> key_field_of pl e"
  unfolding parse_m4_def Let_def
  by (auto simp: rbind_Ok_iff intro: key_field_ofI split: if_splits)

end
