(* ===== verification/Discipline.thy ===== *)
theory Discipline
  imports Key_Provenance
begin

text \<open>
  What every registered handler keeps of the service boundary, whatever the payload: it sends at
  most two requests, it names only keys that a key field of the payload resolves to,
  a refused request is its last one and becomes an error code, and so \<open>00\<close> is answered only when
  the service accepted everything. The handlers are interaction trees, so the discipline is a
  recursive predicate on trees with one rule per idiom of the handlers.
\<close>

section \<open>Disciplined interactions\<close>

text \<open>\<open>disciplined R io n\<close>: at most \<open>n\<close> requests, all of them in \<open>R\<close>, the first refusal is final.\<close>

primrec disciplined :: "(apc_request \<Rightarrow> bool) \<Rightarrow> handler_result io \<Rightarrow> nat \<Rightarrow> bool" where
  "disciplined R (Done x) = (\<lambda>n. True)"
| "disciplined R Panicked = (\<lambda>n. True)"
| "disciplined R (Call rq k) = (\<lambda>n. 0 < n \<and> R rq \<and> (\<forall>out. disciplined R (k (ApcOk out)) (n - 1))
     \<and> (\<exists>e. k ApcVerificationFailed = Done (from_proxy_error e))
     \<and> (\<exists>e. k ApcErr = Done (from_proxy_error e)))"

named_theorems disc_intros

lemma disciplined_Done [disc_intros]: "disciplined R (Done x) n"
  by simp

lemma disciplined_Panicked [disc_intros]: "disciplined R Panicked n"
  by simp

lemma disciplined_on_ok [disc_intros]:
  "R rq \<Longrightarrow> (\<And>out. disciplined R (k out) n) \<Longrightarrow> disciplined R (Call rq (on_ok k)) (Suc n)"
  by auto

lemma disciplined_on_verify [disc_intros]:
  "R rq \<Longrightarrow> (\<And>out. disciplined R (k out) n) \<Longrightarrow> disciplined R (Call rq (on_verify k)) (Suc n)"
  by auto

lemma disciplined_with_res [disc_intros]:
  "(\<And>x. r = Ok x \<Longrightarrow> disciplined R (k x) n) \<Longrightarrow> disciplined R (with_res r k) n"
  by (cases r) auto

lemma disciplined_if [disc_intros]:
  "(b \<Longrightarrow> disciplined R p n) \<Longrightarrow> (\<not> b \<Longrightarrow> disciplined R q n) \<Longrightarrow> disciplined R (if b then p else q) n"
  by simp

lemma disciplined_case_prod [disc_intros]:
  "(\<And>a b. p = (a, b) \<Longrightarrow> disciplined R (f a b) n) \<Longrightarrow> disciplined R (case p of (a, b) \<Rightarrow> f a b) n"
  by (cases p) simp

lemma disciplined_case_option [disc_intros]:
  "(x = None \<Longrightarrow> disciplined R p n) \<Longrightarrow> (\<And>y. x = Some y \<Longrightarrow> disciplined R (f y) n)
    \<Longrightarrow> disciplined R (case x of None \<Rightarrow> p | Some y \<Rightarrow> f y) n"
  by (cases x) simp_all

lemma disciplined_case_pin_data [disc_intros]:
  "(\<And>y. x = PinOffset y \<Longrightarrow> disciplined R (f y) n) \<Longrightarrow> (\<And>y. x = VerificationValue y \<Longrightarrow> disciplined R (g y) n)
    \<Longrightarrow> (x = UnknownPinData \<Longrightarrow> disciplined R p n)
    \<Longrightarrow> disciplined R (case x of PinOffset y \<Rightarrow> f y | VerificationValue y \<Rightarrow> g y | UnknownPinData \<Rightarrow> p) n"
  by (cases x) simp_all

text \<open>What a run of a disciplined tree looks like.\<close>

lemma disciplined_trace:
  assumes "disciplined R io n"
  shows "length (trace svc io s) \<le> n \<and> list_all R (map fst (trace svc io s))
    \<and> (\<forall>x \<in> set (butlast (trace svc io s)). \<exists>out. snd x = ApcOk out)"
  using assms
proof (induction io arbitrary: n s)
  case (Call rq k)
  obtain s' res where sv: "svc s rq = (s', res)" by force
  show ?case
  proof (cases "\<exists>out. res = ApcOk out")
    case True
    with Call.prems have "disciplined R (k res) (n - 1)" by auto
    from Call.IH [OF _ this, of s'] Call.prems sv True show ?thesis by auto
  next
    case False
    with Call.prems obtain e where "k res = Done (from_proxy_error e)" by (cases res) auto
    with Call.prems sv show ?thesis by simp
  qed
qed simp_all

lemma disciplined_success:
  assumes "disciplined R io n" and "snd (run svc io s) = Some r" and "error_code r = ascii ''00''"
  shows "\<forall>x \<in> set (trace svc io s). \<exists>out. snd x = ApcOk out"
  using assms(1,2)
proof (induction io arbitrary: n s)
  case (Call rq k)
  obtain s' res where sv: "svc s rq = (s', res)" by force
  show ?case
  proof (cases "\<exists>out. res = ApcOk out")
    case True
    with Call.prems have "disciplined R (k res) (n - 1)" by auto
    from Call.IH [OF _ this, of s'] Call.prems(2) sv True show ?thesis by auto
  next
    case False
    with Call.prems(1) obtain e where "k res = Done (from_proxy_error e)" by (cases res) auto
    with Call.prems(2) sv assms(3) show ?thesis using from_proxy_error_not_00 by auto
  qed
qed simp_all

section \<open>Every registered handler is disciplined\<close>

text \<open>The keys a request names, and those a key map can give a handler.\<close>

fun request_keys :: "apc_request \<Rightarrow> bytes list" where
  "request_keys (TranslatePinData k1 k2 _ _ _) = [k1, k2]"
| "request_keys (VerifyPinData k1 k2 _ _ _ _ _) = [k1, k2]"
| "request_keys (GeneratePinData k1 k2 _ _ _) = [k1, k2]"
| "request_keys (GenerateMac k _ _ _) = [k]"
| "request_keys (VerifyMac k _ _ _) = [k]"
| "request_keys (GenerateCardValidationData k _ _) = [k]"
| "request_keys (VerifyCardValidationData k _ _ _) = [k]"
| "request_keys (EncryptData k _ _) = [k]"
| "request_keys (DecryptData k _ _) = [k]"
| "request_keys (VerifyAuthRequestCryptogram k _ _ _ _ _) = [k]"

text \<open>
  A key the proxy may use for a payload: what one of the payload's own key fields resolves to.
\<close>

definition known_key :: "key_map \<Rightarrow> bytes \<Rightarrow> bytes \<Rightarrow> bool" where
  "known_key km pl k \<longleftrightarrow> (\<exists>d. key_field_of pl d \<and> resolve_descriptor km d = Ok k)"

definition known_request :: "key_map \<Rightarrow> bytes \<Rightarrow> apc_request \<Rightarrow> bool" where
  "known_request km pl rq = list_all (known_key km pl) (request_keys rq)"

lemma resolved_known: "resolve_descriptor km d = Ok k \<Longrightarrow> key_field_of pl d \<Longrightarrow> known_key km pl k"
  by (auto simp: known_key_def)

text \<open>The three ways a field resolves.\<close>

lemma resolve_descriptor_sources:
  "resolve_descriptor km d = Ok k \<Longrightarrow>
     labels km (raw d) = Some k
     \<or> (\<exists>b v. block d = Some b \<and> kcv b = Some v \<and> kcv_index km (block_kcv_key b v) = Some k)
     \<or> is_apc_identifier (raw d) \<and> k = raw d"
  by (auto simp: resolve_descriptor_def Let_def split: if_splits option.splits)

lemmas pin_handler_defs = pin_handle_def translate_pin_def pin_change_handle_def handle_du_def
  handle_cu_def pin_verify_non_dukpt_handle_def handle_ibm_def handle_visa_def
  dukpt_pin_verify_handle_def handle_ck_def dukpt_pin_verify_aes_handle_def handle_go_def
  diebold_pin_handle_def random_pin_handle_def

lemmas mac_handler_defs = mac_handle_def my_handle_def my_generate_def gw_handle_def hmac_handle_def
  legacy_mac_handle_def handle_ma_def handle_mc_def handle_me_def handle_mk_def handle_mm_def
  handle_mo_def handle_mu_def handle_mw_def handle_mq_def handle_ms_def generate_alg1_mac_def
  generate_alg3_mac_def verify_alg1_mac_def verify_then_generate_alg1_def legacy_mac_out_def

lemmas emv_handler_defs = kq_handle_def handle_kq_def kw_handle_def handle_kw_def js_handle_def
  handle_js_def cap_handle_def handle_cap_def k0_handle_def handle_k0_def
  issuer_script_mac_handle_def handle_generate_def verify_arqc_def

lemmas card_handler_defs = cvv_handle_def handle_cw_def handle_cy_def dynamic_cvv_handle_def
  encrypt_decrypt_handle_def handle_he_def handle_hg_def international_encrypt_handle_def
  handle_m0_def handle_m2_def handle_m4_def

lemma disciplined_pin:
  fixes st code pl
  defines "R \<equiv> known_request (st_key_map st) pl"
  shows "disciplined R (pin_handle st code pl) (Suc (Suc 0))"
    and "disciplined R (pin_change_handle st code pl) (Suc (Suc 0))"
    and "disciplined R (pin_verify_non_dukpt_handle st code pl) (Suc (Suc 0))"
    and "disciplined R (dukpt_pin_verify_handle st code pl) (Suc (Suc 0))"
    and "disciplined R (dukpt_pin_verify_aes_handle st code pl) (Suc (Suc 0))"
    and "disciplined R (diebold_pin_handle st code pl) (Suc (Suc 0))"
    and "disciplined R (random_pin_handle st code pl) (Suc (Suc 0))"
  unfolding pin_handler_defs Let_def R_def
  by (intro disc_intros; simp add: known_request_def resolved_known key_fields key_field_ofI)+

lemma disciplined_mac:
  fixes st code pl
  defines "R \<equiv> known_request (st_key_map st) pl"
  shows "disciplined R (mac_handle st code pl) (Suc (Suc 0))"
    and "disciplined R (my_handle st code pl) (Suc (Suc 0))"
    and "disciplined R (gw_handle st code pl) (Suc (Suc 0))"
    and "disciplined R (hmac_handle st code pl) (Suc (Suc 0))"
    and "disciplined R (legacy_mac_handle st code pl) (Suc (Suc 0))"
  unfolding mac_handler_defs Let_def R_def
  by (intro disc_intros; simp add: known_request_def resolved_known key_fields key_field_ofI)+

lemma disciplined_emv:
  fixes st code pl
  defines "R \<equiv> known_request (st_key_map st) pl"
  shows "disciplined R (kq_handle st code pl) (Suc (Suc 0))"
    and "disciplined R (kw_handle st code pl) (Suc (Suc 0))"
    and "disciplined R (js_handle st code pl) (Suc (Suc 0))"
    and "disciplined R (cap_handle st code pl) (Suc (Suc 0))"
    and "disciplined R (k0_handle st code pl) (Suc (Suc 0))"
    and "disciplined R (issuer_script_mac_handle st code pl) (Suc (Suc 0))"
  unfolding emv_handler_defs Let_def R_def
  by (intro disc_intros; simp add: known_request_def resolved_known key_fields key_field_ofI)+

lemma disciplined_card:
  fixes st code pl
  defines "R \<equiv> known_request (st_key_map st) pl"
  shows "disciplined R (cvv_handle st code pl) (Suc (Suc 0))"
    and "disciplined R (dynamic_cvv_handle st code pl) (Suc (Suc 0))"
    and "disciplined R (encrypt_decrypt_handle st code pl) (Suc (Suc 0))"
    and "disciplined R (international_encrypt_handle st code pl) (Suc (Suc 0))"
  unfolding card_handler_defs Let_def R_def
  by (intro disc_intros; simp add: known_request_def resolved_known key_fields key_field_ofI)+

lemma registered_disciplined:
  "\<forall>h \<in> set registered_handlers. disciplined (known_request (st_key_map st) pl) (h_handle h st code pl) 2"
  by (simp add: registered_handlers_def thales_handlers_def handler_defs mk_handler_def numeral_2_eq_2
      disciplined_pin disciplined_mac disciplined_emv disciplined_card heartbeat_handle_def not_available_handle_def)

section \<open>A concrete run\<close>

lemma registry_get_DU: "registry_get registry_build (ascii ''DU'') = Some PinChangeHandler"
  by (rule registry_get_declared)
    (simp_all add: registered_handlers_def thales_handlers_def PinChangeHandler_def mk_handler_def)

lemma handle_PinChange: "h_handle PinChangeHandler = pin_change_handle"
  by (simp add: PinChangeHandler_def mk_handler_def)

lemma demo_du_run:
  "snd (run accepting_service (pin_change_handle demo_state (ascii ''DU'') demo_du) ()) =
    Some (success (pad_right 0x46 12 (ascii ''5678'')))"
proof -
  have "ascii ''DU'' \<noteq> ascii ''CU''" by (simp add: ascii_inj)
  moreover have "map_pin_block_format (ascii ''01'') = Ok IsoFormat0" by (simp add: map_pin_block_format_def)
  ultimately show ?thesis
    by (simp add: pin_change_handle_def handle_du_def demo_du_parse demo_du_fields_def demo_resolve
        sdk_build_def accepting_service_def Let_def)
      (simp add: demo_state_def demo_output_def accepting_service_def)
qed

section \<open>Properties\<close>

text \<open>
  C11: no command reaches a key outside the proxy's inventory, and none the payload does not name: every
  key a registered handler puts into a request is what a key field of that payload resolves to. The text of
  that field is a stretch of the payload, and the key is the target the operator's \<open>key_mappings\<close> give that
  text, the scanned key with the usage, algorithm and check value of that key block, or that text itself
  when it is an ARN or alias the client wrote out in full; whatever the payload, the service and its answers.
\<close>

theorem requests_name_known_keys:
  assumes "registry_get registry_build code = Some h"
    and "(rq, res) \<in> set (trace svc (h_handle h st code pl) s)" and "k \<in> set (request_keys rq)"
  shows "\<exists>d w. key_field_of pl d \<and> sublist w pl \<and> raw d = from_utf8_lossy w \<and>
    (labels (st_key_map st) (from_utf8_lossy w) = Some k
     \<or> (\<exists>b v. block d = Some b \<and> kcv b = Some v \<and> kcv_index (st_key_map st) (block_kcv_key b v) = Some k)
     \<or> is_apc_identifier (from_utf8_lossy w) \<and> k = from_utf8_lossy w)"
proof -
  have "disciplined (known_request (st_key_map st) pl) (h_handle h st code pl) 2"
    using registry_get_SomeD [OF assms(1)] registered_disciplined by blast
  from disciplined_trace [OF this, of svc s] assms(2) have "known_request (st_key_map st) pl rq"
    by (auto simp: list_all_iff)
  with assms(3) obtain d where d: "key_field_of pl d" and r: "resolve_descriptor (st_key_map st) d = Ok k"
    by (auto simp: known_request_def known_key_def list_all_iff)
  from key_field_text [OF d] obtain w where "sublist w pl" "raw d = from_utf8_lossy w" by blast
  with d resolve_descriptor_sources [OF r] show ?thesis by metis
qed

theorem requests_name_known_keys_witness:
  "\<exists>rq res d w. (rq, res) \<in> set (trace accepting_service (h_handle PinChangeHandler demo_state (ascii ''DU'') demo_du) ())
    \<and> ascii ''arn:p'' \<in> set (request_keys rq) \<and> key_field_of demo_du d \<and> sublist w demo_du \<and> raw d = from_utf8_lossy w
    \<and> (labels (st_key_map demo_state) (from_utf8_lossy w) = Some (ascii ''arn:p'')
      \<or> (\<exists>b v. block d = Some b \<and> kcv b = Some v \<and> kcv_index (st_key_map demo_state) (block_kcv_key b v) = Some (ascii ''arn:p''))
      \<or> is_apc_identifier (from_utf8_lossy w) \<and> ascii ''arn:p'' = from_utf8_lossy w)"
proof -
  obtain rq res where t: "(rq, res) \<in> set (trace accepting_service (h_handle PinChangeHandler demo_state (ascii ''DU'') demo_du) ())"
      and k: "ascii ''arn:p'' \<in> set (request_keys rq)"
    unfolding handle_PinChange using demo_du_trace by fastforce
  from requests_name_known_keys [OF registry_get_DU t k] t k show ?thesis by blast
qed

text \<open>
  C12: a success is never reported over a refusal: a registered handler makes at most two requests,
  goes on only after an accepted one, and answers \<open>00\<close> only when the service accepted all of them.
\<close>

theorem success_means_accepted:
  assumes "registry_get registry_build code = Some h"
  shows "let t = trace svc (h_handle h st code pl) s in
    length t \<le> 2 \<and> (\<forall>x \<in> set (butlast t). \<exists>out. snd x = ApcOk out)
    \<and> (\<forall>r. snd (run svc (h_handle h st code pl) s) = Some r \<longrightarrow> error_code r = ascii ''00''
          \<longrightarrow> (\<forall>x \<in> set t. \<exists>out. snd x = ApcOk out))"
proof -
  have d: "disciplined (known_request (st_key_map st) pl) (h_handle h st code pl) 2"
    using registry_get_SomeD [OF assms(1)] registered_disciplined by blast
  show ?thesis
    unfolding Let_def using disciplined_trace [OF d, of svc s] disciplined_success [OF d, of svc s] by blast
qed

theorem success_means_accepted_witness:
  "length (trace accepting_service (h_handle PinChangeHandler demo_state (ascii ''DU'') demo_du) ()) \<le> 2
    \<and> list_all (\<lambda>x. \<exists>out. snd x = ApcOk out)
        (trace accepting_service (h_handle PinChangeHandler demo_state (ascii ''DU'') demo_du) ())"
  using success_means_accepted [OF registry_get_DU, where svc = accepting_service and st = demo_state
      and pl = demo_du and s = "()"] demo_du_run
  unfolding Let_def handle_PinChange list_all_iff by simp

end
