(* ===== verification/Verdicts.thy ===== *)
theory Verdicts
  imports Discipline
begin

text \<open>
  Which commands report a verdict, and what stands behind it. A command reports a verdict when it
  can answer \<open>01\<close>, the code of a failed verification. The list of these commands is exact: no
  other registered command sends a verification request or answers \<open>01\<close>; and a command of the list
  answers \<open>00\<close> only after the service accepted a verification request or, in the three cases where
  the proxy compares a MAC itself, after the service generated one that begins with the presented one.
\<close>

section \<open>Errors that are no verdict\<close>

text \<open>A computation that cannot fail with a failed verification, and a parser that cannot.\<close>

definition plain :: "'a result \<Rightarrow> bool" where
  "plain m \<longleftrightarrow> m \<noteq> Err VerificationFailed"

definition plain_parser :: "'a parser \<Rightarrow> bool" where
  "plain_parser p \<longleftrightarrow> (\<forall>r. plain (p r))"

named_theorems plain_intros

lemma plain_basic [plain_intros]:
  "plain (Ok x)" "plain Panic" "e \<noteq> VerificationFailed \<Longrightarrow> plain (Err e)" "plain (slice xs i j)" "plain (index xs i)"
  "plain (utf8_or_malformed w)" "plain (radix_or_malformed radix w)" "plain (sdk_build st con x)"
  "plain (resolve_descriptor km d)" "plain (str_prefix w n)" "plain (ok_or MalformedPayload v)"
  by (auto simp: plain_def index_def utf8_or_malformed_def radix_or_malformed_def sdk_build_def elim: ok_or.elims
      dest: resolve_descriptor_Err)

lemma plain_rbind [plain_intros]:
  "plain m \<Longrightarrow> (\<And>x. m = Ok x \<Longrightarrow> plain (f x)) \<Longrightarrow> plain (rbind m f)"
  by (cases m) (auto simp: plain_def)

lemma plain_rmap [plain_intros]: "plain m \<Longrightarrow> plain (rmap f m)"
  by (cases m) (auto simp: plain_def)

lemma plain_if [plain_intros]:
  "(b \<Longrightarrow> plain m) \<Longrightarrow> (\<not> b \<Longrightarrow> plain m') \<Longrightarrow> plain (if b then m else m')"
  by simp

lemma plain_case_prod [plain_intros]:
  "(\<And>u v. x = (u, v) \<Longrightarrow> plain (f u v)) \<Longrightarrow> plain (case x of (u, v) \<Rightarrow> f u v)"
  by (cases x) simp

lemma plain_case_option [plain_intros]:
  "plain m \<Longrightarrow> (\<And>v. x = Some v \<Longrightarrow> plain (f v)) \<Longrightarrow> plain (case x of None \<Rightarrow> m | Some v \<Rightarrow> f v)"
  by (cases x) simp_all

lemma plain_parser_pbind [plain_intros]:
  "plain_parser p \<Longrightarrow> (\<And>x. plain_parser (f x)) \<Longrightarrow> plain_parser (pbind p f)"
  unfolding plain_parser_def pbind_def by (intro allI plain_rbind plain_case_prod) simp_all

lemma plain_parser_basic [plain_intros]:
  "plain_parser (preturn x)" "plain m \<Longrightarrow> plain_parser (plift m)" "plain_parser (fr_take n)" "plain_parser fr_remaining"
  "(\<And>buf off. plain (g buf off)) \<Longrightarrow> plain_parser (fr_parse_with g)"
  unfolding plain_parser_def preturn_def plift_def fr_take_def fr_remaining_def fr_parse_with_def Let_def
  by (intro allI plain_intros; simp)+

lemma plain_parser_if [plain_intros]:
  "plain_parser p \<Longrightarrow> plain_parser q \<Longrightarrow> plain_parser (if b then p else q)"
  by simp

lemma plain_parser_case_prod [plain_intros]:
  "(\<And>u v. plain_parser (f u v)) \<Longrightarrow> plain_parser (case x of (u, v) \<Rightarrow> f u v)"
  by (cases x) simp

lemma plain_parser_fields [plain_intros]:
  "plain_parser (fr_take_array n)" "plain_parser fr_byte" "plain_parser (fr_expect_byte b)" "plain_parser fr_u16_be"
  "plain_parser (fr_take_hex n)" "plain_parser (fr_take_lossy n)" "plain_parser (fr_take_ascii_len_hex k radix)"
  "plain_parser fr_message_hex" "plain_parser (fr_mac_to_verify v n)"
  unfolding fr_take_array_def fr_byte_def fr_expect_byte_def fr_u16_be_def fr_take_hex_def fr_take_lossy_def
    fr_take_ascii_len_hex_def fr_message_hex_def fr_mac_to_verify_def
  by (intro plain_intros; simp)+

lemma plain_run_parser: "plain_parser p \<Longrightarrow> plain (run_parser p pl)"
  by (simp add: plain_parser_def run_parser_def plain_rmap)

text \<open>The key fields and the tables.\<close>

lemma plain_scan_kc: "plain (scan_kc_from opt pos n)"
proof (induction n arbitrary: pos)
  case (Suc n)
  then show ?case unfolding scan_kc_from.simps by (intro plain_intros; simp)
qed (simp add: plain_basic)

lemma plain_keys [plain_intros]:
  "plain (parse_tr31_block buf off)" "plain (parse_legacy_key buf off)" "plain (parse_bdk buf off)" "plain (parse_key_32 buf off)"
proof -
  show blk: "plain (parse_tr31_block buf off)"
    unfolding parse_tr31_block_def scan_kc_optional_block_def Let_def by (intro plain_intros plain_scan_kc; simp)
  show "plain (parse_legacy_key buf off)" "plain (parse_bdk buf off)" "plain (parse_key_32 buf off)"
    unfolding key_field_defs parse_fixed_key_def Let_def by (intro plain_intros blk; simp)+
qed

text \<open>The parsers of the commands that report no verdict.\<close>

lemma plain_tables [plain_intros]:
  "plain (map_translate_format w)" "plain (algorithm_from_mode_c2 b)" "plain (m6_mac_size b)"
  "plain (algorithm_from_m6_algo_byte b)" "plain (mac_algorithm_of_name w)" "plain (padding_flag b)"
  "plain (smi_require_mode_0 b)" "plain (ku_scheme b w)" "plain (decode_bcd_pan_seq w)"
  unfolding map_translate_format_def algorithm_from_mode_c2_def m6_mac_size_def algorithm_from_m6_algo_byte_def
    mac_algorithm_of_name_def padding_flag_def smi_require_mode_0_def ku_scheme_def decode_bcd_pan_seq_def Let_def
  by (intro plain_intros; simp)+

lemma plain_build_translation [plain_intros]: "plain (build_translation_attrs st fmt acct)"
  by (cases fmt) (simp_all add: plain_basic)

lemma plain_subparsers [plain_intros]:
  "plain (pan_seq_sub buf off)" "plain (len_prefixed_sub buf off)" "plain (delimited_sub buf off)"
  unfolding pan_seq_sub_def read_pan_seq_def len_prefixed_sub_def read_len_prefixed_message_def delimited_sub_def
    read_delimited_message_def Let_def
  by (intro plain_intros; simp)+

lemma plain_parser_pan_seq [plain_intros]: "plain_parser fr_pan_seq"
  unfolding fr_pan_seq_def by (intro plain_intros)

lemma plain_parsers [plain_intros]:
  "plain (parse_translate pl flag)" "plain (parse_c2_payload pl v)" "plain (parse_m6_payload pl v)" "plain (parse_k0 pl)"
  "plain (parse_ju pl)" "plain (parse_ku pl)" "plain (parse_m0_fields pl)"
  unfolding parse_translate_def parse_c2_payload_def parse_m6_payload_def parse_k0_def parse_ju_def parse_ku_def
    parse_m0_fields_def parse_translate_fields_def parse_c2_fields_def parse_m6_fields_def parse_k0_fields_def
    parse_ju_fields_def parse_ku_fields_def parse_m0_parser_def
  by (intro plain_run_parser plain_intros; (simp split: if_split; intro conjI impI plain_intros)?)+

lemma plain_hand_parsers [plain_intros]:
  "plain (parse_cw pl)" "plain (parse_key_and_data pl)" "plain (parse_m4 pl)" "plain (data_slice pl n)"
  "plain (parse_len_binary pl n)" "plain (require_mode_0 pl)"
  unfolding parse_cw_def parse_key_and_data_def parse_m4_def data_slice_def parse_len_binary_def require_mode_0_def
    read_pan_def read_expiry_service_def Let_def
  by (intro plain_intros; simp)+

section \<open>Commands that report no verdict\<close>

fun is_verification :: "apc_request \<Rightarrow> bool" where
  "is_verification (VerifyPinData _ _ _ _ _ _ _) = True"
| "is_verification (VerifyMac _ _ _ _) = True"
| "is_verification (VerifyCardValidationData _ _ _ _) = True"
| "is_verification (VerifyAuthRequestCryptogram _ _ _ _ _ _) = True"
| "is_verification _ = False"

text \<open>No verification is asked for and none is reported as failed.\<close>

primrec quiet :: "handler_result io \<Rightarrow> bool" where
  "quiet (Done r) = (error_code r \<noteq> ascii ''01'')"
| "quiet Panicked = True"
| "quiet (Call rq k) = (\<not> is_verification rq \<and> (\<forall>res. quiet (k res)))"

named_theorems quiet_intros

lemma error_code_01: "e \<noteq> VerificationFailed \<Longrightarrow> error_code (from_proxy_error e) \<noteq> ascii ''01''"
  by (cases e) (simp_all add: ascii_inj)

lemma quiet_done [quiet_intros]:
  "quiet (Done (success w))" "e \<noteq> VerificationFailed \<Longrightarrow> quiet (Done (from_proxy_error e))"
  "quiet (Done (err (ascii ''15'')))" "quiet (Done (err (ascii ''68'')))" "quiet Panicked"
  "quiet (Done \<lparr> error_code = ascii ''00'', payload = w \<rparr>)"
  using error_code_01 [of e] by (simp_all add: err_def ascii_inj)

lemma quiet_with_res [quiet_intros]:
  "plain m \<Longrightarrow> (\<And>x. m = Ok x \<Longrightarrow> quiet (k x)) \<Longrightarrow> quiet (with_res m k)"
  using error_code_01 by (cases m) (auto simp: plain_def)

lemma quiet_call [quiet_intros]:
  assumes "\<not> is_verification rq" and "\<And>out. quiet (k out)"
  shows "quiet (Call rq (on_ok k))"
proof -
  have "quiet (on_ok k res)" for res using assms(2) error_code_01 [of ApcError] by (cases res) auto
  with assms(1) show ?thesis by simp
qed

lemma quiet_if [quiet_intros]: "(b \<Longrightarrow> quiet p) \<Longrightarrow> (\<not> b \<Longrightarrow> quiet q) \<Longrightarrow> quiet (if b then p else q)"
  by simp

lemma quiet_case_prod [quiet_intros]:
  "(\<And>u v. x = (u, v) \<Longrightarrow> quiet (f u v)) \<Longrightarrow> quiet (case x of (u, v) \<Rightarrow> f u v)"
  by (cases x) simp

lemma quiet_case_option [quiet_intros]:
  "quiet p \<Longrightarrow> (\<And>v. x = Some v \<Longrightarrow> quiet (f v)) \<Longrightarrow> quiet (case x of None \<Rightarrow> p | Some v \<Rightarrow> f v)"
  by (cases x) simp_all

lemma quiet_run:
  assumes "quiet io"
  shows "(\<forall>r. snd (run svc io s) = Some r \<longrightarrow> error_code r \<noteq> ascii ''01'')
    \<and> (\<forall>x \<in> set (trace svc io s). \<not> is_verification (fst x))"
  using assms
proof (induction io arbitrary: s)
  case (Call rq k)
  obtain s' res where "svc s rq = (s', res)" by force
  with Call.IH [of "k res" s'] Call.prems show ?case by auto
qed simp_all

lemma quiet_pin: "quiet (pin_handle st code pl)" "quiet (diebold_pin_handle st code pl)" "quiet (random_pin_handle st code pl)"
  unfolding pin_handle_def translate_pin_def diebold_pin_handle_def random_pin_handle_def
  by (intro quiet_intros plain_intros; simp)+

lemma quiet_dukpt:
  "code \<noteq> ascii ''CK'' \<Longrightarrow> quiet (dukpt_pin_verify_handle st code pl)"
  "code \<noteq> ascii ''GO'' \<Longrightarrow> quiet (dukpt_pin_verify_aes_handle st code pl)"
  unfolding dukpt_pin_verify_handle_def dukpt_pin_verify_aes_handle_def by (intro quiet_intros; simp)+

lemma quiet_mac:
  "code \<noteq> ascii ''C4'' \<Longrightarrow> code \<noteq> ascii ''M8'' \<Longrightarrow> quiet (mac_handle st code pl)" "quiet (hmac_handle st code pl)"
  unfolding mac_handle_def hmac_handle_def Let_def by (intro quiet_intros plain_intros; simp)+

lemma quiet_legacy:
  "c \<in> {''MA'', ''MK'', ''MU'', ''MQ'', ''MS''} \<Longrightarrow> quiet (legacy_mac_handle st (ascii c) pl)"
proof -
  have "quiet (handle_ma st pl)" "quiet (handle_mk st pl)" "quiet (handle_mu st pl)" "quiet (handle_mq st pl)"
    "quiet (handle_ms st pl)"
    unfolding handle_ma_def handle_mk_def handle_mu_def handle_mq_def handle_ms_def generate_alg1_mac_def
      generate_alg3_mac_def legacy_mac_out_def
    by (intro quiet_intros plain_intros; simp)+
  then show "c \<in> {''MA'', ''MK'', ''MU'', ''MQ'', ''MS''} \<Longrightarrow> quiet (legacy_mac_handle st (ascii c) pl)"
    by (auto simp: legacy_mac_handle_def ascii_inj)
qed

lemma quiet_emv: "quiet (k0_handle st code pl)" "quiet (issuer_script_mac_handle st code pl)"
  unfolding k0_handle_def handle_k0_def issuer_script_mac_handle_def handle_generate_def Let_def
  by (intro quiet_intros plain_intros; simp)+

lemma quiet_card:
  "code \<noteq> ascii ''CY'' \<Longrightarrow> quiet (cvv_handle st code pl)" "quiet (dynamic_cvv_handle st code pl)"
  "quiet (encrypt_decrypt_handle st code pl)" "quiet (international_encrypt_handle st code pl)"
  unfolding cvv_handle_def handle_cw_def handle_ny_def handle_ry_def dynamic_cvv_handle_def encrypt_decrypt_handle_def handle_he_def handle_hg_def
    international_encrypt_handle_def handle_m0_def handle_m2_def handle_m4_def Let_def
  by (intro quiet_intros plain_intros; simp)+

section \<open>Commands that report a verdict\<close>

definition verification_codes :: "string list" where
  "verification_codes = [''CK'', ''GO'', ''DA'', ''EA'', ''DC'', ''EC'', ''CU'', ''DU'', ''CY'',
     ''KQ'', ''KW'', ''JS'', ''K2'', ''KS'', ''C4'', ''M8'', ''GW'', ''MY'', ''MC'', ''ME'', ''MM'', ''MO'', ''MW'']"

text \<open>
  The MACs the proxy compares itself (key field, message, presented MAC): a CMAC of M8, and a MAC
  of fewer than eight digits of GW in verify mode and of MY.
\<close>

definition locally_compared :: "string \<Rightarrow> bytes \<Rightarrow> (key_descriptor \<times> bytes \<times> bytes) option" where
  "locally_compared c pl =
     (if c = ''M8'' then
        (case parse_m6_payload pl True of
           Ok f \<Rightarrow> (case mf_mac_to_verify f of
             Some mac \<Rightarrow> if mf_algorithm f = ascii ''CMAC'' then Some (mf_key_id f, mf_message_hex f, mac) else None
           | None \<Rightarrow> None)
         | _ \<Rightarrow> None)
      else if c = ''GW'' then
        (case parse_gw pl of
           Ok f \<Rightarrow> (case gw_mac_to_verify f of
             Some mac \<Rightarrow> if gw_is_verify f \<and> length mac < 8 then Some (gw_bdk_id f, gw_message_hex f, mac) else None
           | None \<Rightarrow> None)
         | _ \<Rightarrow> None)
      else if c = ''MY'' then
        (case parse_my pl of
           Ok f \<Rightarrow>
             if length (mt_inbound_mac f) < 8 then Some (mt_in_key_id f, mt_message_hex f, mt_inbound_mac f) else None
         | _ \<Rightarrow> None)
      else None)"

definition gw_generates :: "bytes \<Rightarrow> bool" where
  "gw_generates pl = (case parse_gw pl of Ok f \<Rightarrow> \<not> gw_is_verify f | _ \<Rightarrow> False)"

definition checked_by_service :: "(apc_request \<times> apc_result) list \<Rightarrow> bool" where
  "checked_by_service h \<longleftrightarrow> (\<exists>rq out. (rq, ApcOk out) \<in> set h \<and> is_verification rq)"

definition checked_locally :: "key_map \<Rightarrow> string \<Rightarrow> bytes \<Rightarrow> (apc_request \<times> apc_result) list \<Rightarrow> bool" where
  "checked_locally km c pl h \<longleftrightarrow>
     (\<exists>d msg mac k attrs out. locally_compared c pl = Some (d, msg, mac) \<and> resolve_descriptor km d = Ok k
        \<and> (GenerateMac k msg attrs None, ApcOk out) \<in> set h
        \<and> eq_ignore_ascii_case mac (take (length mac) (r_mac out)))"

definition verdict_ok :: "key_map \<Rightarrow> string \<Rightarrow> bytes \<Rightarrow> handler_result \<Rightarrow> (apc_request \<times> apc_result) list \<Rightarrow> bool" where
  "verdict_ok km c pl r h \<longleftrightarrow>
     (error_code r = ascii ''00'' \<longrightarrow>
        checked_by_service h \<or> checked_locally km c pl h \<or> c = ''GW'' \<and> gw_generates pl)"

lemma verdict_ok_error [simp]: "verdict_ok km c pl (from_proxy_error e) h"
  by (simp add: verdict_ok_def from_proxy_error_not_00)

lemma verdict_ok_err [simp]: "verdict_ok km c pl (err (ascii ''15'')) h" "verdict_ok km c pl (err (ascii ''68'')) h"
  by (simp_all add: verdict_ok_def err_def ascii_inj)

lemma verdict_ok_here [simp]: "is_verification rq \<Longrightarrow> verdict_ok km c pl r ((rq, ApcOk out) # h)"
  by (auto simp: verdict_ok_def checked_by_service_def)

lemma io_result_case_option [hist_intros]:
  "(x = None \<Longrightarrow> io_result Q p h) \<Longrightarrow> (\<And>y. x = Some y \<Longrightarrow> io_result Q (f y) h)
    \<Longrightarrow> io_result Q (case x of None \<Rightarrow> p | Some y \<Rightarrow> f y) h"
  by (cases x) simp_all

lemma io_result_case_pin_data [hist_intros]:
  "(\<And>y. x = PinOffset y \<Longrightarrow> io_result Q (f y) h) \<Longrightarrow> (\<And>y. x = VerificationValue y \<Longrightarrow> io_result Q (g y) h)
    \<Longrightarrow> (x = UnknownPinData \<Longrightarrow> io_result Q p h)
    \<Longrightarrow> io_result Q (case x of PinOffset y \<Rightarrow> f y | VerificationValue y \<Rightarrow> g y | UnknownPinData \<Rightarrow> p) h"
  by (cases x) simp_all

lemma verdict_pin:
  "io_result (verdict_ok km c pl) (pin_change_handle st code pl) []"
  "io_result (verdict_ok km c pl) (pin_verify_non_dukpt_handle st code pl) []"
  "io_result (verdict_ok km c pl) (dukpt_pin_verify_handle st code pl) []"
  "io_result (verdict_ok km c pl) (dukpt_pin_verify_aes_handle st code pl) []"
  unfolding pin_handler_defs Let_def by (intro hist_intros; simp)+

text \<open>A comparison that succeeded compared the leading digits of the generated MAC.\<close>

lemma compared_prefix:
  assumes "str_prefix s n = (Ok t :: bytes result)" and "eq_ignore_ascii_case mac t"
  shows "eq_ignore_ascii_case mac (take (length mac) s)"
proof -
  have t: "t = take n s" using assms(1) by (auto simp: str_prefix_def split: if_splits)
  have "length mac = length t" using assms(2) by (metis eq_ignore_ascii_case_def length_to_ascii_uppercase)
  then have "take (length mac) s = t" by (auto simp: t min_def)
  with assms(2) show ?thesis by simp
qed

lemma verdict_ok_local:
  "locally_compared c pl = Some (d, msg, mac) \<Longrightarrow> resolve_descriptor km d = Ok k \<Longrightarrow> str_prefix (r_mac out) n = (Ok t :: bytes result)
    \<Longrightarrow> eq_ignore_ascii_case mac t \<Longrightarrow> verdict_ok km c pl r ((GenerateMac k msg attrs None, ApcOk out) # h)"
  using compared_prefix [of "r_mac out" n t mac] by (fastforce simp: verdict_ok_def checked_locally_def)

lemma locally_comparedI:
  "parse_m6_payload pl True = Ok f \<Longrightarrow> mf_mac_to_verify f = Some mac \<Longrightarrow> mf_algorithm f = ascii ''CMAC''
    \<Longrightarrow> locally_compared ''M8'' pl = Some (mf_key_id f, mf_message_hex f, mac)"
  "parse_gw pl = Ok g \<Longrightarrow> gw_mac_to_verify g = Some mac \<Longrightarrow> gw_is_verify g \<Longrightarrow> length mac < 8
    \<Longrightarrow> locally_compared ''GW'' pl = Some (gw_bdk_id g, gw_message_hex g, mac)"
  "parse_my pl = Ok m \<Longrightarrow> length (mt_inbound_mac m) < 8
    \<Longrightarrow> locally_compared ''MY'' pl = Some (mt_in_key_id m, mt_message_hex m, mt_inbound_mac m)"
  by (simp_all add: locally_compared_def)

lemma verdict_ok_generates: "parse_gw pl = Ok f \<Longrightarrow> \<not> gw_is_verify f \<Longrightarrow> verdict_ok km ''GW'' pl r h"
  by (simp add: verdict_ok_def gw_generates_def)

lemmas verdict_intros = verdict_ok_local [OF locally_comparedI(1)] verdict_ok_local [OF locally_comparedI(2)]
  verdict_ok_local [OF locally_comparedI(3)] verdict_ok_generates

lemma verdict_mac:
  "io_result (verdict_ok (st_key_map st) ''C4'' pl) (mac_handle st (ascii ''C4'') pl) []"
  "io_result (verdict_ok (st_key_map st) ''M8'' pl) (mac_handle st (ascii ''M8'') pl) []"
  unfolding mac_handle_def Let_def
  by (intro hist_intros; auto simp: ascii_inj intro: verdict_intros dest: c2_never_cmac)+

lemma verdict_gw: "io_result (verdict_ok (st_key_map st) ''GW'' pl) (gw_handle st code pl) []"
  unfolding gw_handle_def Let_def by (intro hist_intros; auto intro: verdict_intros)

lemma verdict_my: "io_result (verdict_ok (st_key_map st) ''MY'' pl) (my_handle st code pl) []"
  unfolding my_handle_def my_generate_def Let_def by (intro hist_intros; auto intro: verdict_intros)

lemma verdict_legacy:
  assumes "c \<in> {''MC'', ''ME'', ''MM'', ''MO'', ''MW''}"
  shows "io_result (verdict_ok km c pl) (legacy_mac_handle st (ascii c) pl) []"
proof -
  have "io_result (verdict_ok km c pl) (handle_mc st pl) []" "io_result (verdict_ok km c pl) (handle_me st pl) []"
    "io_result (verdict_ok km c pl) (handle_mm st pl) []" "io_result (verdict_ok km c pl) (handle_mo st pl) []"
    "io_result (verdict_ok km c pl) (handle_mw st pl) []"
    unfolding mac_handler_defs Let_def by (intro hist_intros; simp)+
  with assms show ?thesis by (auto simp: legacy_mac_handle_def ascii_inj)
qed

lemma verdict_emv:
  "io_result (verdict_ok km c pl) (kq_handle st code pl) []"
  "io_result (verdict_ok km c pl) (kw_handle st code pl) []"
  "io_result (verdict_ok km c pl) (js_handle st code pl) []"
  "io_result (verdict_ok km c pl) (cap_handle st code pl) []"
  unfolding emv_handler_defs Let_def by (intro hist_intros; simp)+

lemma verdict_card: "io_result (verdict_ok km c pl) (cvv_handle st (ascii ''CY'') pl) []"
  unfolding card_handler_defs Let_def by (intro hist_intros; simp add: ascii_inj)

section \<open>Every registered command is on one side\<close>

definition classified :: "handler \<Rightarrow> string \<Rightarrow> bool" where
  "classified h c \<longleftrightarrow>
     (\<forall>st pl. if c \<in> set verification_codes then io_result (verdict_ok (st_key_map st) c pl) (h_handle h st (ascii c) pl) []
       else quiet (h_handle h st (ascii c) pl))"

lemma quiet_gated: "quiet (not_available_handle st code pl)" "quiet (heartbeat_handle st code pl)"
  unfolding not_available_handle_def heartbeat_handle_def by (intro quiet_intros; simp)+

lemma verdict_gated: "io_result (verdict_ok km c pl) (not_available_handle st code pl) []"
  by (simp add: not_available_handle_def)

lemma classified_handlers: "\<forall>h \<in> set registered_handlers. \<forall>c. ascii c \<in> set (h_command_codes h) \<longrightarrow> classified h c"
  by (auto simp: registered_handlers_def thales_handlers_def handler_defs mk_handler_def ascii_inj classified_def verification_codes_def
      quiet_pin quiet_dukpt quiet_mac quiet_legacy quiet_emv quiet_card quiet_gated verdict_gated
      verdict_pin verdict_mac verdict_gw verdict_my verdict_legacy verdict_emv verdict_card)

lemma verification_codes_registered:
  assumes "c \<in> set verification_codes"
  shows "\<exists>h. registry_get registry_build (ascii c) = Some h"
proof -
  have "set verification_codes \<subseteq> set registered_codes" by (simp add: verification_codes_def registered_codes_def)
  with assms show ?thesis using registry_get_None_iff [of "ascii c"] by (cases "registry_get registry_build (ascii c)") auto
qed

section \<open>Properties\<close>

text \<open>
  C13: the commands that report a verdict on a PIN, a MAC, a card value or a cryptogram are exactly the listed
  ones, and \<open>00\<close> from one of them means the verification was done: the service accepted a verification
  request in that command or, where the proxy compares the MAC itself (a CMAC of M8; a MAC of fewer than eight
  digits of MY and of GW in verify mode), the service generated under the key and over the message of the payload a MAC
  whose leading digits are the presented ones up to letter case. GW in generate mode is the one other
  \<open>00\<close> of the list. Every registered command outside the list sends no verification request and
  never answers \<open>01\<close>.
\<close>

theorem verification_commands_verify:
  "(c \<in> set verification_codes \<longrightarrow>
     (\<exists>h. registry_get registry_build (ascii c) = Some h \<and>
        (\<forall>r. snd (run svc (h_handle h st (ascii c) pl) s) = Some r \<longrightarrow> error_code r = ascii ''00'' \<longrightarrow>
           checked_by_service (trace svc (h_handle h st (ascii c) pl) s)
           \<or> checked_locally (st_key_map st) c pl (trace svc (h_handle h st (ascii c) pl) s)
           \<or> c = ''GW'' \<and> gw_generates pl)))
   \<and> (c \<notin> set verification_codes \<longrightarrow>
     (\<forall>h. registry_get registry_build (ascii c) = Some h \<longrightarrow>
        (\<forall>r. snd (run svc (h_handle h st (ascii c) pl) s) = Some r \<longrightarrow> error_code r \<noteq> ascii ''01'')
        \<and> (\<forall>x \<in> set (trace svc (h_handle h st (ascii c) pl) s). \<not> is_verification (fst x))))"
proof (intro conjI impI)
  have cl: "classified h c" if "registry_get registry_build (ascii c) = Some h" for h
    using registry_get_SomeD [OF that] classified_handlers by blast
  show "\<exists>h. registry_get registry_build (ascii c) = Some h \<and>
        (\<forall>r. snd (run svc (h_handle h st (ascii c) pl) s) = Some r \<longrightarrow> error_code r = ascii ''00'' \<longrightarrow>
           checked_by_service (trace svc (h_handle h st (ascii c) pl) s)
           \<or> checked_locally (st_key_map st) c pl (trace svc (h_handle h st (ascii c) pl) s)
           \<or> c = ''GW'' \<and> gw_generates pl)" if c: "c \<in> set verification_codes"
  proof -
    obtain h where h: "registry_get registry_build (ascii c) = Some h" using verification_codes_registered [OF c] by blast
    with cl c have "io_result (verdict_ok (st_key_map st) c pl) (h_handle h st (ascii c) pl) []"
      by (simp add: classified_def)
    from io_result_run [OF this, of svc s] h show ?thesis by (auto simp: verdict_ok_def)
  qed
  show "\<forall>h. registry_get registry_build (ascii c) = Some h \<longrightarrow>
        (\<forall>r. snd (run svc (h_handle h st (ascii c) pl) s) = Some r \<longrightarrow> error_code r \<noteq> ascii ''01'')
        \<and> (\<forall>x \<in> set (trace svc (h_handle h st (ascii c) pl) s). \<not> is_verification (fst x))" if c: "c \<notin> set verification_codes"
  proof (intro allI impI)
    fix h assume "registry_get registry_build (ascii c) = Some h"
    with cl c have "quiet (h_handle h st (ascii c) pl)" by (simp add: classified_def)
    from quiet_run [OF this, of svc s]
    show "(\<forall>r. snd (run svc (h_handle h st (ascii c) pl) s) = Some r \<longrightarrow> error_code r \<noteq> ascii ''01'')
        \<and> (\<forall>x \<in> set (trace svc (h_handle h st (ascii c) pl) s). \<not> is_verification (fst x))" .
  qed
qed

lemma registry_get_MY: "registry_get registry_build (ascii ''MY'') = Some MacTranslateHandler"
  by (rule registry_get_declared)
    (simp_all add: registered_handlers_def thales_handlers_def MacTranslateHandler_def mk_handler_def)

lemma registry_get_M6: "registry_get registry_build (ascii ''M6'') = Some MacHandler"
  by (rule registry_get_declared)
    (simp_all add: registered_handlers_def thales_handlers_def MacHandler_def mk_handler_def)

lemma handle_MacTranslate: "h_handle MacTranslateHandler = my_handle"
  by (simp add: MacTranslateHandler_def mk_handler_def)

theorem verification_commands_verify_witness:
  "(checked_by_service (trace accepting_service (my_handle demo_state (ascii ''MY'') demo_my) ())
     \<or> checked_locally (st_key_map demo_state) ''MY'' demo_my (trace accepting_service (my_handle demo_state (ascii ''MY'') demo_my) ()))
   \<and> list_all (\<lambda>x. \<not> is_verification (fst x)) (trace accepting_service (h_handle MacHandler demo_state (ascii ''M6'') demo_my) ())"
  using verification_commands_verify [of "''MY''" accepting_service demo_state demo_my "()"] demo_my_run
    verification_commands_verify [of "''M6''" accepting_service demo_state demo_my "()"]
  by (auto simp: registry_get_MY registry_get_M6 handle_MacTranslate verification_codes_def list_all_iff)

end
