(* ===== verification/Concurrency.thy ===== *)
theory Concurrency
  imports Server
begin

text \<open>
  Connections side by side (\<open>src/src/server.rs\<close>, the tasks \<open>run_with\<close> spawns). Each connection is
  a task of its own that stops at every \<open>await\<close> of \<open>handle_connection\<close>: a read, a request to the
  service, the forward leg, a write. What the tasks share is the request counter, the discovery
  log and the outside world. A schedule says which task moves next and which read event a waiting
  task gets; every list of such moves is allowed, so a statement about all schedules covers every
  interleaving. The task semantics is small-step; it is shown to compute what the loop of the
  Server theory computes.
\<close>

section \<open>One task\<close>

datatype phase =
    Reading
  | Parsing
  | Handling parsed_command "handler_result io"
  | Forwarding parsed_command bytes
  | Writing parsed_command bytes
  | Ended conn_end

record task =
  tk_phase :: phase
  tk_buf :: bytes
  tk_out :: "bytes list"

definition task_start :: task where
  "task_start = \<lparr> tk_phase = Reading, tk_buf = [], tk_out = [] \<rparr>"

text \<open>From the parsed command to the first \<open>await\<close>: the request id, the lookup, the log.\<close>

definition begin_command ::
    "'w conn_ctx \<Rightarrow> 'w shared \<Rightarrow> task \<Rightarrow> parsed_command \<Rightarrow> 'w shared \<times> task" where
  "begin_command ctx sh t cmd =
     (let proto = cx_protocol ctx; code = command_code cmd;
          sh = sh\<lparr> sh_request_seq := sh_request_seq sh + 1 \<rparr> in
      case registry_get (cx_registry ctx) code of
        Some h \<Rightarrow> (sh, t\<lparr> tk_phase := Handling cmd (h_handle h (cx_state ctx) code (cmd_payload cmd)) \<rparr>)
      | None \<Rightarrow>
          (case cx_discover ctx of
             Some dcfg \<Rightarrow>
               if dc_enabled dcfg then
                 let sh = sh\<lparr> sh_log := log_discovery_command proto (cx_clock ctx (sh_world sh)) code
                                          (cmd_payload cmd) (sh_log sh) \<rparr> in
                 (case (slice (tk_buf t) 0 (frame_len cmd) :: (bytes, net_error) res) of
                    Ok frame \<Rightarrow> (sh, t\<lparr> tk_phase := Forwarding cmd frame \<rparr>)
                  | _ \<Rightarrow> (sh, t\<lparr> tk_phase := Ended ConnPanic \<rparr>))
               else (sh, t\<lparr> tk_phase := Writing cmd (p_frame_error proto (header cmd) code (ascii ''68'')) \<rparr>)
           | None \<Rightarrow> (sh, t\<lparr> tk_phase := Writing cmd (p_frame_error proto (header cmd) code (ascii ''68'')) \<rparr>)))"

text \<open>One move of a task that is not waiting for its peer; \<open>None\<close> for one that is, or has ended.\<close>

definition advance :: "'w conn_ctx \<Rightarrow> 'w shared \<Rightarrow> task \<Rightarrow> ('w shared \<times> task) option" where
  "advance ctx sh t =
     (let proto = cx_protocol ctx in
      case tk_phase t of
        Reading \<Rightarrow> None
      | Ended e \<Rightarrow> None
      | Parsing \<Rightarrow>
          Some (case p_parse proto (tk_buf t) of
                  Ok None \<Rightarrow> (sh, t\<lparr> tk_phase := Reading \<rparr>)
                | Ok (Some cmd) \<Rightarrow> begin_command ctx sh t cmd
                | _ \<Rightarrow> (sh, t\<lparr> tk_phase := Ended ConnPanic \<rparr>))
      | Handling cmd io \<Rightarrow>
          Some (case io of
                  Done r \<Rightarrow> (sh, t\<lparr> tk_phase := Writing cmd (p_frame_response proto (header cmd)
                               (p_response_code proto (command_code cmd)) (error_code r) (payload r)) \<rparr>)
                | Panicked \<Rightarrow> (sh, t\<lparr> tk_phase := Ended ConnPanic \<rparr>)
                | Call rq k \<Rightarrow>
                    (case cx_service ctx (sh_world sh) rq of
                       (w, res) \<Rightarrow> (sh\<lparr> sh_world := w \<rparr>, t\<lparr> tk_phase := Handling cmd (k res) \<rparr>)))
      | Forwarding cmd frame \<Rightarrow>
          Some (case cx_forward ctx (sh_world sh) frame proto of
                  (w, r) \<Rightarrow>
                    (sh\<lparr> sh_world := w \<rparr>,
                     t\<lparr> tk_phase :=
                       (case r of
                          None \<Rightarrow> Ended Waiting
                        | Some (Ok resp) \<Rightarrow> Writing cmd resp
                        | Some (Err e) \<Rightarrow> Writing cmd (p_frame_error proto (header cmd) (command_code cmd) (ascii ''41''))
                        | Some Panic \<Rightarrow> Ended ConnPanic) \<rparr>))
      | Writing cmd resp \<Rightarrow>
          Some (case cx_write ctx (sh_world sh) resp of
                  (w, ok) \<Rightarrow>
                    (sh\<lparr> sh_world := w \<rparr>,
                     if \<not> ok then t\<lparr> tk_phase := Ended IoFailed \<rparr>
                     else if frame_len cmd \<le> length (tk_buf t) then
                       t\<lparr> tk_phase := Parsing, tk_out := tk_out t @ [resp], tk_buf := drop (frame_len cmd) (tk_buf t) \<rparr>
                     else t\<lparr> tk_phase := Ended ConnPanic, tk_out := tk_out t @ [resp] \<rparr>)))"

text \<open>What a read that completes does to a task that waits for it.\<close>

fun deliver :: "'w conn_ctx \<Rightarrow> task \<Rightarrow> read_event \<Rightarrow> task" where
  "deliver ctx t ReadTimeout =
     (case cx_idle_timeout ctx of Some _ \<Rightarrow> t\<lparr> tk_phase := Ended Closed \<rparr> | None \<Rightarrow> t)"
| "deliver ctx t ReadErr = t\<lparr> tk_phase := Ended IoFailed \<rparr>"
| "deliver ctx t (ReadBytes chunk) =
     (if chunk = [] then t\<lparr> tk_phase := Ended Closed \<rparr>
      else
        let t = t\<lparr> tk_buf := tk_buf t @ chunk \<rparr> in
        if length (tk_buf t) > MAX_INBOUND_ACCUMULATION then t\<lparr> tk_phase := Ended Closed \<rparr>
        else t\<lparr> tk_phase := Parsing \<rparr>)"

section \<open>A task alone\<close>

type_synonym 'w solo_state = "'w shared \<times> task \<times> read_event list"

definition solo :: "'w conn_ctx \<Rightarrow> 'w solo_state \<Rightarrow> 'w solo_state option" where
  "solo ctx = (\<lambda>(sh, t, evs).
     case advance ctx sh t of
       Some (sh', t') \<Rightarrow> Some (sh', t', evs)
     | None \<Rightarrow>
         (case (tk_phase t, evs) of
            (Reading, ev # evs') \<Rightarrow> Some (sh, deliver ctx t ev, evs')
          | _ \<Rightarrow> None))"

definition solo_step :: "'w conn_ctx \<Rightarrow> 'w solo_state \<Rightarrow> 'w solo_state \<Rightarrow> bool" where
  "solo_step ctx a b \<longleftrightarrow> solo ctx a = Some b"

abbreviation solo_steps :: "'w conn_ctx \<Rightarrow> 'w solo_state \<Rightarrow> 'w solo_state \<Rightarrow> bool" where
  "solo_steps ctx \<equiv> (solo_step ctx)\<^sup>*\<^sup>*"

lemma solo_advance:
  "advance ctx sh t = Some (sh', t') \<Longrightarrow> solo_step ctx (sh, t, evs) (sh', t', evs)"
  by (simp add: solo_step_def solo_def)

lemma solo_deliver:
  "tk_phase t = Reading \<Longrightarrow> solo_step ctx (sh, t, ev # evs) (sh, deliver ctx t ev, evs)"
  by (simp add: solo_step_def solo_def advance_def)

text \<open>A task moves in one way only, so it comes to rest in one way only.\<close>

lemma solo_steps_final:
  assumes "solo_steps ctx a b" and "solo_steps ctx a c" and "solo ctx b = None" and "solo ctx c = None"
  shows "b = c"
  using assms
proof (induction rule: converse_rtranclp_induct)
  case base
  then show ?case by (cases rule: converse_rtranclpE) (auto simp: solo_step_def)
next
  case (step a a')
  from step.prems(1) show ?case
  proof (cases rule: converse_rtranclpE)
    case base
    with step show ?thesis by (simp add: solo_step_def)
  next
    case (step x)
    with \<open>solo_step ctx a a'\<close> have "x = a'" by (simp add: solo_step_def)
    with step \<open>solo ctx b = None\<close> \<open>solo ctx c = None\<close> show ?thesis
      using \<open>\<lbrakk>solo_steps ctx a' c; solo ctx b = None; solo ctx c = None\<rbrakk> \<Longrightarrow> b = c\<close> by blast
  qed
qed

text \<open>A connection as a task in a given phase.\<close>

definition view :: "'w conn \<Rightarrow> phase \<Rightarrow> read_event list \<Rightarrow> 'w solo_state" where
  "view c ph evs = (cn_shared c, \<lparr> tk_phase = ph, tk_buf = cn_buf c, tk_out = cn_out c \<rparr>, evs)"

lemma handling_steps:
  assumes "run (cx_service ctx) io (sh_world sh) = (w, x)"
  shows "solo_steps ctx (sh, t\<lparr> tk_phase := Handling cmd io \<rparr>, evs)
    (sh\<lparr> sh_world := w \<rparr>, t\<lparr> tk_phase := (case x of
        None \<Rightarrow> Ended ConnPanic
      | Some r \<Rightarrow> Writing cmd (p_frame_response (cx_protocol ctx) (header cmd)
          (p_response_code (cx_protocol ctx) (command_code cmd)) (error_code r) (payload r))) \<rparr>, evs)"
  using assms
proof (induction io arbitrary: sh)
  case (Call rq k)
  obtain w' res where sv: "cx_service ctx (sh_world sh) rq = (w', res)" by force
  have "solo_step ctx (sh, t\<lparr> tk_phase := Handling cmd (Call rq k) \<rparr>, evs)
      (sh\<lparr> sh_world := w' \<rparr>, t\<lparr> tk_phase := Handling cmd (k res) \<rparr>, evs)"
    by (rule solo_advance) (simp add: advance_def sv)
  moreover from Call.prems sv have "run (cx_service ctx) (k res) (sh_world (sh\<lparr> sh_world := w' \<rparr>)) = (w, x)" by simp
  note Call.IH [OF _ this]
  ultimately show ?case by (simp add: converse_rtranclp_into_rtranclp)
qed (auto intro!: r_into_rtranclp solo_advance simp: advance_def Let_def)

lemma respond_steps:
  assumes "p_parse (cx_protocol ctx) (tk_buf t) = Ok (Some cmd)" and "tk_phase t = Parsing"
    and "respond ctx sh (tk_buf t) cmd = (sh', r)"
  shows "solo_steps ctx (sh, t, evs) (sh', t\<lparr> tk_phase := (case r of
      None \<Rightarrow> Ended Waiting | Some (Ok resp) \<Rightarrow> Writing cmd resp | Some _ \<Rightarrow> Ended ConnPanic) \<rparr>, evs)"
proof -
  define sh1 where "sh1 = sh\<lparr> sh_request_seq := sh_request_seq sh + 1 \<rparr>"
  obtain sh2 t2 where b: "begin_command ctx sh t cmd = (sh2, t2)" by force
  then have "solo_step ctx (sh, t, evs) (sh2, t2, evs)"
    by (intro solo_advance) (simp add: advance_def assms(1,2))
  moreover have "solo_steps ctx (sh2, t2, evs) (sh', t\<lparr> tk_phase := (case r of
      None \<Rightarrow> Ended Waiting | Some (Ok resp) \<Rightarrow> Writing cmd resp | Some _ \<Rightarrow> Ended ConnPanic) \<rparr>, evs)"
  proof (cases "registry_get (cx_registry ctx) (command_code cmd)")
    case (Some h)
    let ?io = "h_handle h (cx_state ctx) (command_code cmd) (cmd_payload cmd)"
    obtain w x where "run (cx_service ctx) ?io (sh_world sh1) = (w, x)" by force
    from handling_steps [OF this, where t = t and cmd = cmd and evs = evs] this Some b assms(3) show ?thesis
      by (cases x) (auto simp: begin_command_def respond_def Let_def sh1_def)
  next
    case None
    show ?thesis
    proof (cases "\<exists>d. cx_discover ctx = Some d \<and> dc_enabled d \<and> frame_len cmd \<le> length (tk_buf t)")
      case True
      let ?frame = "take (frame_len cmd) (tk_buf t)"
      obtain w x where fwd: "cx_forward ctx (sh_world sh) ?frame (cx_protocol ctx) = (w, x)" by force
      from True None b have t2: "t2 = t\<lparr> tk_phase := Forwarding cmd ?frame \<rparr>" and sh2: "sh_world sh2 = sh_world sh"
        by (auto simp: begin_command_def Let_def slice_def)
      from True None b assms(3) fwd have "sh' = sh2\<lparr> sh_world := w \<rparr>"
        "(case r of None \<Rightarrow> Ended Waiting | Some (Ok resp) \<Rightarrow> Writing cmd resp | Some _ \<Rightarrow> Ended ConnPanic) =
         (case x of None \<Rightarrow> Ended Waiting | Some (Ok resp) \<Rightarrow> Writing cmd resp
          | Some (Err e) \<Rightarrow> Writing cmd (p_frame_error (cx_protocol ctx) (header cmd) (command_code cmd) (ascii ''41''))
          | Some Panic \<Rightarrow> Ended ConnPanic)"
        by (auto simp: begin_command_def respond_def Let_def slice_def split: option.splits res.splits)
      with t2 sh2 fwd have "solo_step ctx (sh2, t2, evs) (sh', t\<lparr> tk_phase := (case r of
          None \<Rightarrow> Ended Waiting | Some (Ok resp) \<Rightarrow> Writing cmd resp | Some _ \<Rightarrow> Ended ConnPanic) \<rparr>, evs)"
        by (intro solo_advance) (simp add: advance_def Let_def)
      then show ?thesis by (rule r_into_rtranclp)
    next
      case False
      with None b assms(3) show ?thesis
        by (cases "cx_discover ctx") (auto simp: begin_command_def respond_def Let_def slice_def split: if_splits)
    qed
  qed
  ultimately show ?thesis by (rule converse_rtranclp_into_rtranclp)
qed

lemma serve_one_steps:
  assumes "p_parse (cx_protocol ctx) (cn_buf c) = Ok (Some cmd)" and "serve_one ctx c cmd = (c', e)"
  shows "solo_steps ctx (view c Parsing evs) (view c' (case e of None \<Rightarrow> Parsing | Some e' \<Rightarrow> Ended e') evs)"
proof -
  obtain sh r where r: "respond ctx (cn_shared c) (cn_buf c) cmd = (sh, r)" by force
  let ?t = "\<lparr> tk_phase = Parsing, tk_buf = cn_buf c, tk_out = cn_out c \<rparr>"
  have steps: "solo_steps ctx (view c Parsing evs) (sh, ?t\<lparr> tk_phase := (case r of
      None \<Rightarrow> Ended Waiting | Some (Ok resp) \<Rightarrow> Writing cmd resp | Some _ \<Rightarrow> Ended ConnPanic) \<rparr>, evs)"
    unfolding view_def by (rule respond_steps) (simp_all add: assms(1) r)
  show ?thesis
  proof (cases "\<exists>resp. r = Some (Ok resp)")
    case True
    then obtain resp w ok where resp: "r = Some (Ok resp)" and w: "cx_write ctx (sh_world sh) resp = (w, ok)" by force
    have "solo_step ctx (sh, ?t\<lparr> tk_phase := Writing cmd resp \<rparr>, evs)
        (view c' (case e of None \<Rightarrow> Parsing | Some e' \<Rightarrow> Ended e') evs)"
      unfolding view_def using assms(2) r resp w
      by (intro solo_advance) (auto simp: advance_def serve_one_def Let_def split: if_splits)
    with steps resp show ?thesis by (simp add: rtranclp.rtrancl_into_rtrancl)
  next
    case False
    with steps r assms(2) show ?thesis
      by (cases r) (auto simp: serve_one_def view_def split: res.splits)
  qed
qed

lemma serve_buffered_steps:
  assumes "serve_buffered ctx c = Some (c', e)"
  shows "solo_steps ctx (view c Parsing evs) (view c' (case e of None \<Rightarrow> Reading | Some e' \<Rightarrow> Ended e') evs)"
proof -
  let ?P = "\<lambda>ctx c y. solo_steps ctx (view c Parsing evs)
    (view (fst y) (case snd y of None \<Rightarrow> Reading | Some e' \<Rightarrow> Ended e') evs)"
  have "?P ctx c (c', e)"
  proof (rule serve_buffered.raw_induct [where P = ?P, OF _ assms])
    fix f and ctx :: "'a conn_ctx" and c y
    assume IH: "\<And>ctx c y. f ctx c = Some y \<Longrightarrow> ?P ctx c y"
      and body: "(case p_parse (cx_protocol ctx) (cn_buf c) of
          Ok None \<Rightarrow> Some (c, None)
        | Ok (Some cmd) \<Rightarrow>
            (case serve_one ctx c cmd of (c', None) \<Rightarrow> f ctx c' | (c', Some e) \<Rightarrow> Some (c', Some e))
        | _ \<Rightarrow> Some (c, Some ConnPanic)) = Some y"
    show "?P ctx c y"
    proof (cases "\<exists>cmd. p_parse (cx_protocol ctx) (cn_buf c) = Ok (Some cmd)")
      case True
      then obtain cmd c1 e1 where cmd: "p_parse (cx_protocol ctx) (cn_buf c) = Ok (Some cmd)"
          "serve_one ctx c cmd = (c1, e1)" by force
      note one = serve_one_steps [OF this, of evs]
      show ?thesis
      proof (cases e1)
        case None
        with body cmd have "f ctx c1 = Some y" by simp
        from IH [OF this] one None show ?thesis by (simp add: rtranclp_trans)
      next
        case (Some e')
        with body cmd one show ?thesis by auto
      qed
    next
      case False
      have "solo_step ctx (view c Parsing evs) (view (fst y) (case snd y of None \<Rightarrow> Reading | Some e' \<Rightarrow> Ended e') evs)"
        unfolding view_def using False body
        by (intro solo_advance) (auto simp: advance_def Let_def split: res.splits option.splits)
      then show ?thesis by (rule r_into_rtranclp)
    qed
  qed
  then show ?thesis by simp
qed

text \<open>The small-step task computes what the read loop computes.\<close>

lemma conn_loop_steps:
  assumes "conn_loop ctx c evs = Some (c', e)"
  shows "\<exists>ph evs'. solo_steps ctx (view c Reading evs) (view c' ph evs')
    \<and> (ph = Ended e \<or> ph = Reading \<and> evs' = [] \<and> e = Waiting)"
  using assms
proof (induction evs arbitrary: c)
  case Nil
  then show ?case by (intro exI [of _ Reading] exI [of _ "[]"]) simp
next
  case (Cons ev evs)
  have first: "solo_step ctx (view c Reading (ev # evs))
      (cn_shared c, deliver ctx \<lparr> tk_phase = Reading, tk_buf = cn_buf c, tk_out = cn_out c \<rparr> ev, evs)"
    unfolding view_def by (rule solo_deliver) simp
  let ?next = "(cn_shared c, deliver ctx \<lparr> tk_phase = Reading, tk_buf = cn_buf c, tk_out = cn_out c \<rparr> ev, evs)"
  consider (ends) "?next = view c' (Ended e) evs"
    | (skips) "?next = view c Reading evs" "conn_loop ctx c evs = Some (c', e)"
    | (serves) c1 c2 e2 where "?next = view c1 Parsing evs" "serve_buffered ctx c1 = Some (c2, e2)"
        "case e2 of None \<Rightarrow> conn_loop ctx c2 evs = Some (c', e) | Some e' \<Rightarrow> c' = c2 \<and> e = e'"
  proof (cases ev)
    case (ReadBytes ch)
    show thesis
    proof (cases "ch = [] \<or> length (cn_buf c @ ch) > MAX_INBOUND_ACCUMULATION")
      case True
      with Cons.prems ReadBytes show thesis by (intro ends) (auto simp: view_def Let_def split: if_splits)
    next
      case False
      define c1 where "c1 = c\<lparr> cn_buf := cn_buf c @ ch \<rparr>"
      have len: "length (cn_buf c1) = length (cn_buf c) + length ch" by (simp add: c1_def)
      from False Cons.prems ReadBytes obtain c2 e2 where sb: "serve_buffered ctx c1 = Some (c2, e2)"
        by (cases "serve_buffered ctx c1") (auto simp: c1_def Let_def)
      from False ReadBytes have "?next = view c1 Parsing evs" by (simp add: view_def c1_def Let_def)
      moreover from False Cons.prems ReadBytes sb
      have "case e2 of None \<Rightarrow> conn_loop ctx c2 evs = Some (c', e) | Some e' \<Rightarrow> c' = c2 \<and> e = e'"
        by (cases e2) (auto simp: c1_def [symmetric] Let_def len)
      ultimately show thesis using sb by (intro serves)
    qed
  qed (use Cons.prems ends skips in \<open>auto simp: view_def split: option.splits\<close>)
  then show ?case
  proof cases
    case ends
    with first have "solo_steps ctx (view c Reading (ev # evs)) (view c' (Ended e) evs)" by (simp add: r_into_rtranclp)
    then show ?thesis by blast
  next
    case skips
    from Cons.IH [OF skips(2)] first skips(1) show ?thesis by (auto intro: converse_rtranclp_into_rtranclp)
  next
    case serves
    note sb = converse_rtranclp_into_rtranclp [OF first [unfolded serves(1)] serve_buffered_steps [OF serves(2)]]
    show ?thesis
    proof (cases e2)
      case None
      with serves(3) Cons.IH [of c2] sb show ?thesis by (auto intro: rtranclp_trans)
    next
      case (Some e')
      with sb serves(3) show ?thesis by auto
    qed
  qed
qed

section \<open>Many tasks\<close>

text \<open>A move of the proxy: a task goes on to its next \<open>await\<close>, or a waiting one gets a read event.\<close>

datatype move = Advance nat | Deliver nat read_event

text \<open>
  The span of a request: every line logged while a command is served carries its id, the command code and
  the header the client sent.
\<close>

record request_span =
  sp_id :: "64 word"
  sp_cmd :: bytes
  sp_client_ref :: bytes

definition request_span_of :: "64 word \<Rightarrow> parsed_command \<Rightarrow> request_span" where
  "request_span_of req_id cmd =
     \<lparr> sp_id = req_id, sp_cmd = from_utf8_lossy (command_code cmd),
       sp_client_ref = encode_upper [fst (header cmd), snd (header cmd)] \<rparr>"

text \<open>The command the next move of a task begins, if it begins one.\<close>

definition next_command :: "'w conn_ctx \<Rightarrow> task \<Rightarrow> parsed_command option" where
  "next_command ctx t =
     (if tk_phase t = Parsing then (case p_parse (cx_protocol ctx) (tk_buf t) of Ok r \<Rightarrow> r | _ \<Rightarrow> None) else None)"

text \<open>
  The state of the whole proxy. Connections that have not been opened yet are tasks that have not
  moved. \<open>pr_spans\<close> lists the connections and spans of the commands begun so far: each move that
  begins a command opens a span with the value \<open>REQUEST_SEQ.fetch_add\<close> returns, the counter before the move.
\<close>

record 'w proxy =
  pr_shared :: "'w shared"
  pr_tasks :: "nat \<Rightarrow> task"
  pr_spans :: "(nat \<times> request_span) list"

definition proxy_start :: "'w shared \<Rightarrow> 'w proxy" where
  "proxy_start sh = \<lparr> pr_shared = sh, pr_tasks = (\<lambda>_. task_start), pr_spans = [] \<rparr>"

fun proxy_move :: "(nat \<Rightarrow> 'w conn_ctx) \<Rightarrow> move \<Rightarrow> 'w proxy \<Rightarrow> 'w proxy option" where
  "proxy_move ctx (Advance i) p =
     (case advance (ctx i) (pr_shared p) (pr_tasks p i) of
        None \<Rightarrow> None
      | Some (sh, t) \<Rightarrow>
          Some \<lparr> pr_shared = sh, pr_tasks = (pr_tasks p)(i := t),
                 pr_spans = pr_spans p @
                   (case next_command (ctx i) (pr_tasks p i) of
                      None \<Rightarrow> []
                    | Some cmd \<Rightarrow> [(i, request_span_of (sh_request_seq (pr_shared p)) cmd)]) \<rparr>)"
| "proxy_move ctx (Deliver i ev) p =
     (if tk_phase (pr_tasks p i) = Reading
      then Some (p\<lparr> pr_tasks := (pr_tasks p)(i := deliver (ctx i) (pr_tasks p i) ev) \<rparr>)
      else None)"

fun run_schedule :: "(nat \<Rightarrow> 'w conn_ctx) \<Rightarrow> move list \<Rightarrow> 'w proxy \<Rightarrow> 'w proxy option" where
  "run_schedule ctx [] p = Some p"
| "run_schedule ctx (m # ms) p =
     (case proxy_move ctx m p of None \<Rightarrow> None | Some p' \<Rightarrow> run_schedule ctx ms p')"

text \<open>The read events a schedule gives to a connection.\<close>

fun events_of :: "nat \<Rightarrow> move list \<Rightarrow> read_event list" where
  "events_of i [] = []"
| "events_of i (Deliver j ev # ms) = (if i = j then ev # events_of i ms else events_of i ms)"
| "events_of i (Advance j # ms) = events_of i ms"

text \<open>An invariant of single moves is an invariant of schedules.\<close>

lemma run_schedule_invariant:
  assumes "run_schedule ctx ms p = Some q" and "I p"
    and "\<And>m p q. I p \<Longrightarrow> proxy_move ctx m p = Some q \<Longrightarrow> I q"
  shows "I q"
  using assms(1,2)
proof (induction ms arbitrary: p)
  case (Cons m ms)
  then show ?case using assms(3) by (auto split: option.splits)
qed simp

section \<open>What the tasks share\<close>

text \<open>A move takes an id from the counter exactly when it begins a command, and keeps the discovery log in order.\<close>

lemma advance_shared:
  assumes "advance ctx sh t = Some (sh', t')"
  shows "sh_request_seq sh' = sh_request_seq sh + (if next_command ctx t = None then 0 else 1)"
    and "(\<forall>dl. sh_log sh = Some dl \<longrightarrow> log_ok dl) \<Longrightarrow> (\<forall>dl. sh_log sh' = Some dl \<longrightarrow> log_ok dl)"
  using assms
  by (cases "tk_phase t"; auto simp: advance_def Let_def begin_command_def next_command_def log_discovery_command_def
      log_ok_record split: res.splits option.splits prod.splits if_splits io.splits)+

definition ids_ok :: "64 word \<Rightarrow> 'w proxy \<Rightarrow> bool" where
  "ids_ok n p \<longleftrightarrow> map (sp_id \<circ> snd) (pr_spans p) = map (\<lambda>k. n + of_nat k) [0..<length (pr_spans p)]
     \<and> sh_request_seq (pr_shared p) = n + of_nat (length (pr_spans p))"

lemma ids_ok_move: "ids_ok n p \<Longrightarrow> proxy_move ctx m p = Some q \<Longrightarrow> ids_ok n q"
proof (induction ctx m p rule: proxy_move.induct)
  case (1 ctx i p)
  then obtain sh t where a: "advance (ctx i) (pr_shared p) (pr_tasks p i) = Some (sh, t)"
    by (auto split: option.splits)
  from 1 a advance_shared(1) [OF a] show ?case
    by (cases "next_command (ctx i) (pr_tasks p i)") (auto simp: ids_ok_def request_span_of_def)
qed (auto simp: ids_ok_def split: if_splits)

text \<open>The command a task is serving.\<close>

fun serving :: "phase \<Rightarrow> parsed_command option" where
  "serving (Handling cmd _) = Some cmd"
| "serving (Forwarding cmd _) = Some cmd"
| "serving (Writing cmd _) = Some cmd"
| "serving _ = None"

definition spans_of :: "nat \<Rightarrow> 'w proxy \<Rightarrow> request_span list" where
  "spans_of i p = map snd (filter (\<lambda>x. fst x = i) (pr_spans p))"

text \<open>A connection has a span for every response it has written, and one more for the command it serves.\<close>

definition spans_ok :: "task \<Rightarrow> request_span list \<Rightarrow> bool" where
  "spans_ok t ss \<longleftrightarrow>
     (case serving (tk_phase t) of
        Some cmd \<Rightarrow> \<exists>served req_id. ss = served @ [request_span_of req_id cmd] \<and> length served = length (tk_out t)
      | None \<Rightarrow>
          if tk_phase t = Reading \<or> tk_phase t = Parsing then length ss = length (tk_out t)
          else length (tk_out t) \<le> length ss \<and> length ss \<le> Suc (length (tk_out t)))"

lemma spans_ok_advance:
  assumes "advance ctx sh t = Some (sh', t')" and "spans_ok t ss"
  shows "spans_ok t' (ss @ (case next_command ctx t of None \<Rightarrow> [] | Some cmd \<Rightarrow> [request_span_of (sh_request_seq sh) cmd]))"
  using assms
  by (cases "tk_phase t"; auto simp: advance_def Let_def begin_command_def next_command_def spans_ok_def
      split: res.splits option.splits prod.splits if_splits io.splits)

lemma spans_ok_deliver: "tk_phase t = Reading \<Longrightarrow> spans_ok t ss \<Longrightarrow> spans_ok (deliver ctx t ev) ss"
  by (cases ev) (auto simp: spans_ok_def Let_def split: option.splits)

lemma spans_ok_move: "spans_ok (pr_tasks p i) (spans_of i p) \<Longrightarrow> proxy_move ctx m p = Some q
    \<Longrightarrow> spans_ok (pr_tasks q i) (spans_of i q)"
proof (induction ctx m p rule: proxy_move.induct)
  case (1 ctx j p)
  then obtain sh t where a: "advance (ctx j) (pr_shared p) (pr_tasks p j) = Some (sh, t)"
    by (auto split: option.splits)
  from 1 a spans_ok_advance [OF a, of "spans_of j p"] show ?case
    by (cases "next_command (ctx j) (pr_tasks p j)"; cases "j = i") (auto simp: spans_of_def)
qed (auto simp: spans_of_def spans_ok_deliver split: if_splits)

lemma log_move:
  "(\<forall>dl. sh_log (pr_shared p) = Some dl \<longrightarrow> log_ok dl) \<Longrightarrow> proxy_move ctx m p = Some q \<Longrightarrow>
    (\<forall>dl. sh_log (pr_shared q) = Some dl \<longrightarrow> log_ok dl)"
  by (cases m) (auto dest: advance_shared(2) split: option.splits if_splits)

lemma distinct_ids:
  assumes "n \<le> 2 ^ 64"
  shows "distinct (map (\<lambda>k. (a :: 64 word) + of_nat k) [0..<n])"
proof -
  have "inj_on (\<lambda>k. a + of_nat k) {0..<n}"
    by (rule inj_onI) (use assms in \<open>simp add: word_of_nat_eq_iff take_bit_nat_eq_self\<close>)
  then show ?thesis by (simp add: distinct_map)
qed

section \<open>No cross-talk\<close>

text \<open>
  An environment whose answers do not depend on what happened before. The moves of a task are then
  the same whatever the other tasks have done to the shared state.
\<close>

definition stateless :: "'w conn_ctx \<Rightarrow> bool" where
  "stateless ctx \<longleftrightarrow> (\<forall>w w' rq. snd (cx_service ctx w rq) = snd (cx_service ctx w' rq))
     \<and> (\<forall>w w' f pr. snd (cx_forward ctx w f pr) = snd (cx_forward ctx w' f pr))
     \<and> (\<forall>w w' b. snd (cx_write ctx w b) = snd (cx_write ctx w' b))"

lemma advance_stateless:
  assumes "stateless ctx" and "advance ctx sh t = Some (sh1, t')"
  shows "\<exists>sh2. advance ctx sh' t = Some (sh2, t')"
proof (cases "tk_phase t")
  case (Handling cmd io)
  with assms show ?thesis
    by (cases io) (auto simp: advance_def Let_def stateless_def split: prod.splits, metis snd_conv)
next
  case (Forwarding cmd frame)
  have "snd (cx_forward ctx (sh_world sh) frame (cx_protocol ctx)) = snd (cx_forward ctx (sh_world sh') frame (cx_protocol ctx))"
    using assms(1) by (simp add: stateless_def)
  with Forwarding assms(2) show ?thesis
    by (auto simp: advance_def Let_def split: prod.splits)
next
  case (Writing cmd resp)
  have "snd (cx_write ctx (sh_world sh) resp) = snd (cx_write ctx (sh_world sh') resp)"
    using assms(1) by (simp add: stateless_def)
  with Writing assms(2) show ?thesis
    by (auto simp: advance_def Let_def split: prod.splits)
qed (use assms(2) in \<open>auto simp: advance_def Let_def begin_command_def slice_def split: res.splits option.splits if_splits\<close>)

lemma schedule_solo:
  assumes "stateless (ctx i)" and "run_schedule ctx ms p = Some q"
  shows "\<exists>sh'. solo_steps (ctx i) (sh, pr_tasks p i, events_of i ms @ evs) (sh', pr_tasks q i, evs)"
  using assms(2)
proof (induction ms arbitrary: p sh)
  case (Cons m ms)
  then obtain p1 where m: "proxy_move ctx m p = Some p1" and r: "run_schedule ctx ms p1 = Some q"
    by (auto split: option.splits)
  have "\<exists>sh1. solo_steps (ctx i) (sh, pr_tasks p i, events_of i (m # ms) @ evs) (sh1, pr_tasks p1 i, events_of i ms @ evs)"
  proof (cases m)
    case (Advance j)
    with m obtain sh1 t where a: "advance (ctx j) (pr_shared p) (pr_tasks p j) = Some (sh1, t)"
        and p1: "pr_tasks p1 = (pr_tasks p)(j := t)"
      by (auto split: option.splits)
    show ?thesis
    proof (cases "j = i")
      case True
      with advance_stateless [OF assms(1)] a obtain sh2 where "advance (ctx i) sh (pr_tasks p i) = Some (sh2, t)"
        by blast
      from solo_advance [OF this] True p1 Advance show ?thesis by (auto intro: r_into_rtranclp)
    qed (use p1 Advance in auto)
  next
    case (Deliver j ev)
    show ?thesis
    proof (cases "j = i")
      case True
      with m Deliver have "tk_phase (pr_tasks p i) = Reading" "pr_tasks p1 i = deliver (ctx i) (pr_tasks p i) ev"
        by (auto split: if_splits)
      with solo_deliver [OF this(1), of "ctx i" sh ev "events_of i ms @ evs"] True Deliver show ?thesis
        by (auto intro: r_into_rtranclp)
    qed (use m Deliver in \<open>auto split: if_splits\<close>)
  qed
  then obtain sh1 where "solo_steps (ctx i) (sh, pr_tasks p i, events_of i (m # ms) @ evs) (sh1, pr_tasks p1 i, events_of i ms @ evs)" ..
  moreover from Cons.IH [OF r, of sh1] obtain sh' where "solo_steps (ctx i) (sh1, pr_tasks p1 i, events_of i ms @ evs) (sh', pr_tasks q i, evs)" ..
  ultimately show ?case by (blast intro: rtranclp_trans)
qed auto

text \<open>Two clients send a heartbeat each; their tasks take turns.\<close>

definition demo_schedule :: "move list" where
  "demo_schedule = [Deliver 0 (ReadBytes [0, 4, 1, 2, 0x42, 0x32]), Deliver 1 (ReadBytes [0, 4, 3]),
     Advance 0, Advance 1, Deliver 1 (ReadBytes [4, 0x42, 0x32]), Advance 1, Advance 0, Advance 1,
     Advance 0, Advance 1, Advance 0, Advance 1]"

lemma demo_schedule_runs:
  "\<exists>p. run_schedule (\<lambda>_. echo_ctx) demo_schedule
      (proxy_start \<lparr> sh_world = (), sh_request_seq = 1, sh_log = None \<rparr>) = Some p
    \<and> tk_phase (pr_tasks p 0) = Reading \<and> tk_out (pr_tasks p 0) = [[0, 6, 1, 2, 0x42, 0x33, 0x30, 0x30]]
    \<and> pr_spans p = [(0, request_span_of 1 heartbeat), (1, request_span_of 2 (heartbeat\<lparr> header := (3, 4) \<rparr>))]"
proof -
  have [simp]: "thales_parse [0, 4, 1, 2, 0x42, 0x32] = Ok (Some heartbeat)"
    "thales_parse [0, 4, 3, 4, 0x42, 0x32] = Ok (Some (heartbeat\<lparr> header := (3, 4) \<rparr>))"
    "thales_parse [0, 4, 3] = Ok None" "thales_parse [] = Ok None"
    by (simp_all add: thales_parse_def heartbeat_def index_def slice_def u16_from_be_bytes_def ascii_def)
  have [simp]: "thales_response_code (ascii ''B2'') = ascii ''B3''"
    by (simp add: thales_response_code_def get_def ascii_def)
  have [simp]: "thales_frame_response (1, 2) (ascii ''B3'') (ascii ''00'') [] = [0, 6, 1, 2, 0x42, 0x33, 0x30, 0x30]"
    by (simp add: thales_frame_response_def u16_to_be_bytes_def unat_of_nat ascii_def)
  show ?thesis
    by (simp add: demo_schedule_def proxy_start_def task_start_def advance_def begin_command_def next_command_def echo_ctx_def Let_def
        registry_get_B2 heartbeat_def HeartbeatHandler_def mk_handler_def heartbeat_handle_def
        MAX_INBOUND_ACCUMULATION_def ThalesPayShield_def)
qed

section \<open>Properties\<close>

text \<open>
  C4: connections do not interfere. If the answers of the service, of the forward leg and of the
  sockets do not depend on the order of requests, then under every interleaving of any number of
  connections, a connection that has come to rest has written exactly what it would have written
  alone, and holds the same unread bytes.
\<close>

theorem connections_do_not_interfere:
  assumes "cx_protocol (ctx i) = ThalesPayShield" and "stateless (ctx i)"
    and "run_schedule ctx ms (proxy_start sh) = Some p"
    and "tk_phase (pr_tasks p i) = Reading \<or> (\<exists>e. tk_phase (pr_tasks p i) = Ended e)"
    and "\<forall>ch. ReadBytes ch \<in> set (events_of i ms) \<longrightarrow> length ch \<le> READ_BUF"
  shows "\<exists>c e. handle_connection (ctx i) sh' (events_of i ms) = Some (c, e)
    \<and> cn_out c = tk_out (pr_tasks p i) \<and> cn_buf c = tk_buf (pr_tasks p i)
    \<and> tk_phase (pr_tasks p i) \<in> {Reading, Ended e}"
proof -
  let ?c = "\<lparr> cn_shared = sh', cn_buf = [], cn_out = [] \<rparr>" and ?evs = "events_of i ms"
  have "p_parse (cx_protocol (ctx i)) = thales_parse" by (simp add: assms(1))
  from thales.conn_loop_ends [OF this assms(5), of ?c] obtain c e
    where c: "conn_loop (ctx i) ?c ?evs = Some (c, e)" by auto
  from conn_loop_steps [OF this] obtain ph evs' where big: "solo_steps (ctx i) (view ?c Reading ?evs) (view c ph evs')"
      and ph: "ph = Ended e \<or> ph = Reading \<and> evs' = [] \<and> e = Waiting" by blast
  from schedule_solo [OF assms(2,3), of sh' "[]"] obtain sh1
    where "solo_steps (ctx i) (view ?c Reading ?evs) (sh1, pr_tasks p i, [])"
    by (auto simp: proxy_start_def task_start_def view_def)
  then have "(sh1, pr_tasks p i, []) = view c ph evs'"
    by (rule solo_steps_final [OF _ big]) (use assms(4) ph in \<open>auto simp: solo_def view_def advance_def\<close>)
  with c ph show ?thesis by (auto simp: handle_connection_def view_def)
qed

theorem connections_do_not_interfere_witness:
  "\<exists>c e. handle_connection echo_ctx \<lparr> sh_world = (), sh_request_seq = 1, sh_log = None \<rparr>
      [ReadBytes [0, 4, 1, 2, 0x42, 0x32]] = Some (c, e) \<and> cn_out c = [[0, 6, 1, 2, 0x42, 0x33, 0x30, 0x30]]"
proof -
  obtain p where p: "run_schedule (\<lambda>_. echo_ctx) demo_schedule
        (proxy_start \<lparr> sh_world = (), sh_request_seq = 1, sh_log = None \<rparr>) = Some p"
      "tk_phase (pr_tasks p 0) = Reading" "tk_out (pr_tasks p 0) = [[0, 6, 1, 2, 0x42, 0x33, 0x30, 0x30]]"
    using demo_schedule_runs by blast
  have evs: "events_of 0 demo_schedule = [ReadBytes [0, 4, 1, 2, 0x42, 0x32]]" by (simp add: demo_schedule_def)
  have "cx_protocol echo_ctx = ThalesPayShield" "stateless echo_ctx"
    by (simp_all add: echo_ctx_def stateless_def no_forward_leg_def)
  from connections_do_not_interfere [where ctx = "\<lambda>_. echo_ctx" and i = 0
      and sh' = "\<lparr> sh_world = (), sh_request_seq = 1, sh_log = None \<rparr>", OF this p(1), unfolded evs] p(2,3)
  show ?thesis by (auto simp: READ_BUF_def)
qed

text \<open>
  C25: whatever the interleaving, every command is served under a request id of its own. The spans opened by
  all connections together take the values of the counter in order and without gaps, so their ids are pairwise
  different for the first \<open>2^64\<close> commands; each connection has opened one span for every response it has
  written, and while it serves a command one more, whose code and client reference are those of that command;
  and the discovery log keeps one line per code.
\<close>

theorem request_ids_unique:
  assumes "run_schedule ctx ms (proxy_start sh) = Some p"
    and "\<forall>dl. sh_log sh = Some dl \<longrightarrow> log_ok dl"
  shows "map (sp_id \<circ> snd) (pr_spans p) = map (\<lambda>k. sh_request_seq sh + of_nat k) [0..<length (pr_spans p)]
    \<and> (length (pr_spans p) \<le> 2 ^ 64 \<longrightarrow> distinct (map (sp_id \<circ> snd) (pr_spans p)))
    \<and> (tk_phase (pr_tasks p i) = Reading \<longrightarrow> length (spans_of i p) = length (tk_out (pr_tasks p i)))
    \<and> (\<forall>cmd. serving (tk_phase (pr_tasks p i)) = Some cmd \<longrightarrow>
        (\<exists>served req_id. spans_of i p = served @ [request_span_of req_id cmd] \<and> length served = length (tk_out (pr_tasks p i))))
    \<and> (\<forall>dl. sh_log (pr_shared p) = Some dl \<longrightarrow> log_ok dl)"
proof -
  have "ids_ok (sh_request_seq sh) p"
    by (rule run_schedule_invariant [OF assms(1) _ ids_ok_move]) (simp_all add: ids_ok_def proxy_start_def)
  then have ids: "map (sp_id \<circ> snd) (pr_spans p) = map (\<lambda>k. sh_request_seq sh + of_nat k) [0..<length (pr_spans p)]"
    by (simp add: ids_ok_def)
  moreover from distinct_ids [of "length (pr_spans p)" "sh_request_seq sh"] ids
  have "length (pr_spans p) \<le> 2 ^ 64 \<longrightarrow> distinct (map (sp_id \<circ> snd) (pr_spans p))" by metis
  moreover have "spans_ok (pr_tasks p i) (spans_of i p)"
    by (rule run_schedule_invariant [OF assms(1) _ spans_ok_move])
      (simp_all add: proxy_start_def task_start_def spans_ok_def spans_of_def)
  moreover have "\<forall>dl. sh_log (pr_shared p) = Some dl \<longrightarrow> log_ok dl"
    by (rule run_schedule_invariant [OF assms(1) _ log_move]) (use assms(2) in \<open>simp_all add: proxy_start_def\<close>)
  ultimately show ?thesis by (auto simp: spans_ok_def)
qed

theorem request_ids_unique_witness:
  "\<exists>p. run_schedule (\<lambda>_. echo_ctx) demo_schedule
      (proxy_start \<lparr> sh_world = (), sh_request_seq = 1, sh_log = None \<rparr>) = Some p
    \<and> length (pr_spans p) = 2 \<and> distinct (map (sp_id \<circ> snd) (pr_spans p)) \<and> length (spans_of 0 p) = length (tk_out (pr_tasks p 0))"
proof -
  obtain p where p: "run_schedule (\<lambda>_. echo_ctx) demo_schedule
        (proxy_start \<lparr> sh_world = (), sh_request_seq = 1, sh_log = None \<rparr>) = Some p" "length (pr_spans p) = 2"
      "tk_phase (pr_tasks p 0) = Reading"
    using demo_schedule_runs by fastforce
  from request_ids_unique [OF p(1), of 0] p show ?thesis by auto
qed

end
