(* ===== verification/Accept_Loop.thy ===== *)
theory Accept_Loop
  imports Prelude "HOL-Library.Multiset"
begin

text \<open>
  The accept loop of \<open>run_with\<close> (\<open>src/src/server.rs\<close>) with its clock. The loop waits for a permit, holds
  it while it waits for a connection, and sleeps after a failed accept. A connection task holds its permit
  from the spawn to its end: through the TLS handshake if there is an acceptor, then through a read with the
  optional idle timeout, then through the commands the read completed, and again. Time passes in
  milliseconds; a timer that has run out fires before time goes on, and so does a loop that can take a permit.
\<close>

section \<open>The loop and its tasks\<close>

definition MAX_CONCURRENT_CONNECTIONS :: nat where
  "MAX_CONCURRENT_CONNECTIONS = 1024"

definition TLS_HANDSHAKE_TIMEOUT :: nat where
  "TLS_HANDSHAKE_TIMEOUT = 10 * 1000"

datatype accept_phase = Acquiring | Accepting | BackingOff nat

text \<open>
  What a task awaits, with the time it has waited: the handshake, a read, or, while it serves commands, the
  service, the forward leg and its writes, which have no timer in this loop.
\<close>

datatype task_phase = Handshake nat | AwaitingRead nat | Serving

record listener =
  ls_phase :: accept_phase
  ls_permits :: nat
  ls_tasks :: "task_phase multiset"

definition listener_start :: listener where
  "listener_start = \<lparr> ls_phase = Acquiring, ls_permits = MAX_CONCURRENT_CONNECTIONS, ls_tasks = {#} \<rparr>"

text \<open>The timers: \<open>timeout(TLS_HANDSHAKE_TIMEOUT, ..)\<close> and \<open>timeout(t, socket.read(..))\<close>.\<close>

fun due :: "nat option \<Rightarrow> task_phase \<Rightarrow> bool" where
  "due idle (Handshake e) \<longleftrightarrow> TLS_HANDSHAKE_TIMEOUT \<le> e"
| "due idle (AwaitingRead e) \<longleftrightarrow> (case idle of Some t \<Rightarrow> 1000 * t \<le> e | None \<Rightarrow> False)"
| "due idle Serving \<longleftrightarrow> False"

fun wait_task :: "task_phase \<Rightarrow> task_phase" where
  "wait_task (Handshake e) = Handshake (Suc e)"
| "wait_task (AwaitingRead e) = AwaitingRead (Suc e)"
| "wait_task Serving = Serving"

fun wait_loop :: "accept_phase \<Rightarrow> accept_phase" where
  "wait_loop (BackingOff e) = BackingOff (Suc e)"
| "wait_loop ph = ph"

text \<open>Who makes a step: the clock, a timer, the loop itself, or clients, service and operating system.\<close>

datatype actor = Clock | Timer | Loop | Outside

inductive accept_step :: "bool \<Rightarrow> nat option \<Rightarrow> actor \<Rightarrow> listener \<Rightarrow> listener \<Rightarrow> bool"
  for tls :: bool and idle :: "nat option" where
  acquire: "accept_step tls idle Loop \<lparr> ls_phase = Acquiring, ls_permits = Suc n, ls_tasks = ts \<rparr>
      \<lparr> ls_phase = Accepting, ls_permits = n, ls_tasks = ts \<rparr>"
| accept_ok: "accept_step tls idle Outside \<lparr> ls_phase = Accepting, ls_permits = n, ls_tasks = ts \<rparr>
      \<lparr> ls_phase = Acquiring, ls_permits = n,
        ls_tasks = add_mset (if tls then Handshake 0 else AwaitingRead 0) ts \<rparr>"
| accept_err: "accept_step tls idle Outside \<lparr> ls_phase = Accepting, ls_permits = n, ls_tasks = ts \<rparr>
      \<lparr> ls_phase = BackingOff 0, ls_permits = Suc n, ls_tasks = ts \<rparr>"
| backed_off: "50 \<le> e \<Longrightarrow> accept_step tls idle Loop \<lparr> ls_phase = BackingOff e, ls_permits = n, ls_tasks = ts \<rparr>
      \<lparr> ls_phase = Acquiring, ls_permits = n, ls_tasks = ts \<rparr>"
| handshake_ok: "accept_step tls idle Outside \<lparr> ls_phase = ph, ls_permits = n, ls_tasks = add_mset (Handshake e) ts \<rparr>
      \<lparr> ls_phase = ph, ls_permits = n, ls_tasks = add_mset (AwaitingRead 0) ts \<rparr>"
| read_ok: "accept_step tls idle Outside \<lparr> ls_phase = ph, ls_permits = n, ls_tasks = add_mset (AwaitingRead e) ts \<rparr>
      \<lparr> ls_phase = ph, ls_permits = n, ls_tasks = add_mset Serving ts \<rparr>"
| served: "accept_step tls idle Outside \<lparr> ls_phase = ph, ls_permits = n, ls_tasks = add_mset Serving ts \<rparr>
      \<lparr> ls_phase = ph, ls_permits = n, ls_tasks = add_mset (AwaitingRead 0) ts \<rparr>"
| task_exit: "accept_step tls idle Outside \<lparr> ls_phase = ph, ls_permits = n, ls_tasks = add_mset t ts \<rparr>
      \<lparr> ls_phase = ph, ls_permits = Suc n, ls_tasks = ts \<rparr>"
| expire: "due idle t \<Longrightarrow> accept_step tls idle Timer \<lparr> ls_phase = ph, ls_permits = n, ls_tasks = add_mset t ts \<rparr>
      \<lparr> ls_phase = ph, ls_permits = Suc n, ls_tasks = ts \<rparr>"
| tick: "(\<forall>t \<in># ts. \<not> due idle t) \<Longrightarrow> (ph = Acquiring \<longrightarrow> n = 0) \<Longrightarrow> (\<forall>e. ph = BackingOff e \<longrightarrow> e < 50)
      \<Longrightarrow> accept_step tls idle Clock \<lparr> ls_phase = ph, ls_permits = n, ls_tasks = ts \<rparr>
        \<lparr> ls_phase = wait_loop ph, ls_permits = n, ls_tasks = image_mset wait_task ts \<rparr>"

inductive reachable :: "bool \<Rightarrow> nat option \<Rightarrow> listener \<Rightarrow> bool" for tls :: bool and idle :: "nat option" where
  start: "reachable tls idle listener_start"
| step: "reachable tls idle l \<Longrightarrow> accept_step tls idle a l l' \<Longrightarrow> reachable tls idle l'"

text \<open>A run, with the actors of its steps.\<close>

inductive accept_run :: "bool \<Rightarrow> nat option \<Rightarrow> actor list \<Rightarrow> listener \<Rightarrow> listener \<Rightarrow> bool"
  for tls :: bool and idle :: "nat option" where
  here: "accept_run tls idle [] l l"
| more: "accept_run tls idle as l l' \<Longrightarrow> accept_step tls idle a l' l'' \<Longrightarrow> accept_run tls idle (as @ [a]) l l''"

section \<open>Permits\<close>

definition listener_inv :: "bool \<Rightarrow> listener \<Rightarrow> bool" where
  "listener_inv tls l \<longleftrightarrow>
     ls_permits l + size (ls_tasks l) + (if ls_phase l = Accepting then 1 else 0)
       = MAX_CONCURRENT_CONNECTIONS
     \<and> (\<not> tls \<longrightarrow> (\<forall>e. Handshake e \<notin># ls_tasks l))"

lemma wait_task_Handshake: "Handshake e = wait_task t \<Longrightarrow> \<exists>d. t = Handshake d"
  by (cases t) auto

lemma wait_loop_simps [simp]: "wait_loop ph = Accepting \<longleftrightarrow> ph = Accepting" "wait_loop ph = Acquiring \<longleftrightarrow> ph = Acquiring"
  by (cases ph; simp)+

lemma accept_step_inv: "accept_step tls idle a l l' \<Longrightarrow> listener_inv tls l \<Longrightarrow> listener_inv tls l'"
proof (induction rule: accept_step.induct)
  case (tick ts ph n)
  then show ?case by (auto simp: listener_inv_def dest: wait_task_Handshake)
qed (auto simp: listener_inv_def)

lemma reachable_inv: "reachable tls idle l \<Longrightarrow> listener_inv tls l"
proof (induction rule: reachable.induct)
  case start
  then show ?case by (simp add: listener_inv_def listener_start_def)
qed (rule accept_step_inv)

text \<open>Every client opens a connection and says nothing.\<close>

lemma all_connected:
  assumes "n \<le> MAX_CONCURRENT_CONNECTIONS"
  shows "reachable tls idle \<lparr> ls_phase = Acquiring, ls_permits = MAX_CONCURRENT_CONNECTIONS - n,
    ls_tasks = replicate_mset n (if tls then Handshake 0 else AwaitingRead 0) \<rparr>"
  using assms
proof (induction n)
  case 0
  then show ?case using start [unfolded listener_start_def] by simp
next
  case (Suc n)
  then obtain m where m: "MAX_CONCURRENT_CONNECTIONS - n = Suc m" "MAX_CONCURRENT_CONNECTIONS - Suc n = m"
    by (metis Suc_diff_Suc Suc_le_lessD)
  from Suc.IH Suc.prems have "reachable tls idle \<lparr> ls_phase = Acquiring, ls_permits = Suc m,
      ls_tasks = replicate_mset n (if tls then Handshake 0 else AwaitingRead 0) \<rparr>" by (simp add: m)
  from step [OF step [OF this acquire] accept_ok] show ?case by (simp add: m)
qed

section \<open>Stalled clients\<close>

fun waited :: "task_phase \<Rightarrow> nat" where
  "waited (Handshake e) = e"
| "waited (AwaitingRead e) = e"
| "waited Serving = 0"

text \<open>The loop waits for a permit, and there is one or a task has waited for its client this long.\<close>

definition stalled :: "nat \<Rightarrow> listener \<Rightarrow> bool" where
  "stalled d l \<longleftrightarrow> ls_phase l = Acquiring \<and> (ls_permits l \<noteq> 0 \<or> (\<exists>t \<in># ls_tasks l. t \<noteq> Serving \<and> d \<le> waited t))"

lemma waited_wait: "t \<noteq> Serving \<Longrightarrow> wait_task t \<noteq> Serving \<and> waited (wait_task t) = Suc (waited t)"
  by (cases t) simp_all

lemma not_due_bound: "t \<noteq> Serving \<Longrightarrow> \<not> due (Some s) t \<Longrightarrow> waited t < max TLS_HANDSHAKE_TIMEOUT (1000 * s)"
  by (cases t) auto

lemma stalled_step:
  assumes "accept_step tls (Some s) a l l'" and "stalled d l" and "a = Clock \<or> a = Timer"
  shows "if a = Clock then d < max TLS_HANDSHAKE_TIMEOUT (1000 * s) \<and> stalled (Suc d) l' else stalled d l'"
  using assms
proof (induction rule: accept_step.induct)
  case (tick ts ph n)
  then obtain t where t: "t \<in># ts" "t \<noteq> Serving" "d \<le> waited t" by (auto simp: stalled_def)
  then have "waited t < max TLS_HANDSHAKE_TIMEOUT (1000 * s)" using tick not_due_bound by blast
  moreover have "wait_task t \<in># image_mset wait_task ts" using t(1) by auto
  ultimately show ?case using t waited_wait [OF t(2)] tick by (auto simp: stalled_def)
qed (auto simp: stalled_def)

lemma stalled_run:
  assumes "accept_run tls (Some s) as l l'" and "set as \<subseteq> {Clock, Timer}" and "stalled d l"
  shows "stalled (d + count_list as Clock) l' \<and> (Clock \<in> set as \<longrightarrow> d + count_list as Clock \<le> max TLS_HANDSHAKE_TIMEOUT (1000 * s))"
  using assms
proof (induction rule: accept_run.induct)
  case (more as l l' a l'')
  then have IH: "stalled (d + count_list as Clock) l'" and a: "a = Clock \<or> a = Timer" by auto
  from stalled_step [OF more.hyps(2) IH a] more a show ?case by (auto split: if_splits)
qed simp

text \<open>A loop that waits for a permit is never stuck without the outside.\<close>

lemma stalled_progress:
  assumes "stalled d l"
  shows "(\<exists>l'. accept_step tls idle Loop l l' \<and> ls_phase l' = Accepting)
    \<or> (\<exists>l' l''. accept_step tls idle Timer l l' \<and> accept_step tls idle Loop l' l'' \<and> ls_phase l'' = Accepting)
    \<or> (\<exists>l'. accept_step tls idle Clock l l')"
proof -
  obtain n ts where l: "l = \<lparr> ls_phase = Acquiring, ls_permits = n, ls_tasks = ts \<rparr>"
    using assms by (cases l) (simp add: stalled_def)
  consider m where "n = Suc m" | t ts' where "n = 0" "ts = add_mset t ts'" "due idle t"
    | "n = 0" "\<forall>t \<in># ts. \<not> due idle t"
    by (cases n) (auto dest: multi_member_split)
  then show ?thesis
  proof cases
    case 1
    have "accept_step tls idle Loop l \<lparr> ls_phase = Accepting, ls_permits = m, ls_tasks = ts \<rparr>"
      unfolding l 1 by (rule acquire)
    then show ?thesis by fastforce
  next
    case 2
    have "accept_step tls idle Timer l \<lparr> ls_phase = Acquiring, ls_permits = Suc n, ls_tasks = ts' \<rparr>"
      unfolding l 2 by (rule expire [OF 2(3)])
    with acquire [of tls idle n ts'] show ?thesis by fastforce
  next
    case 3
    have "accept_step tls idle Clock l \<lparr> ls_phase = wait_loop Acquiring, ls_permits = n, ls_tasks = image_mset wait_task ts \<rparr>"
      unfolding l using 3 by (intro tick) auto
    then show ?thesis by blast
  qed
qed

lemma accept_run_Cons: "accept_step tls idle a l l' \<Longrightarrow> accept_run tls idle as l' l'' \<Longrightarrow> accept_run tls idle (a # as) l l''"
proof (rotate_tac, induction rule: accept_run.induct)
  case (here l')
  from more [OF accept_run.here here] show ?case by simp
next
  case (more as l1 l2 b l3)
  from accept_run.more [OF more.IH [OF more.prems] more.hyps(2)] show ?case by simp
qed

lemma stalled_recovers:
  assumes "stalled d l"
  shows "\<exists>as l'. accept_run tls (Some s) as l l' \<and> Outside \<notin> set as \<and> ls_phase l' = Accepting
    \<and> count_list as Clock \<le> max TLS_HANDSHAKE_TIMEOUT (1000 * s) - d"
  using assms
proof (induction "max TLS_HANDSHAKE_TIMEOUT (1000 * s) - d" arbitrary: d l rule: less_induct)
  case less
  from stalled_progress [OF less.prems, of tls "Some s"] show ?case
  proof (elim disjE exE conjE)
    fix l' assume "accept_step tls (Some s) Loop l l'" "ls_phase l' = Accepting"
    with accept_run_Cons [OF _ here] show ?thesis by (intro exI [of _ "[Loop]"] exI [of _ l']) auto
  next
    fix l' l'' assume "accept_step tls (Some s) Timer l l'" "accept_step tls (Some s) Loop l' l''" "ls_phase l'' = Accepting"
    with accept_run_Cons [OF _ accept_run_Cons [OF _ here]] show ?thesis
      by (intro exI [of _ "[Timer, Loop]"] exI [of _ l'']) auto
  next
    fix l' assume l': "accept_step tls (Some s) Clock l l'"
    with stalled_step [OF l' less.prems] have d: "d < max TLS_HANDSHAKE_TIMEOUT (1000 * s)" "stalled (Suc d) l'" by auto
    from d(1) have "max TLS_HANDSHAKE_TIMEOUT (1000 * s) - Suc d < max TLS_HANDSHAKE_TIMEOUT (1000 * s) - d"
      by (rule diff_less_mono2 [OF lessI])
    from less.hyps [OF this d(2)] obtain as l'' where "accept_run tls (Some s) as l' l''" "Outside \<notin> set as" "ls_phase l'' = Accepting"
        "count_list as Clock \<le> max TLS_HANDSHAKE_TIMEOUT (1000 * s) - Suc d"
      by blast
    with l' d(1) accept_run_Cons show ?thesis by (intro exI [of _ "Clock # as"] exI [of _ l'']) fastforce
  qed
qed

text \<open>
  Without an idle timeout clients that say nothing keep their permits: when they hold all of them, the loop
  accepts nobody until the outside does something.
\<close>

definition all_idle :: "listener \<Rightarrow> bool" where
  "all_idle l \<longleftrightarrow> ls_phase l = Acquiring \<and> ls_permits l = 0 \<and> (\<forall>t \<in># ls_tasks l. \<exists>e. t = AwaitingRead e)"

lemma idle_clients_stall:
  assumes "accept_run tls None as l l'" and "Outside \<notin> set as" and "all_idle l"
  shows "all_idle l'"
  using assms
proof (induction rule: accept_run.induct)
  case (more as l l' a l'')
  then have "all_idle l'" "a \<noteq> Outside" by auto
  with more.hyps(2) show ?case by (cases rule: accept_step.cases) (auto simp: all_idle_def)
qed

section \<open>Properties\<close>

text \<open>
  C23: in every reachable state of the accept loop the free permits, the running connection
  tasks and the permit held while accepting add up to 1024, so never more than 1024 tasks run;
  without TLS no task is in a handshake.
\<close>

theorem connection_limit:
  assumes "reachable tls idle l"
  shows "ls_permits l + size (ls_tasks l) + (if ls_phase l = Accepting then 1 else 0) = 1024
    \<and> size (ls_tasks l) \<le> 1024 \<and> (tls \<or> (\<forall>e. Handshake e \<notin># ls_tasks l))"
  using reachable_inv [OF assms] by (auto simp: listener_inv_def MAX_CONCURRENT_CONNECTIONS_def)

theorem connection_limit_witness:
  "ls_permits \<lparr> ls_phase = Acquiring, ls_permits = 0, ls_tasks = replicate_mset 1024 (AwaitingRead 0) \<rparr>
    + size (replicate_mset 1024 (AwaitingRead 0)) = 1024"
  using connection_limit [OF all_connected [of 1024 False None]] by (simp add: MAX_CONCURRENT_CONNECTIONS_def)

text \<open>
  C24: stalled clients cannot keep the proxy from accepting when \<open>listen.read_timeout_secs\<close> is set. Suppose the
  loop waits for a permit and at least one connection waits for its client, in the TLS handshake or in a read
  (or a permit is free), and from now on clients, service and operating system do nothing. Then the loop is
  accepting again after no more time than the longer of the handshake timeout of ten seconds and the read
  timeout; every run that lasts longer has taken a permit; and until then some timer, the clock or the
  loop can always move, so time is never blocked. (Connections that wait for the service or for a client to
  take a response have no timer here, and without a read timeout idle clients are never evicted.)
\<close>

theorem stalled_clients_evicted:
  assumes "ls_phase l = Acquiring" and "ls_permits l \<noteq> 0 \<or> (\<exists>t \<in># ls_tasks l. t \<noteq> Serving)"
  shows "(\<exists>as l'. accept_run tls (Some s) as l l' \<and> Outside \<notin> set as \<and> ls_phase l' = Accepting
        \<and> count_list as Clock \<le> max 10000 (1000 * s))
    \<and> (\<forall>as l'. accept_run tls (Some s) as l l' \<and> Outside \<notin> set as \<and> Loop \<notin> set as
        \<longrightarrow> count_list as Clock \<le> max 10000 (1000 * s)
          \<and> (\<exists>a l''. a \<noteq> Outside \<and> accept_step tls (Some s) a l' l''))"
proof -
  have stalled: "stalled 0 l" using assms by (auto simp: stalled_def)
  have limit: "TLS_HANDSHAKE_TIMEOUT = 10000" by (simp add: TLS_HANDSHAKE_TIMEOUT_def)
  from stalled_recovers [OF stalled, of tls s] have "\<exists>as l'. accept_run tls (Some s) as l l' \<and> Outside \<notin> set as
      \<and> ls_phase l' = Accepting \<and> count_list as Clock \<le> max 10000 (1000 * s)" by (simp add: limit)
  moreover have "count_list as Clock \<le> max 10000 (1000 * s) \<and> (\<exists>a l''. a \<noteq> Outside \<and> accept_step tls (Some s) a l' l'')"
    if "accept_run tls (Some s) as l l'" and "Outside \<notin> set as" and "Loop \<notin> set as" for as l'
  proof -
    have "a \<in> {Clock, Timer}" if "a \<in> set as" for a
      by (rule actor.exhaust [of a]) (use that \<open>Outside \<notin> set as\<close> \<open>Loop \<notin> set as\<close> in auto)
    then have "set as \<subseteq> {Clock, Timer}" by blast
    from stalled_run [OF that(1) this stalled] have run: "stalled (count_list as Clock) l'"
      "Clock \<in> set as \<longrightarrow> count_list as Clock \<le> max 10000 (1000 * s)" by (simp_all add: limit)
    from stalled_progress [OF run(1), of tls "Some s"] have "\<exists>a l''. a \<noteq> Outside \<and> accept_step tls (Some s) a l' l''"
      by blast
    with run(2) show ?thesis by (cases "Clock \<in> set as") simp_all
  qed
  ultimately show ?thesis by blast
qed

theorem stalled_clients_evicted_witness:
  "\<exists>l. reachable True (Some 5) l \<and> ls_permits l = 0 \<and> size (ls_tasks l) = 1024
    \<and> (\<exists>as l'. accept_run True (Some 5) as l l' \<and> Outside \<notin> set as \<and> ls_phase l' = Accepting
        \<and> count_list as Clock \<le> 10000)"
proof -
  define l where "l = \<lparr> ls_phase = Acquiring, ls_permits = 0, ls_tasks = replicate_mset 1024 (Handshake 0) \<rparr>"
  have "reachable True (Some 5) l"
    using all_connected [of 1024 True "Some 5"] by (simp add: MAX_CONCURRENT_CONNECTIONS_def l_def)
  with stalled_clients_evicted [of l True 5] show ?thesis by (intro exI [of _ l]) (simp add: l_def)
qed

end
