(* ===== verification/Key_Blocks.thy ===== *)
theory Key_Blocks
  imports Key_Fields
begin

text \<open>
  From a key block on the wire to a key of the inventory: the block parser of
  \<open>src/src/handlers/thales/common.rs\<close>, the optional-block walk and the resolution of
  \<open>src/src/key_map.rs\<close> together. A block in payShield form is an \<open>S\<close>, the sixteen header
  characters, and a body whose optional blocks may carry the check value.
\<close>

section \<open>The wire form of a key block\<close>

record key_block_wire =
  kb_version :: byte
  kb_length :: bytes
  kb_usage :: bytes
  kb_algorithm :: byte
  kb_attributes :: bytes
  kb_count :: bytes
  kb_reserved :: bytes
  kb_body :: bytes

definition key_block_field :: "key_block_wire \<Rightarrow> bytes" where
  "key_block_field w =
     [0x53, kb_version w] @ kb_length w @ kb_usage w @ [kb_algorithm w] @ kb_attributes w
       @ kb_count w @ kb_reserved w @ kb_body w"

text \<open>The header announces the length of the block and the number of its optional blocks.\<close>

definition key_block_ok :: "key_block_wire \<Rightarrow> nat \<Rightarrow> bool" where
  "key_block_ok w n \<longleftrightarrow> length (kb_length w) = 4 \<and> length (kb_usage w) = 2 \<and> length (kb_attributes w) = 4
     \<and> length (kb_count w) = 2 \<and> length (kb_reserved w) = 2 \<and> is_ascii (key_block_field w)
     \<and> from_str_radix 10 (kb_length w) = Some (16 + length (kb_body w))
     \<and> from_str_radix 10 (kb_count w) = Some n"

lemma utf8_or_malformed_ascii: "is_ascii s \<Longrightarrow> utf8_or_malformed s = Ok s"
  by (simp add: utf8_or_malformed_def from_utf8_def is_ascii_utf8_valid)

lemma parse_key_block:
  assumes "key_block_ok w n" and "scan_kc_optional_block (kb_body w) n = Ok v"
  shows "parse_tr31_block (pre @ key_block_field w @ post) (length pre) =
    Ok (\<lparr> raw = key_block_field w,
          block = Some \<lparr> key_usage = kb_usage w, algorithm = kb_algorithm w, kcv = v \<rparr> \<rparr>, 17 + length (kb_body w))"
proof -
  define hdr where "hdr = kb_length w @ kb_usage w @ [kb_algorithm w] @ kb_attributes w @ kb_count w @ kb_reserved w"
  define blk where "blk = kb_version w # hdr @ kb_body w @ post"
  have f: "key_block_field w = 0x53 # kb_version w # hdr @ kb_body w" by (simp add: key_block_field_def hdr_def)
  have len: "length hdr = 15" and lens: "length (kb_length w) = 4" "length (kb_usage w) = 2"
      "length (kb_attributes w) = 4" "length (kb_count w) = 2" "length (kb_reserved w) = 2"
    and asc: "is_ascii (kb_length w)" "is_ascii (kb_usage w)" "is_ascii (kb_count w)" "is_ascii (key_block_field w)"
    and radix: "from_str_radix 10 (kb_length w) = Some (16 + length (kb_body w))" "from_str_radix 10 (kb_count w) = Some n"
    using assms(1) by (simp_all add: key_block_ok_def hdr_def key_block_field_def is_ascii_def)
  have rem: "drop (length pre) (pre @ key_block_field w @ post) = 0x53 # blk" by (simp add: f blk_def)
  have slices: "slice blk 1 5 = (Ok (kb_length w) :: bytes result)" "slice blk 5 7 = (Ok (kb_usage w) :: bytes result)"
      "index blk 7 = (Ok (kb_algorithm w) :: byte result)" "slice blk 12 14 = (Ok (kb_count w) :: bytes result)"
      "slice blk 16 (16 + length (kb_body w)) = (Ok (kb_body w) :: bytes result)"
    using lens by (simp_all add: slice_def index_def blk_def hdr_def nth_append drop_Cons' take_Cons')
  have raw: "slice (0x53 # blk) 0 (1 + (16 + length (kb_body w))) = (Ok (key_block_field w) :: bytes result)"
    using len by (simp add: slice_def blk_def f take_Cons')
  have tail: "slice (0x53 # blk) (Suc 0) (17 + (length (kb_body w) + length post)) = (Ok blk :: bytes result)"
    using len by (simp add: slice_def blk_def)
  have blk_len: "length blk = 16 + length (kb_body w) + length post" using len by (simp add: blk_def)
  show ?thesis
    unfolding parse_tr31_block_def rem Let_def
    using blk_len slices raw asc radix assms(2)
    by (simp add: tail utf8_or_malformed_ascii radix_or_malformed_def is_ascii_lossy_id)
qed

lemma key_block_not_identifier: "\<not> is_apc_identifier (key_block_field w)"
  by (rule not_apc_identifier) (simp_all add: key_block_field_def)

section \<open>Key fields in any form\<close>

text \<open>A text that a parser reads as a value at every offset and whatever follows.\<close>

definition field_of :: "(bytes \<Rightarrow> nat \<Rightarrow> ('a \<times> nat) result) \<Rightarrow> bytes \<Rightarrow> 'a \<Rightarrow> bool" where
  "field_of parse w d \<longleftrightarrow> (\<forall>pre post. parse (pre @ w @ post) (length pre) = Ok (d, length w))"

lemma field_of_start: "field_of parse w d \<Longrightarrow> parse (w @ post) 0 = Ok (d, length w)"
  unfolding field_of_def by (metis append_Nil list.size(3))

lemma field_of_at: "field_of parse w d \<Longrightarrow> buf = pre @ w @ post \<Longrightarrow> n = length pre \<Longrightarrow> parse buf n = Ok (d, length w)"
  by (simp add: field_of_def)

lemma reads_field: "field_of parse w d \<Longrightarrow> reads (fr_parse_with parse) w d"
  by (simp add: field_of_def reads_parse_with)

text \<open>
  What the handlers need of a key-field parser: \<open>S\<close> starts a key block, every other first character
  selects the width of a label. The parsers of the module differ in these widths.
\<close>

locale key_parser =
  fixes parse :: "bytes \<Rightarrow> nat \<Rightarrow> (key_descriptor \<times> nat) result" and width :: "byte \<Rightarrow> nat"
  assumes parse_form: "parse buf off =
    (case first (drop off buf) of
       None \<Rightarrow> Err MalformedPayload
     | Some c \<Rightarrow> if c = 0x53 then parse_tr31_block buf off else parse_fixed_key (drop off buf) (width c))"
begin

lemma label_field:
  assumes "w \<noteq> []" and "hd w \<noteq> 0x53" and "is_ascii w" and "length w = width (hd w)"
  shows "field_of parse w (label w)"
proof -
  have "first (w @ post) = Some (hd w)" for post using assms(1) by (cases w) simp_all
  with assms show ?thesis by (simp add: field_of_def parse_form parse_fixed_key_Ok_iff is_ascii_lossy_id)
qed

lemma block_field:
  assumes "key_block_ok w n" and "scan_kc_optional_block (kb_body w) n = Ok v"
  shows "field_of parse (key_block_field w)
    \<lparr> raw = key_block_field w, block = Some \<lparr> key_usage = kb_usage w, algorithm = kb_algorithm w, kcv = v \<rparr> \<rparr>"
proof -
  have "length (key_block_field w) = 17 + length (kb_body w)"
    using assms(1) by (simp add: key_block_field_def key_block_ok_def)
  moreover have "first (key_block_field w @ post) = Some 0x53" for post by (simp add: key_block_field_def)
  ultimately show ?thesis by (simp add: field_of_def parse_form parse_key_block [OF assms])
qed

lemma field_not_Nil: "field_of parse w d \<Longrightarrow> w \<noteq> []"
  unfolding field_of_def by (auto dest!: spec [of _ "[]"] simp: parse_form)

end

interpretation legacy_key: key_parser parse_legacy_key "\<lambda>c. if c = 0x55 then 33 else if c = 0x54 then 49 else 16"
  by unfold_locales (simp add: parse_legacy_key_def split: option.splits)

interpretation bdk: key_parser parse_bdk "\<lambda>c. if c = 0x55 then 33 else 32"
  by unfold_locales (simp add: parse_bdk_def split: option.splits)

interpretation key_32: key_parser parse_key_32 "\<lambda>c. if c = 0x55 then 33 else if c = 0x54 then 49 else 32"
  by unfold_locales (simp add: parse_key_32_def split: option.splits)

abbreviation key_field :: "bytes \<Rightarrow> key_descriptor \<Rightarrow> bool" where
  "key_field \<equiv> field_of parse_legacy_key"

abbreviation bdk_field :: "bytes \<Rightarrow> key_descriptor \<Rightarrow> bool" where
  "bdk_field \<equiv> field_of parse_bdk"

abbreviation key_32_field :: "bytes \<Rightarrow> key_descriptor \<Rightarrow> bool" where
  "key_32_field \<equiv> field_of parse_key_32"

lemma key_field_legacy: "legacy_field w \<Longrightarrow> is_ascii w \<Longrightarrow> key_field w (label w)"
  by (rule legacy_key.label_field) (simp_all add: legacy_field_def)

lemmas key_field_steps = reads_pbind [OF reads_field [where parse = parse_legacy_key]]
  reads_last [OF reads_field [where parse = parse_legacy_key]]

section \<open>Keys of the inventory\<close>

text \<open>
  The block announces the usage, algorithm and check value of the key: the check value stands in a
  \<open>KC\<close> block behind any other optional blocks.
\<close>

definition block_names_key :: "key_block_wire \<Rightarrow> key_summary \<Rightarrow> bool" where
  "block_names_key w x \<longleftrightarrow>
     (\<exists>attrs bs n alg v rest.
        ks_key_attributes x = Some attrs \<and> ks_enabled x
        \<and> key_block_ok w (length bs + Suc n)
        \<and> kb_body w = concat (map opt_block bs) @ opt_block (ascii ''KC'', alg @ v) @ rest
        \<and> list_all (\<lambda>b. opt_block_ok b \<and> fst b \<noteq> ascii ''KC'') bs
        \<and> opt_block_ok (ascii ''KC'', alg @ v) \<and> length alg = 2 \<and> utf8_valid v
        \<and> tr31_usage_to_apc (kb_usage w) = ka_key_usage attrs
        \<and> tr31_algo_to_apc (kb_algorithm w) = ka_key_algorithm attrs
        \<and> to_ascii_uppercase v = to_ascii_uppercase (ks_key_check_value x))"

text \<open>Two keys the index cannot tell apart, both usable.\<close>

definition interchangeable :: "key_summary \<Rightarrow> key_summary \<Rightarrow> bool" where
  "interchangeable x y \<longleftrightarrow> ks_enabled x \<and> ks_enabled y
     \<and> (\<exists>a b. ks_key_attributes x = Some a \<and> ks_key_attributes y = Some b \<and> summary_key a x = summary_key b y)"

lemma named_block:
  assumes "block_names_key w x"
  obtains d attrs where "key_field (key_block_field w) d" and "ks_key_attributes x = Some attrs" and "ks_enabled x"
    and "\<And>km. resolve_descriptor km d = ok_or KeyNotFound (kcv_index km (summary_key attrs x))"
proof -
  from assms obtain attrs bs n alg v rest where x: "ks_key_attributes x = Some attrs" "ks_enabled x"
    and w: "key_block_ok w (length bs + Suc n)"
      "kb_body w = concat (map opt_block bs) @ opt_block (ascii ''KC'', alg @ v) @ rest"
    and bs: "list_all (\<lambda>b. opt_block_ok b \<and> fst b \<noteq> ascii ''KC'') bs"
      "opt_block_ok (ascii ''KC'', alg @ v)" "length alg = 2" "utf8_valid v"
    and names: "tr31_usage_to_apc (kb_usage w) = ka_key_usage attrs"
      "tr31_algo_to_apc (kb_algorithm w) = ka_key_algorithm attrs"
      "to_ascii_uppercase v = to_ascii_uppercase (ks_key_check_value x)"
    unfolding block_names_key_def by blast
  define blk where "blk = \<lparr> key_usage = kb_usage w, algorithm = kb_algorithm w, kcv = Some (to_ascii_uppercase v) \<rparr>"
  define d where "d = \<lparr> raw = key_block_field w, block = Some blk \<rparr>"
  have "key_field (key_block_field w) d"
    unfolding d_def blk_def by (rule legacy_key.block_field [OF w(1)]) (use scan_kc_found [OF bs] in \<open>simp add: w(2)\<close>)
  moreover have "block_kcv_key blk (to_ascii_uppercase v) = summary_key attrs x"
    using names by (simp add: blk_def block_kcv_key_def summary_key_def to_ascii_uppercase_idem)
  then have "resolve_descriptor km d = ok_or KeyNotFound (kcv_index km (summary_key attrs x))" for km
    using resolve_descriptor_kcv [of d blk "to_ascii_uppercase v" km] key_block_not_identifier [of w]
    by (simp add: d_def blk_def)
  ultimately show thesis using that x by blast
qed

text \<open>The start-up scan indexes every enabled key, or one it cannot be told apart from.\<close>

lemma inventory_index_resolves:
  assumes "x \<in> set sums" and "ks_enabled x" and "ks_key_attributes x = Some attrs"
  obtains y where "inventory_index old sums (summary_key attrs x) = Some (ks_key_arn y)"
    and "y \<in> set sums" and "interchangeable x y"
proof -
  define k where "k = summary_key attrs x"
  have "ks_key_arn x \<in> set (inventory_arns sums k)"
    unfolding set_inventory_arns using assms k_def by blast
  then have ne: "inventory_arns sums k \<noteq> []" by auto
  define arn where "arn = Min (set (inventory_arns sums k))"
  with ne have "arn \<in> set (inventory_arns sums k)" by simp
  then obtain y ya where y: "y \<in> set sums" "ks_enabled y" "ks_key_arn y = arn"
      "ks_key_attributes y = Some ya" "summary_key ya y = k"
    unfolding set_inventory_arns by blast
  show thesis
  proof (rule that)
    show "inventory_index old sums (summary_key attrs x) = Some (ks_key_arn y)"
      using ne y(3) by (simp add: inventory_index_def arn_def k_def)
    show "interchangeable x y" using y assms(2,3) by (auto simp: interchangeable_def k_def)
  qed (rule y(1))
qed

lemma key_block_resolves:
  assumes "serves client s None sums s'" and "x \<in> set sums" and "block_names_key w x"
    and "scan_apc client s km = Some (s'', Ok km')"
  obtains d y where "key_field (key_block_field w) d" and "resolve_descriptor km' d = Ok (ks_key_arn y)"
    and "y \<in> set sums" and "interchangeable x y"
proof -
  obtain d attrs where d: "key_field (key_block_field w) d" "ks_key_attributes x = Some attrs" "ks_enabled x"
      "\<And>km. resolve_descriptor km d = ok_or KeyNotFound (kcv_index km (summary_key attrs x))"
    using named_block [OF assms(3)] by blast
  obtain y where "inventory_index (kcv_index km) sums (summary_key attrs x) = Some (ks_key_arn y)"
      "y \<in> set sums" "interchangeable x y"
    using inventory_index_resolves [OF assms(2) d(3,2)] by blast
  with d that show thesis using scan_apc_serves [OF assms(1), of km] assms(4) by auto
qed

definition demo_wire :: key_block_wire where
  "demo_wire = \<lparr> kb_version = 0x42, kb_length = ascii ''0028'', kb_usage = ascii ''P0'', kb_algorithm = 0x54,
     kb_attributes = ascii ''E00E'', kb_count = ascii ''01'', kb_reserved = ascii ''00'',
     kb_body = opt_block (ascii ''KC'', ascii ''00'' @ ascii ''08D7B4'') \<rparr>"

definition demo_inventory_key :: key_summary where
  "demo_inventory_key = \<lparr> ks_key_arn = ascii ''arn:a'',
     ks_key_attributes = Some \<lparr> ka_key_usage = tr31_usage_to_apc (ascii ''P0''), ka_key_algorithm = ascii ''TDES_2KEY'' \<rparr>,
     ks_enabled = True, ks_key_check_value = ascii ''08d7b4'' \<rparr>"

lemma demo_wire_ok: "key_block_ok demo_wire (length ([] :: (bytes \<times> bytes) list) + Suc 0)"
  by (simp add: key_block_ok_def demo_wire_def key_block_field_def opt_block_def ascii_def is_ascii_def
      from_str_radix_def to_digit_def hex_digit_def)

lemma demo_wire_names: "block_names_key demo_wire demo_inventory_key"
  unfolding block_names_key_def
  using demo_wire_ok
  by (intro exI [of _ "\<lparr> ka_key_usage = tr31_usage_to_apc (ascii ''P0''), ka_key_algorithm = ascii ''TDES_2KEY'' \<rparr>"]
      exI [of _ "[]"] exI [of _ 0] exI [of _ "ascii ''00''"] exI [of _ "ascii ''08D7B4''"])
    (simp add: demo_inventory_key_def demo_wire_def opt_block_ok_def tr31_algo_to_apc_def is_ascii_utf8_valid,
     simp add: ascii_def is_ascii_utf8_valid is_ascii_def to_ascii_uppercase_def ascii_upper_def)

section \<open>Properties\<close>

text \<open>
  C38: keys of the longer lengths cannot be addressed by a key block that carries a check value, and an
  entry of \<open>key_mappings\<close> for the block does not help: the algorithm character only ever names the
  shortest class, and the labels are not consulted.
\<close>

theorem long_keys_unreachable:
  assumes "block d = Some b" and "kcv b = Some v" and "\<not> is_apc_identifier (raw d)"
    and "\<And>k. kcv_index km k = Some arn \<Longrightarrow>
      kk_algorithm k \<in> {ascii ''TDES_3KEY'', ascii ''AES_192'', ascii ''AES_256''}"
  shows "resolve_descriptor (km\<lparr> labels := (labels km)(raw d \<mapsto> arn) \<rparr>) d \<noteq> Ok arn"
proof
  assume "resolve_descriptor (km\<lparr> labels := (labels km)(raw d \<mapsto> arn) \<rparr>) d = Ok arn"
  with assms(1-3) have "kcv_index km (block_kcv_key b v) = Some arn"
    by (auto simp: resolve_descriptor_def Let_def split: option.splits)
  from assms(4) [OF this] show False
    by (auto simp: block_kcv_key_def tr31_algo_to_apc_def ascii_inj split: if_splits) (simp_all add: ascii_def)
qed

theorem long_keys_unreachable_witness:
  "resolve_descriptor
     \<lparr> labels = [raw demo_block \<mapsto> ascii ''arn:3''],
       kcv_index = [\<lparr> kk_key_usage = ascii ''TR31_P0_PIN_ENCRYPTION_KEY'', kk_algorithm = ascii ''TDES_3KEY'',
                      kk_kcv = ascii ''08D7B4'' \<rparr> \<mapsto> ascii ''arn:3''] \<rparr> demo_block \<noteq> Ok (ascii ''arn:3'')"
proof -
  let ?k = "\<lparr> kk_key_usage = ascii ''TR31_P0_PIN_ENCRYPTION_KEY'', kk_algorithm = ascii ''TDES_3KEY'', kk_kcv = ascii ''08D7B4'' \<rparr>"
  let ?km = "\<lparr> labels = Map.empty, kcv_index = [?k \<mapsto> ascii ''arn:3''] \<rparr>"
  have block: "block demo_block = Some \<lparr> key_usage = ascii ''P0'', algorithm = 0x54, kcv = Some (ascii ''08D7B4'') \<rparr>"
    by (simp add: demo_block_def)
  have id: "\<not> is_apc_identifier (raw demo_block)"
    by (rule not_apc_identifier) (simp_all add: demo_block_def ascii_def)
  have only: "kk_algorithm k \<in> {ascii ''TDES_3KEY'', ascii ''AES_192'', ascii ''AES_256''}"
    if "kcv_index ?km k = Some (ascii ''arn:3'')" for k
    using that by (simp split: if_splits)
  have "resolve_descriptor (?km\<lparr> labels := (labels ?km)(raw demo_block \<mapsto> ascii ''arn:3'') \<rparr>) demo_block \<noteq> Ok (ascii ''arn:3'')"
    by (rule long_keys_unreachable [OF block _ id only]) simp_all
  then show ?thesis by simp
qed

end
