(* ===== verification/Wire_Requests.thy ===== *)
theory Wire_Requests
  imports Key_Blocks Pin_Handlers Card_Data_Handlers
begin

text \<open>
  What the proxy asks of the service for a command on the wire: for the commands that carry the
  bulk of card traffic, PIN translation and card verification values, the whole handler is equal to
  one call with exactly the fields of the payload, and the answer to the client is a function of the
  answer of the service; for data encryption, the answer of one command is the field of the next. Key fields may be in any form the parser
  accepts, the legacy forms and key blocks alike.
\<close>

section \<open>PIN translation\<close>

text \<open>The iso format of a translation, with the account number where the format binds it.\<close>

fun translation_of :: "iso_fmt \<Rightarrow> bytes \<Rightarrow> translation_iso_formats" where
  "translation_of F0 acct = TranslationIsoFormat0 acct"
| "translation_of F1 acct = TranslationIsoFormat1"
| "translation_of F3 acct = TranslationIsoFormat3 acct"

lemma build_translation_attrs_Ok:
  "(f \<noteq> F1 \<Longrightarrow> build_ok st (STranslation (translation_of f acct)))
    \<Longrightarrow> build_translation_attrs st f acct = Ok (translation_of f acct)"
  by (cases f) (simp_all add: sdk_build_def)

lemma reads_translate:
  assumes "key_field src sd" and "key_field dst dd" and "length maxlen = 2" and "length pb = 16" and "length acct = 12"
    and "map_translate_format sc = Ok sf" and "map_translate_format dc = Ok df" and "is_ascii (pb @ acct)"
    and "flag \<longrightarrow> hd dst \<notin> {0x2A, 0x7E}"
  shows "reads (parse_translate_fields flag) (src @ dst @ maxlen @ pb @ sc @ dc @ acct)
    \<lparr> pf_source_key = sd, pf_dest_key = dd, pf_source_format = sf, pf_dest_format = df,
      pf_pin_block = pb, pf_account_number = acct \<rparr>"
proof -
  have "length sc = 2" "length dc = 2"
    using assms(6,7) by (auto simp: map_translate_format_def split: if_splits)
  moreover have "first (dst @ rest) = Some (hd dst)" for rest
    using legacy_key.field_not_Nil [OF assms(2)] by (cases dst) simp_all
  ultimately show ?thesis
    unfolding parse_translate_fields_def using assms
    by (intro key_field_steps reads_remaining reads_intros) (auto simp: is_ascii_lossy_id)
qed

lemma pin_translate_call:
  assumes "code = ascii ''CC'' \<or> code = ascii ''CA'' \<and> hd dst \<notin> {0x2A, 0x7E}"
    and "key_field src sd" and "key_field dst dd" and "length maxlen = 2" and "length pb = 16" and "length acct = 12"
    and "map_translate_format sc = Ok sf" and "map_translate_format dc = Ok df" and "is_ascii (pb @ acct)"
    and "resolve_descriptor (st_key_map st) sd = Ok a" and "resolve_descriptor (st_key_map st) dd = Ok b"
    and "\<And>f. f \<in> {sf, df} \<Longrightarrow> f \<noteq> F1 \<Longrightarrow> build_ok st (STranslation (translation_of f acct))"
  shows "pin_handle st code (src @ dst @ maxlen @ pb @ sc @ dc @ acct @ rest) =
    Call (TranslatePinData a b pb (translation_of sf acct) (translation_of df acct))
      (on_ok (\<lambda>resp. Done (success (r_pin_block resp))))"
proof -
  have "parse_translate (src @ dst @ maxlen @ pb @ sc @ dc @ acct @ rest) flag =
      Ok \<lparr> pf_source_key = sd, pf_dest_key = dd, pf_source_format = sf, pf_dest_format = df,
           pf_pin_block = pb, pf_account_number = acct \<rparr>" if "flag \<longrightarrow> hd dst \<notin> {0x2A, 0x7E}" for flag
    using run_parser_reads [OF reads_translate [OF assms(2-9) that], of rest] by (simp add: parse_translate_def)
  with assms(1) show ?thesis
    by (auto simp: pin_handle_def translate_pin_def assms(10-12) build_translation_attrs_Ok ascii_inj)
qed

section \<open>Properties\<close>

lemma read_pan_delimited:
  assumes "0x3B \<notin> set pan" and "0 < length pan" and "length pan \<le> 19" and "is_ascii pan" and "n = length pre"
  shows "read_pan (pre @ pan @ 0x3B # post) n = Ok (pan, length pre + length pan + 1)"
  using assms position_delimiter [OF assms(1), of post]
  by (simp add: read_pan_def slice_def is_ascii_lossy_id)

lemma read_expiry_service_at:
  assumes "length expiry = 4" and "length service = 3" and "is_ascii (expiry @ service)" and "n = length pre"
  shows "read_expiry_service (pre @ expiry @ service @ post) n = Ok (expiry, service)"
  using assms by (simp add: read_expiry_service_def Let_def slice_def is_ascii_lossy_id)

lemma parse_cw_wire:
  assumes "key_32_field cvk d" and "0x3B \<notin> set pan" and "0 < length pan" and "length pan \<le> 19"
    and "length expiry = 4" and "length service = 3" and "is_ascii (pan @ expiry @ service)"
  shows "parse_cw (cvk @ pan @ 0x3B # expiry @ service @ post) =
    Ok \<lparr> cw_cvk = d, cw_pan = pan, cw_expiry = expiry, cw_service_code = service \<rparr>"
proof -
  note read_pan_delimited [of pan "length cvk" cvk "expiry @ service @ post"]
    read_expiry_service_at [of expiry service "Suc (length cvk + length pan)" "cvk @ pan @ [0x3B]" post]
  with assms show ?thesis by (simp add: parse_cw_def field_of_start)
qed

lemma parse_cy_wire:
  assumes "key_32_field cvk d" and "length cvv = 3" and "is_ascii cvv"
    and "0x3B \<notin> set pan" and "0 < length pan" and "length pan \<le> 19"
    and "length expiry = 4" and "length service = 3" and "is_ascii (pan @ expiry @ service)"
  shows "parse_cy (cvk @ cvv @ pan @ 0x3B # expiry @ service @ post) =
    Ok \<lparr> cy_cvk = d, cy_cvv = cvv, cy_pan = pan, cy_expiry = expiry, cy_service_code = service \<rparr>"
proof -
  note read_pan_delimited [of pan "length cvk + 3" "cvk @ cvv" "expiry @ service @ post"]
    read_expiry_service_at [of expiry service "Suc (length cvk + 3 + length pan)" "cvk @ cvv @ pan @ [0x3B]" post]
  with assms show ?thesis by (simp add: parse_cy_def field_of_start Let_def slice_def is_ascii_lossy_id)
qed

text \<open>
  C17: card verification values round-trip through the proxy. When the service issues a three-digit
  value for a card and accepts that value back, the value the proxy answers to CW, put into a CY
  payload with the same key, account number, expiry date and service code, is accepted with \<open>00\<close>;
  both requests carry exactly the fields of the payloads. The key field is the first of the payload, in any
  form \<open>parse_key_32\<close> reads, key blocks included; the documentation's fixed-width key at offset 1 without
  blocks is not what the code reads.
\<close>

theorem cvv_round_trip:
  assumes "key_32_field cvk d" and "0x3B \<notin> set pan" and "0 < length pan" and "length pan \<le> 19"
    and "length expiry = 4" and "length service = 3" and "is_ascii (pan @ expiry @ service)"
    and "resolve_descriptor (st_key_map st) d = Ok arn"
    and "attrs = \<lparr> cv_card_expiry_date = expiry, cv_service_code = service \<rparr>" and "build_ok st (SCvv attrs)"
    and "svc w (GenerateCardValidationData arn pan attrs) = (w', ApcOk out)"
    and "length (r_validation_data out) = 3" and "is_ascii (r_validation_data out)"
    and "svc w' (VerifyCardValidationData arn pan (r_validation_data out) attrs) = (w'', ApcOk out')"
  shows "\<exists>r. run svc (cvv_handle st (ascii ''CW'') (cvk @ pan @ 0x3B # expiry @ service @ rest)) w = (w', Some r)
    \<and> error_code r = ascii ''00''
    \<and> run svc (cvv_handle st (ascii ''CY'') (cvk @ payload r @ pan @ 0x3B # expiry @ service @ rest)) w'
        = (w'', Some (success []))"
proof -
  note cw = parse_cw_wire [OF assms(1-7), of rest]
    and cy = parse_cy_wire [OF assms(1,12,13) assms(2-7), of rest]
  have "run svc (cvv_handle st (ascii ''CW'') (cvk @ pan @ 0x3B # expiry @ service @ rest)) w =
      (w', Some (success (r_validation_data out)))"
    using assms(8-11) by (simp add: cvv_handle_def handle_cw_def cw sdk_build_def ascii_inj)
  moreover have "run svc (cvv_handle st (ascii ''CY'') (cvk @ r_validation_data out @ pan @ 0x3B # expiry @ service @ rest)) w'
      = (w'', Some (success []))"
    using assms(8-10,14) by (simp add: cvv_handle_def handle_cy_def cy sdk_build_def)
  ultimately show ?thesis by (auto simp: success_def)
qed

theorem cvv_round_trip_witness:
  "\<exists>r. run (\<lambda>w rq. (Suc w, ApcOk (demo_output\<lparr> r_validation_data := ascii ''123'' \<rparr>)))
        (cvv_handle demo_state (ascii ''CW'') (demo_enc @ ascii ''4111111111111111'' @ 0x3B # ascii ''2912'' @ ascii ''101'' @ [])) 0
        = (1, Some r)
    \<and> error_code r = ascii ''00''
    \<and> run (\<lambda>w rq. (Suc w, ApcOk (demo_output\<lparr> r_validation_data := ascii ''123'' \<rparr>)))
        (cvv_handle demo_state (ascii ''CY'') (demo_enc @ payload r @ ascii ''4111111111111111'' @ 0x3B # ascii ''2912'' @ ascii ''101'' @ [])) 1
        = (2, Some (success []))"
  by (rule cvv_round_trip [OF key_32.label_field _ _ _ _ _ _ demo_resolve(1) refl])
    (simp_all add: demo_keys, simp_all add: demo_state_def demo_enc_def is_ascii_def ascii_def)

section \<open>Data encryption\<close>

text \<open>A text as the encryption commands carry it: hexadecimal digits whose length in bytes fits the four digits in front.\<close>

definition data_text :: "bytes \<Rightarrow> bool" where
  "data_text hex \<longleftrightarrow> even (length hex) \<and> length hex < 131072 \<and> is_ascii hex"

lemma data_text_prefix:
  assumes "data_text hex"
  shows "length (fmt_04X (length hex div 2)) = 4" and "is_ascii (fmt_04X (length hex div 2))"
    and "from_str_radix 16 (fmt_04X (length hex div 2)) = Some (length hex div 2)" and "length hex div 2 * 2 = length hex"
    and "from_utf8_lossy hex = hex"
proof -
  have "length hex div 2 < 65536" "even (length hex)" "is_ascii hex" using assms by (auto simp: data_text_def)
  then show "length (fmt_04X (length hex div 2)) = 4" and "is_ascii (fmt_04X (length hex div 2))"
    and "from_str_radix 16 (fmt_04X (length hex div 2)) = Some (length hex div 2)" and "length hex div 2 * 2 = length hex"
    and "from_utf8_lossy hex = hex"
    by (simp_all add: length_fmt_04X fmt_04X_ascii from_str_radix_fmt_04X is_ascii_lossy_id)
qed

lemma reads_length_prefixed: "data_text hex \<Longrightarrow> reads (fr_take_ascii_len_hex 4 16) (length_prefixed hex) hex"
  unfolding length_prefixed_def
  using data_text_prefix [of hex] by (intro reads_ascii_len_hex [of _ _ _ "length hex div 2"]) (simp_all add: is_ascii_utf8_valid)

text \<open>Mode, input and output format, key type and key, then the text.\<close>

definition m0_payload :: "byte \<Rightarrow> bytes \<Rightarrow> bytes \<Rightarrow> bytes \<Rightarrow> bytes" where
  "m0_payload fmt kt key data = ascii ''00'' @ [0x31] @ [fmt] @ kt @ key @ data"

definition m4_payload :: "byte \<Rightarrow> bytes \<Rightarrow> bytes \<Rightarrow> bytes \<Rightarrow> bytes \<Rightarrow> bytes \<Rightarrow> bytes" where
  "m4_payload fmt kt key kt' key' data = ascii ''00'' @ ascii ''00'' @ [0x31] @ [fmt] @ kt @ key @ kt' @ key' @ data"

lemma parse_m0_wire:
  assumes "length kt = 3" and "key_field key d" and "data_text hex"
  shows "parse_m0_fields (m0_payload fmt kt key (length_prefixed hex @ rest)) = Ok (d, hex)"
proof -
  have "reads parse_m0_parser (ascii ''00'' @ [0x31] @ [fmt] @ kt @ key @ length_prefixed hex) (d, hex)"
    unfolding parse_m0_parser_def
    by (intro reads_pbind [OF reads_take] reads_pbind [OF reads_byte] reads_if_not key_field_steps
        reads_last [OF reads_length_prefixed])
      (use assms in \<open>simp_all add: data_text_prefix\<close>, simp add: reads_preturn)
  from run_parser_reads [OF this, of rest] show ?thesis by (simp add: parse_m0_fields_def m0_payload_def)
qed

lemma slice_at: "buf = pre @ w @ post \<Longrightarrow> i = length pre \<Longrightarrow> j = length pre + length w \<Longrightarrow> slice buf i j = Ok w"
  by (simp add: slice_def)

lemma parse_m4_wire:
  assumes "length kt = 3" and "key_field key d" and "length kt' = 3" and "key_field key' d'" and "data_text hex"
  shows "parse_m4 (m4_payload fmt kt key kt' key' (length_prefixed hex @ rest)) = Ok (d, d', hex)"
proof -
  let ?l = "fmt_04X (length hex div 2)"
  define pl where "pl = m4_payload fmt kt key kt' key' (length_prefixed hex @ rest)"
  note pl = pl_def m4_payload_def length_prefixed_def
  note len = data_text_prefix [OF assms(5)]
  have modes: "slice pl 0 2 = (Ok (ascii ''00'') :: bytes result)" "slice pl 2 4 = (Ok (ascii ''00'') :: bytes result)"
    by (simp_all add: pl slice_def)
  have key1: "parse_legacy_key pl 9 = Ok (d, length key)"
    by (rule field_of_at [OF assms(2), where pre = "ascii ''00'' @ ascii ''00'' @ [0x31] @ [fmt] @ kt"])
      (simp_all add: pl assms)
  have key2: "parse_legacy_key pl (12 + length key) = Ok (d', length key')"
    by (rule field_of_at [OF assms(4), where pre = "ascii ''00'' @ ascii ''00'' @ [0x31] @ [fmt] @ kt @ key @ kt'"])
      (simp_all add: pl assms)
  have prefix: "slice pl (12 + length key + length key') (16 + (length key + length key')) = (Ok ?l :: bytes result)"
    by (rule slice_at [where pre = "ascii ''00'' @ ascii ''00'' @ [0x31] @ [fmt] @ kt @ key @ kt' @ key'"
          and post = "hex @ rest"]) (simp_all add: pl assms len)
  have data: "slice pl (16 + (length key + length key')) (16 + (length key + length key') + length hex) = (Ok hex :: bytes result)"
    by (rule slice_at [where pre = "ascii ''00'' @ ascii ''00'' @ [0x31] @ [fmt] @ kt @ key @ kt' @ key' @ ?l"
          and post = rest]) (simp_all add: pl assms len)
  have size: "length pl = 16 + length key + length key' + length hex + length rest" "pl ! 4 = 0x31"
    using assms len by (simp_all add: pl nth_append)
  show ?thesis
    using modes key1 key2 prefix data size len
    unfolding pl_def [symmetric]
    by (simp add: parse_m4_def index_def Let_def utf8_or_malformed_ascii radix_or_malformed_def
        flip: numeral_2_eq_2)
qed

text \<open>
  C28: encrypted data round-trips through the proxy. What M0 answers for a text is, as it stands, the data field
  of an M4 command that translates it to another key, and what M4 answers is the data field of an M2
  command under that key, which answers the text M0 was given, with its length in front. The service is
  assumed to decrypt what it encrypted and to answer hexadecimal text.
\<close>

theorem data_cipher_round_trip:
  assumes "length kt = 3" and "key_field key d" and "length kt' = 3" and "key_field key' d'"
    and "resolve_descriptor (st_key_map st) d = Ok arn" and "resolve_descriptor (st_key_map st) d' = Ok arn'"
    and "build_ok st (SSymmetric Ecb)" and "data_text hex"
    and "svc w (EncryptData arn hex (Symmetric Ecb)) = (w1, ApcOk c)" and "data_text (r_cipher_text c)"
    and "svc w1 (DecryptData arn (r_cipher_text c) (Symmetric Ecb)) = (w2, ApcOk p)" and "r_plain_text p = hex"
    and "svc w2 (EncryptData arn' hex (Symmetric Ecb)) = (w3, ApcOk c')" and "data_text (r_cipher_text c')"
    and "svc w3 (DecryptData arn' (r_cipher_text c') (Symmetric Ecb)) = (w4, ApcOk p')" and "r_plain_text p' = hex"
  shows "\<exists>sealed moved.
      run svc (international_encrypt_handle st (ascii ''M0'') (m0_payload fmt kt key (length_prefixed hex @ rest))) w =
        (w1, Some (success sealed))
    \<and> run svc (international_encrypt_handle st (ascii ''M4'') (m4_payload fmt kt key kt' key' (sealed @ rest))) w1 =
        (w3, Some (success moved))
    \<and> run svc (international_encrypt_handle st (ascii ''M2'') (m0_payload fmt kt' key' (moved @ rest))) w3 =
        (w4, Some (success (length_prefixed hex)))"
proof (intro exI conjI)
  show "run svc (international_encrypt_handle st (ascii ''M0'') (m0_payload fmt kt key (length_prefixed hex @ rest))) w =
      (w1, Some (success (length_prefixed (r_cipher_text c))))"
    using parse_m0_wire [OF assms(1,2,8), of fmt rest] assms(5,7,9)
    by (simp add: international_encrypt_handle_def handle_m0_def sdk_build_def)
  show "run svc (international_encrypt_handle st (ascii ''M4'')
        (m4_payload fmt kt key kt' key' (length_prefixed (r_cipher_text c) @ rest))) w1 =
      (w3, Some (success (length_prefixed (r_cipher_text c'))))"
    using parse_m4_wire [OF assms(1-4,10), of fmt rest] assms(5-7,11-13)
    by (simp add: international_encrypt_handle_def ascii_inj handle_m4_def sdk_build_def)
  show "run svc (international_encrypt_handle st (ascii ''M2'')
        (m0_payload fmt kt' key' (length_prefixed (r_cipher_text c') @ rest))) w3 =
      (w4, Some (success (length_prefixed hex)))"
    using parse_m0_wire [OF assms(3,4,14), of fmt rest] assms(6,7,15,16)
    by (simp add: international_encrypt_handle_def ascii_inj handle_m2_def sdk_build_def success_def)
qed

text \<open>A service that encrypts by reversing the digits.\<close>

definition reversing_service :: "nat service" where
  "reversing_service w rq =
     (Suc w, case rq of
        EncryptData arn x attrs \<Rightarrow> ApcOk (demo_output\<lparr> r_cipher_text := rev x \<rparr>)
      | DecryptData arn x attrs \<Rightarrow> ApcOk (demo_output\<lparr> r_plain_text := rev x \<rparr>)
      | _ \<Rightarrow> ApcErr)"

theorem data_cipher_round_trip_witness:
  "\<exists>sealed moved.
      run reversing_service (international_encrypt_handle demo_state (ascii ''M0'')
        (m0_payload 0x31 (ascii ''00A'') demo_enc (length_prefixed (ascii ''CAFE'') @ []))) 0 = (1, Some (success sealed))
    \<and> run reversing_service (international_encrypt_handle demo_state (ascii ''M4'')
        (m4_payload 0x31 (ascii ''00A'') demo_enc (ascii ''00B'') demo_pvk (sealed @ []))) 1 = (3, Some (success moved))
    \<and> run reversing_service (international_encrypt_handle demo_state (ascii ''M2'')
        (m0_payload 0x31 (ascii ''00B'') demo_pvk (moved @ []))) 3 = (4, Some (success (length_prefixed (ascii ''CAFE''))))"
proof -
  have hex: "data_text (ascii ''CAFE'')" "data_text (rev (ascii ''CAFE''))"
    by (simp_all add: data_text_def ascii_def is_ascii_def)
  show ?thesis
    by (rule data_cipher_round_trip [where ?w2.0 = 2 and c = "demo_output\<lparr> r_cipher_text := rev (ascii ''CAFE'') \<rparr>"
          and c' = "demo_output\<lparr> r_cipher_text := rev (ascii ''CAFE'') \<rparr>"
          and p = "demo_output\<lparr> r_plain_text := ascii ''CAFE'' \<rparr>" and p' = "demo_output\<lparr> r_plain_text := ascii ''CAFE'' \<rparr>",
        OF _ key_field_legacy _ key_field_legacy demo_resolve])
      (simp_all add: demo_keys hex reversing_service_def, simp add: demo_state_def)
qed

end
