(* ===== verification/Mac_Requests.thy ===== *)
theory Mac_Requests
  imports Key_Blocks Mac_Handlers Emv_Handlers
begin

text \<open>
  What the proxy asks of the service for the message-authentication commands on the wire: the commands
  M6 and M8, the DUKPT command GW, the legacy commands MK and MM, and the issuer-script commands KU and JU. As in
  \<open>Wire_Requests\<close> the payload is written out field by field, and the theorems say which request it
  becomes and what the client is told.
\<close>

section \<open>Fields of DUKPT commands\<close>

text \<open>The descriptor of a key serial number: a character, the length in hexadecimal, the digits.\<close>

definition ksn_field :: "byte \<Rightarrow> bytes \<Rightarrow> bytes" where
  "ksn_field c ksn = c # ascii (if length ksn = 20 then ''14'' else ''18'') @ ksn"

definition ksn_derivation :: "bytes \<Rightarrow> dukpt_derivation_type" where
  "ksn_derivation ksn = (if length ksn = 20 then Tdes2Key else Aes128)"

lemma parse_ksn_field:
  assumes "length ksn = 20 \<or> length ksn = 24" and "is_ascii ksn"
  shows "parse_ksn_with_descriptor (pre @ ksn_field c ksn @ post) (length pre) =
    Ok (ksn, length (ksn_field c ksn), ksn_derivation ksn)"
proof -
  have "utf8_or_malformed (ascii s) = Ok (ascii s)" if "is_ascii (ascii s)" for s
    using that by (rule utf8_or_malformed_ascii)
  moreover have "is_ascii (ascii ''14'')" "is_ascii (ascii ''18'')" by (simp_all add: is_ascii_def ascii_def)
  moreover have "radix_or_malformed 16 (ascii ''14'') = Ok 20" "radix_or_malformed 16 (ascii ''18'') = Ok 24"
    by (simp_all add: radix_or_malformed_def from_str_radix_def to_digit_def ascii_def)
  moreover have "slice (c # ascii s @ ksn @ post) 1 3 = (Ok (ascii s) :: bytes result)" if "length s = 2" for s
    using that by (simp add: slice_def)
  ultimately show ?thesis using assms
    by (auto simp: parse_ksn_with_descriptor_def ksn_field_def ksn_derivation_def slice_def is_ascii_lossy_id)
qed

lemma reads_ksn:
  "length ksn = 20 \<or> length ksn = 24 \<Longrightarrow> is_ascii ksn
    \<Longrightarrow> reads (fr_parse_with ksn_sub) (ksn_field c ksn) (ksn, ksn_derivation ksn)"
  by (rule reads_parse_with) (simp add: ksn_sub_def parse_ksn_field)

lemma reads_ksn_step:
  assumes "length ksn = 20 \<or> length ksn = 24" and "is_ascii ksn" and "reads (f ksn (ksn_derivation ksn)) w y"
  shows "reads (pbind (fr_parse_with ksn_sub) (\<lambda>(k, t). f k t)) (ksn_field c ksn @ w) y"
  by (rule reads_pbind [OF reads_ksn [OF assms(1,2)]]) (simp add: assms(3))

lemmas dukpt_steps = reads_ksn_step reads_pbind [OF reads_field [where parse = parse_bdk]]

section \<open>DUKPT message authentication\<close>

text \<open>The payload of GW up to the message: mode, input format, MAC size, algorithm, padding, key, serial number.\<close>

definition gw_payload :: "byte \<Rightarrow> byte \<Rightarrow> byte \<Rightarrow> byte \<Rightarrow> bytes \<Rightarrow> bytes \<Rightarrow> bytes \<Rightarrow> bytes" where
  "gw_payload mode sb alg pad bdk ksnw msg = [mode] @ [0x31] @ [sb] @ [alg] @ [pad] @ bdk @ ksnw @ msg"

lemma reads_mac_absent: "reads (fr_mac_to_verify False n) [] None"
  by (simp add: fr_mac_to_verify_def reads_preturn)

lemma parse_gw_wire:
  assumes "gw_mode mode = Ok v" and "gw_mac_size sb = Ok sz" and "gw_algorithm alg = Ok a" and "bdk_field bdk d"
    and "length ksn = 20 \<or> length ksn = 24" and "is_ascii ksn"
    and "length l = 4" and "is_ascii l" and "from_str_radix 16 l = Some n" and "length m = n * 2" and "is_ascii m"
    and "if v then length mac = sz * 2 \<and> is_ascii mac else mac = []"
  shows "parse_gw (gw_payload mode sb alg pad bdk (ksn_field c ksn) (l @ m) @ mac @ rest) =
    Ok \<lparr> gw_is_verify = v, gw_mac_size_bytes = sz, gw_algo = a, gw_bdk_id = d, gw_ksn = ksn,
         gw_deriv_type = ksn_derivation ksn, gw_message_hex = m, gw_mac_to_verify = (if v then Some mac else None) \<rparr>"
proof -
  define mo where "mo = (if v then Some mac else None)"
  have mac: "reads (fr_mac_to_verify v (sz * 2)) mac mo"
    using assms(12) by (simp add: mo_def reads_mac_to_verify reads_mac_absent split: if_splits)
  have "reads parse_gw_fields ([mode] @ [0x31] @ [sb] @ [alg] @ [pad] @ bdk @ ksn_field c ksn @ (l @ m) @ mac)
      \<lparr> gw_is_verify = v, gw_mac_size_bytes = sz, gw_algo = a, gw_bdk_id = d, gw_ksn = ksn,
        gw_deriv_type = ksn_derivation ksn, gw_message_hex = m, gw_mac_to_verify = mo \<rparr>"
    unfolding parse_gw_fields_def
    by (intro dukpt_steps reads_intros)
      (use assms in simp_all, rule reads_last [OF mac], simp add: reads_preturn)
  from run_parser_reads [OF this, of rest] show ?thesis by (simp add: parse_gw_def gw_payload_def mo_def)
qed


definition gw_service :: "nat service" where
  "gw_service w rq =
     (Suc w, case rq of
        VerifyMac arn m mac attrs \<Rightarrow>
          if to_ascii_uppercase mac = to_ascii_uppercase (ascii ''0123ABCD'') then ApcOk demo_output else ApcVerificationFailed
      | _ \<Rightarrow> ApcOk (demo_output\<lparr> r_mac := ascii ''0123ABCD'' \<rparr>))"


section \<open>Message authentication codes\<close>

text \<open>The payload of M6 and M8 up to the message: mode, input format, MAC size, algorithm, padding, key type, key.\<close>

definition m6_payload :: "byte \<Rightarrow> byte \<Rightarrow> byte \<Rightarrow> bytes \<Rightarrow> bytes \<Rightarrow> bytes \<Rightarrow> bytes" where
  "m6_payload sb alg pad kt key msg = [0x30] @ [0x31] @ [sb] @ [alg] @ [pad] @ kt @ key @ msg"

lemma parse_m6_wire:
  assumes "m6_mac_size sb = Ok sz" and "algorithm_from_m6_algo_byte alg = Ok a" and "length kt = 3" and "key_field key d"
    and "length l = 4" and "is_ascii l" and "from_str_radix 16 l = Some n" and "length m = n * 2" and "is_ascii m"
    and "if v then length mac = sz * 2 \<and> is_ascii mac else mac = []"
  shows "parse_m6_payload (m6_payload sb alg pad kt key (l @ m) @ mac @ rest) v =
    Ok \<lparr> mf_algorithm = a, mf_key_id = d, mf_message_hex = m, mf_mac_to_verify = (if v then Some mac else None),
         mf_mac_size_bytes = sz \<rparr>"
proof -
  define mo where "mo = (if v then Some mac else None)"
  have mac: "reads (fr_mac_to_verify v (sz * 2)) mac mo"
    using assms(10) by (simp add: mo_def reads_mac_to_verify reads_mac_absent split: if_splits)
  have "reads (parse_m6_fields v) ([0x30] @ [0x31] @ [sb] @ [alg] @ [pad] @ kt @ key @ (l @ m) @ mac)
      \<lparr> mf_algorithm = a, mf_key_id = d, mf_message_hex = m, mf_mac_to_verify = mo, mf_mac_size_bytes = sz \<rparr>"
    unfolding parse_m6_fields_def
    by (intro key_field_steps reads_intros)
      (use assms in simp_all, rule reads_last [OF mac], simp add: reads_preturn)
  from run_parser_reads [OF this, of rest] show ?thesis by (simp add: parse_m6_payload_def m6_payload_def mo_def)
qed

text \<open>A parser that runs out of payload: the rules follow \<open>reads\<close> up to the field that is cut short.\<close>

definition runs_short :: "'a parser \<Rightarrow> bytes \<Rightarrow> bool" where
  "runs_short p w \<longleftrightarrow> (\<forall>pre. p \<lparr> fr_buf = pre @ w, fr_pos = length pre \<rparr> = Err MalformedPayload)"

lemma runs_short_pbind: "reads p w x \<Longrightarrow> runs_short (f x) w' \<Longrightarrow> runs_short (pbind p f) (w @ w')"
  unfolding runs_short_def
proof
  fix pre
  assume "reads p w x" and "\<forall>pre. f x \<lparr> fr_buf = pre @ w', fr_pos = length pre \<rparr> = Err MalformedPayload"
  from this(1) [unfolded reads_def, rule_format, of pre w'] this(2) [rule_format, of "pre @ w"]
  show "pbind p f \<lparr> fr_buf = pre @ w @ w', fr_pos = length pre \<rparr> = Err MalformedPayload" by (simp add: pbind_def)
qed

lemma runs_short_here: "runs_short p w \<Longrightarrow> runs_short (pbind p f) w"
  by (simp add: runs_short_def pbind_def)

lemma runs_short_plift: "m = Ok x \<Longrightarrow> runs_short (f x) w \<Longrightarrow> runs_short (pbind (plift m) f) w"
  by (simp add: runs_short_def pbind_def plift_def)

lemma runs_short_if: "\<not> b \<Longrightarrow> runs_short q w \<Longrightarrow> runs_short (if b then p else q) w"
  by simp

lemma runs_short_mac: "length w < n \<Longrightarrow> runs_short (fr_mac_to_verify True n) w"
  by (simp add: runs_short_def fr_mac_to_verify_def fr_take_lossy_def pbind_def fr_take_def)

lemma run_parser_runs_short: "runs_short p w \<Longrightarrow> run_parser p w = Err MalformedPayload"
  unfolding runs_short_def by (drule spec [of _ "[]"]) (simp add: run_parser_def fr_new_def)

lemma parse_m8_short:
  assumes "m6_mac_size sb = Ok sz" and "algorithm_from_m6_algo_byte alg = Ok a" and "length kt = 3" and "key_field key d"
    and "length l = 4" and "is_ascii l" and "from_str_radix 16 l = Some n" and "length m = n * 2" and "is_ascii m"
    and "length mac < sz * 2"
  shows "parse_m6_payload (m6_payload sb alg pad kt key (l @ m) @ mac) True = Err MalformedPayload"
proof -
  have "runs_short (parse_m6_fields True) ([0x30] @ [0x31] @ [sb] @ [alg] @ [pad] @ kt @ key @ (l @ m) @ mac)"
    unfolding parse_m6_fields_def
    by (intro runs_short_pbind [OF reads_byte] runs_short_pbind [OF reads_take] runs_short_plift runs_short_if
        runs_short_pbind [OF reads_field [where parse = parse_legacy_key]] runs_short_pbind [OF reads_message_hex])
      (use assms in simp_all, rule runs_short_here, simp add: runs_short_mac)
  from run_parser_runs_short [OF this] show ?thesis by (simp add: parse_m6_payload_def m6_payload_def)
qed

text \<open>
  C29: message authentication codes of M6 and M8, with the lengths the sources document for the service's own codes
  (ISO 9797 algorithms 1 and 3: 4 bytes, that is 8 digits; CMAC: at least 16 digits). M6 answers the digits the size
  byte asks for when the service's code has them: 8 for size \<open>'0'\<close>, and for CMAC also 16 for size \<open>'1'\<close>. In these cases the
  code round-trips: presented to M8 for the same message, key and algorithm, a code of that size is accepted with
  \<open>00\<close> exactly when it equals the generated one up to letter case, and refused with \<open>01\<close> otherwise (for CMAC,
  which the service does not verify truncated, the proxy has it generated again and compares the leading digits). Size \<open>'1'\<close> with
  an ISO 9797 algorithm does not round-trip: M6 answers \<open>00\<close> with 8 digits instead of the 16 its layout comment
  promises, and M8, which reads 16, answers 15 to the code M6 gave, without asking the service.
\<close>

theorem mac_round_trip:
  assumes "m6_mac_size sb = Ok sz"
    and "(alg, algo) \<in> {(0x31, Iso9797Algorithm1), (0x33, Iso9797Algorithm3), (0x36, Cmac)}"
    and "length kt = 3" and "key_field key d"
    and "length l = 4" and "is_ascii l" and "from_str_radix 16 l = Some n" and "length m = n * 2" and "is_ascii m"
    and "resolve_descriptor (st_key_map st) d = Ok arn"
    and "svc w (GenerateMac arn m (Algorithm algo) None) = (w', ApcOk out)"
    and "is_ascii (r_mac out)" and "if algo = Cmac then 16 \<le> length (r_mac out) else length (r_mac out) = 8"
    and "algo = Cmac \<Longrightarrow> svc w' (GenerateMac arn m (Algorithm algo) None) = (w'', ApcOk out)"
    and "algo \<noteq> Cmac \<Longrightarrow> svc w' (VerifyMac arn m mac (Algorithm algo)) =
      (w'', if to_ascii_uppercase mac = to_ascii_uppercase (r_mac out) then ApcOk out' else ApcVerificationFailed)"
    and "length mac = sz * 2" and "is_ascii mac"
  shows "\<exists>generated. length generated = (if algo = Cmac then sz * 2 else 8)
    \<and> run svc (mac_handle st (ascii ''M6'') (m6_payload sb alg pad kt key (l @ m) @ rest)) w = (w', Some (success generated))
    \<and> (if algo = Cmac \<or> sb = 0x30
       then run svc (mac_handle st (ascii ''M8'') (m6_payload sb alg pad kt key (l @ m) @ mac @ rest)) w' =
          (w'', Some (if to_ascii_uppercase mac = to_ascii_uppercase generated then success []
                      else from_proxy_error VerificationFailed))
       else run svc (mac_handle st (ascii ''M8'') (m6_payload sb alg pad kt key (l @ m) @ generated)) w' =
          (w', Some (from_proxy_error MalformedPayload)))"
proof -
  obtain a where a: "algorithm_from_m6_algo_byte alg = Ok a" "mac_algorithm_of_name a = Ok algo"
      "(a = ascii ''CMAC'') = (algo = Cmac)"
    using assms(2) by (auto simp: algorithm_from_m6_algo_byte_def mac_algorithm_of_name_def ascii_inj intro: that)
  note fields = assms(1) a(1) assms(3-9)
  define g where "g = take (sz * 2) (r_mac out)"
  have size: "sb = 0x30 \<and> sz = 4 \<or> sb = 0x31 \<and> sz = 8" using assms(1) by (auto simp: m6_mac_size_def split: if_splits)
  have lg: "length g = (if algo = Cmac then sz * 2 else 8)" using size assms(13) by (auto simp: g_def)
  have gen: "parse_m6_payload (m6_payload sb alg pad kt key (l @ m) @ rest) False = Ok \<lparr> mf_algorithm = a, mf_key_id = d,
      mf_message_hex = m, mf_mac_to_verify = None, mf_mac_size_bytes = sz \<rparr>"
    using parse_m6_wire [OF fields, where v = False and mac = "[]"] by simp
  have ver: "parse_m6_payload (m6_payload sb alg pad kt key (l @ m) @ mac @ rest) True = Ok \<lparr> mf_algorithm = a, mf_key_id = d,
      mf_message_hex = m, mf_mac_to_verify = Some mac, mf_mac_size_bytes = sz \<rparr>"
    using parse_m6_wire [OF fields, where v = True and mac = mac] assms(16,17) by simp
  have "str_prefix (r_mac out) (min (sz * 2) (length (r_mac out))) = (Ok g :: bytes result)"
    unfolding g_def using assms(12) by (rule str_prefix_min_ascii)
  then have m6: "run svc (mac_handle st (ascii ''M6'') (m6_payload sb alg pad kt key (l @ m) @ rest)) w = (w', Some (success g))"
    using assms(10,11) a(2) by (simp add: mac_handle_def Let_def ascii_inj gen)
  have m8: "run svc (mac_handle st (ascii ''M8'') (m6_payload sb alg pad kt key (l @ m) @ mac @ rest)) w' =
      (w'', Some (if to_ascii_uppercase mac = to_ascii_uppercase g then success [] else from_proxy_error VerificationFailed))"
    if "algo = Cmac \<or> sb = 0x30"
  proof (cases "algo = Cmac")
    case True
    with size assms(13) have "str_prefix (r_mac out) (sz * 2) = (Ok g :: bytes result)"
      unfolding g_def by (intro str_prefix_ascii [OF assms(12)]) auto
    with True assms(10,14) a(2,3) show ?thesis by (simp add: mac_handle_def Let_def ascii_inj ver eq_ignore_ascii_case_def)
  next
    case False
    with that size assms(13) have "g = r_mac out" by (auto simp: g_def)
    with False assms(10,15) a(2,3) show ?thesis by (simp add: mac_handle_def Let_def ascii_inj ver)
  qed
  have short: "run svc (mac_handle st (ascii ''M8'') (m6_payload sb alg pad kt key (l @ m) @ g)) w' =
      (w', Some (from_proxy_error MalformedPayload))" if "\<not> (algo = Cmac \<or> sb = 0x30)"
    using parse_m8_short [OF fields, of g pad] that size lg by (auto simp: mac_handle_def Let_def ascii_inj)
  from lg m6 m8 short show ?thesis by (intro exI [of _ g]) auto
qed

theorem mac_round_trip_witness:
  "\<exists>generated. length generated = 8
    \<and> run gw_service (mac_handle demo_state (ascii ''M6'')
        (m6_payload 0x30 0x33 0x31 (ascii ''003'') demo_enc (ascii ''0002'' @ ascii ''CAFE'') @ [])) 0 =
        (1, Some (success generated))
    \<and> run gw_service (mac_handle demo_state (ascii ''M8'')
        (m6_payload 0x30 0x33 0x31 (ascii ''003'') demo_enc (ascii ''0002'' @ ascii ''CAFE'') @ ascii ''0123abcd'' @ [])) 1 =
        (2, Some (if to_ascii_uppercase (ascii ''0123abcd'') = to_ascii_uppercase generated then success []
                    else from_proxy_error VerificationFailed))"
  using mac_round_trip [where sb = "0x30" and sz = 4 and alg = "0x33" and algo = Iso9797Algorithm3 and kt = "ascii ''003''"
      and key = demo_enc and d = "label demo_enc" and l = "ascii ''0002''" and n = 2 and m = "ascii ''CAFE''"
      and st = demo_state and arn = "ascii ''arn:e''" and svc = gw_service and w = 0 and w' = 1 and w'' = 2
      and out = "demo_output\<lparr> r_mac := ascii ''0123ABCD'' \<rparr>" and out' = demo_output and mac = "ascii ''0123abcd''"
      and pad = "0x31" and rest = "[]"]
  by (simp add: demo_keys demo_resolve key_field_legacy m6_mac_size_def gw_service_def split del: if_split)
    (simp add: demo_enc_def is_ascii_def ascii_def from_str_radix_def to_digit_def split del: if_split)

section \<open>Legacy message authentication\<close>

lemma parse_len_binary_at:
  assumes "length l = 3" and "is_ascii l" and "from_str_radix 16 l = Some (length data)" and "n = length pre"
  shows "parse_len_binary (pre @ l @ data @ post) n = Ok (encode_upper data, 3 + length data)"
  using assms by (simp add: parse_len_binary_def slice_def utf8_or_malformed_ascii radix_or_malformed_def Let_def)

text \<open>The code MK answers is accepted by MM for the same key and data.\<close>

lemma legacy_mac_round_trip:
  assumes "key_field key d" and "length l = 3" and "is_ascii l" and "from_str_radix 16 l = Some (length data)"
    and "resolve_descriptor (st_key_map st) d = Ok arn"
    and "svc w (GenerateMac arn (encode_upper data) (Algorithm Iso9797Algorithm1) None) = (w', ApcOk out)"
    and "is_ascii (r_mac out)" and "8 \<le> length (r_mac out)" and "mac = take 8 (r_mac out)"
    and "svc w' (VerifyMac arn (encode_upper data) mac (Algorithm Iso9797Algorithm1)) = (w'', ApcOk out')"
  shows "run svc (legacy_mac_handle st (ascii ''MK'') (key @ l @ data @ rest)) w = (w', Some (success mac))"
    and "run svc (legacy_mac_handle st (ascii ''MM'') (key @ mac @ l @ data @ rest)) w' = (w'', Some (success []))"
proof -
  have gen: "parse_len_binary (key @ l @ data @ rest) (length key) = Ok (encode_upper data, 3 + length data)"
    by (rule parse_len_binary_at [OF assms(2-4) refl])
  have ver: "parse_len_binary (key @ mac @ l @ data @ rest) (length key + 8) = Ok (encode_upper data, 3 + length data)"
    using parse_len_binary_at [OF assms(2-4), of "length key + 8" "key @ mac" rest] assms(8,9) by simp
  show "run svc (legacy_mac_handle st (ascii ''MK'') (key @ l @ data @ rest)) w = (w', Some (success mac))"
    using assms(5-9) gen
    by (simp add: legacy_mac_handle_def ascii_inj handle_mk_def field_of_start [OF assms(1)] generate_alg1_mac_def
        legacy_mac_out_def slice_def min_def)
  have "is_ascii mac" using assms(7,9) by (auto simp: is_ascii_def dest: in_set_takeD)
  with assms(5,8-10) ver
  show "run svc (legacy_mac_handle st (ascii ''MM'') (key @ mac @ l @ data @ rest)) w' = (w'', Some (success []))"
    by (simp add: legacy_mac_handle_def ascii_inj handle_mm_def field_of_start [OF assms(1)] verify_alg1_mac_def
        slice_def is_ascii_lossy_id)
qed

section \<open>Issuer-script messages\<close>

text \<open>
  How a message is put on the wire: with its length in four hexadecimal digits, or delimited, in which
  case it must not contain the delimiter.
\<close>

definition script_message :: "bool \<Rightarrow> bytes \<Rightarrow> bytes \<Rightarrow> bool" where
  "script_message prefixed w msg \<longleftrightarrow>
     (if prefixed then \<exists>l. w = l @ msg \<and> length l = 4 \<and> is_ascii l \<and> from_str_radix 16 l = Some (length msg)
      else w = msg \<and> 0x3B \<notin> set msg)"

lemma read_prefixed_message:
  assumes "script_message True w msg"
  shows "len_prefixed_sub (pre @ w @ post) (length pre) = Ok (msg, length w)"
  using assms
  by (auto simp: script_message_def len_prefixed_sub_def read_len_prefixed_message_def slice_def Let_def
      utf8_or_malformed_ascii radix_or_malformed_def)

lemma read_delimited_sub:
  assumes "script_message False w msg"
  shows "delimited_sub (pre @ w @ 0x3B # post) (length pre) = Ok (msg, length w)"
  using assms position_delimiter [of "0x3B" msg post]
  by (auto simp: script_message_def delimited_sub_def read_delimited_message_def slice_def)

lemma pan_seq_sub_at:
  "length bcd = 8 \<Longrightarrow> decode_bcd_pan_seq bcd = Ok (pan, sq)
    \<Longrightarrow> pan_seq_sub (pre @ bcd @ post) (length pre) = Ok ((pan, sq), length bcd)"
  by (simp add: pan_seq_sub_def read_pan_seq_def slice_def)

text \<open>The message field and its delimiter, read together.\<close>

lemma reads_script_message:
  assumes "script_message prefixed w msg" and "g msg = y"
  shows "reads (pbind (fr_parse_with (if prefixed then len_prefixed_sub else delimited_sub)) (\<lambda>m.
      pbind (fr_expect_byte 0x3B) (\<lambda>_. preturn (g m)))) (w @ [0x3B]) y"
proof (cases prefixed)
  case True
  with assms have "reads (fr_parse_with len_prefixed_sub) w msg"
    by (intro reads_parse_with read_prefixed_message) simp
  with True assms(2) show ?thesis by (auto intro!: reads_pbind reads_last [OF reads_expect_byte] reads_preturn)
next
  case False
  have "fr_expect_byte 0x3B \<lparr> fr_buf = pre @ w @ 0x3B # post, fr_pos = length pre + length w \<rparr> =
      Ok ((), \<lparr> fr_buf = pre @ w @ 0x3B # post, fr_pos = Suc (length pre + length w) \<rparr>)" for pre post
    using reads_expect_byte [unfolded reads_def, rule_format, of "0x3B" "pre @ w" post] by simp
  with False assms read_delimited_sub show ?thesis
    by (simp add: reads_def pbind_def fr_parse_with_def preturn_def)
qed

lemma reads_pan_seq_sub_step:
  assumes "length bcd = 8" and "decode_bcd_pan_seq bcd = Ok (pan, sq)" and "reads (f pan sq) w y"
  shows "reads (pbind (fr_parse_with pan_seq_sub) (\<lambda>(a, b). f a b)) (bcd @ w) y"
  by (rule reads_pbind, rule reads_parse_with, rule pan_seq_sub_at [OF assms(1,2)]) (simp add: assms(3))

lemma reads_scheme_step:
  assumes "ku_scheme scheme skd = Ok (mode, v, prefixed)" and "reads (f mode v prefixed) w y"
  shows "reads (pbind (plift (ku_scheme scheme skd)) (\<lambda>(a, b, c). f a b c)) w y"
  by (rule reads_plift [OF assms(1)]) (simp add: assms(2))

lemmas reads_prefixed_message = reads_script_message [of True, simplified]

lemmas script_steps = reads_pan_seq_sub_step reads_scheme_step reads_pbind [OF reads_field [where parse = parse_key_32]]

lemma parse_ku_wire:
  assumes "scheme \<noteq> 0x36" and "key_32_field key d" and "length bcd = 8" and "decode_bcd_pan_seq bcd = Ok (pan, sq)"
    and "length skd = 8" and "ku_scheme scheme skd = Ok (mode, v, prefixed)" and "script_message prefixed w msg"
  shows "parse_ku ([0x30] @ [scheme] @ key @ bcd @ skd @ w @ [0x3B] @ rest) =
    Ok \<lparr> smi_key_id = d, smi_pan = pan, smi_pan_seq = sq, smi_mapping = \<lparr> sm_session_mode = mode, sm_value = v \<rparr>,
         smi_message = encode_upper (emv_pad msg) \<rparr>"
proof -
  have "reads parse_ku_fields ([0x30] @ [scheme] @ key @ bcd @ skd @ (w @ [0x3B]))
     \<lparr> smi_key_id = d, smi_pan = pan, smi_pan_seq = sq, smi_mapping = \<lparr> sm_session_mode = mode, sm_value = v \<rparr>,
       smi_message = message_for_apc msg False \<rparr>"
    unfolding parse_ku_fields_def
    by (intro script_steps reads_intros)
      (use assms in \<open>simp_all add: smi_require_mode_0_def split del: if_split\<close>, rule reads_script_message [OF assms(7) refl])
  from run_parser_reads [OF this, of rest] show ?thesis by (simp add: parse_ku_def message_for_apc_def)
qed

text \<open>The UnionPay forms carry the counter and a flag that says whether the host padded the message.\<close>

definition script_padded :: "bool \<Rightarrow> bytes \<Rightarrow> bytes" where
  "script_padded already msg = encode_upper (if already then msg else emv_pad msg)"

lemma parse_ju_wire:
  assumes "key_32_field key d" and "length bcd = 8" and "decode_bcd_pan_seq bcd = Ok (pan, sq)"
    and "length atc = 2" and "padding_flag flag = Ok already" and "script_message True w msg"
  shows "parse_ju ([0x30] @ [0x31] @ key @ bcd @ atc @ [flag] @ w @ [0x3B] @ rest) =
    Ok \<lparr> smi_key_id = d, smi_pan = pan, smi_pan_seq = sq,
         smi_mapping = \<lparr> sm_session_mode = ModeEmv2000, sm_value = Atc (encode_upper atc) \<rparr>,
         smi_message = script_padded already msg \<rparr>"
proof -
  have "reads parse_ju_fields ([0x30] @ [0x31] @ key @ bcd @ atc @ ([flag] @ (w @ [0x3B])))
     \<lparr> smi_key_id = d, smi_pan = pan, smi_pan_seq = sq,
       smi_mapping = \<lparr> sm_session_mode = ModeEmv2000, sm_value = Atc (encode_upper atc) \<rparr>,
       smi_message = message_for_apc msg already \<rparr>"
    unfolding parse_ju_fields_def
    by (intro script_steps reads_intros)
      (use assms in \<open>simp_all add: smi_require_mode_0_def\<close>, rule reads_prefixed_message [OF assms(6) refl])
  from run_parser_reads [OF this, of rest] show ?thesis by (simp add: parse_ju_def message_for_apc_def script_padded_def)
qed

lemma reads_if_yes: "b \<Longrightarrow> reads p w x \<Longrightarrow> reads (if b then p else q) w x"
  by simp

lemma parse_ku_unionpay_wire:
  assumes "key_32_field key d" and "length bcd = 8" and "decode_bcd_pan_seq bcd = Ok (pan, sq)"
    and "length atc = 2" and "padding_flag flag = Ok already" and "script_message True w msg"
  shows "parse_ku ([0x30] @ [0x36] @ key @ bcd @ atc @ [flag] @ w @ [0x3B] @ rest) =
    Ok \<lparr> smi_key_id = d, smi_pan = pan, smi_pan_seq = sq,
         smi_mapping = \<lparr> sm_session_mode = ModeUnionPay, sm_value = Atc (encode_upper atc) \<rparr>,
         smi_message = script_padded already msg \<rparr>"
proof -
  have "reads parse_ku_fields ([0x30] @ [0x36] @ key @ bcd @ atc @ ([flag] @ (w @ [0x3B])))
     \<lparr> smi_key_id = d, smi_pan = pan, smi_pan_seq = sq,
       smi_mapping = \<lparr> sm_session_mode = ModeUnionPay, sm_value = Atc (encode_upper atc) \<rparr>,
       smi_message = message_for_apc msg already \<rparr>"
    unfolding parse_ku_fields_def
    by (intro reads_pbind [OF reads_byte] reads_pbind [OF reads_take] reads_plift script_steps reads_if_yes)
      (use assms in \<open>simp_all add: smi_require_mode_0_def\<close>, rule reads_prefixed_message [OF assms(6) refl])
  from run_parser_reads [OF this, of rest] show ?thesis by (simp add: parse_ku_def message_for_apc_def script_padded_def)
qed

text \<open>
  The scheme table of the module: for a command and a scheme, what follows the account number on the wire,
  and the session method, the seed and the message it stands for.
\<close>

inductive script_form ::
    "bytes \<Rightarrow> byte \<Rightarrow> bytes \<Rightarrow> session_key_derivation_mode \<Rightarrow> session_key_derivation_value \<Rightarrow> bytes \<Rightarrow> bool" where
  visa_amex:
    "scheme = 0x30 \<and> mode = ModeVisa \<or> scheme = 0x32 \<and> mode = ModeAmex \<Longrightarrow> length pad = 6 \<Longrightarrow> length atc = 2
      \<Longrightarrow> 0x3B \<notin> set msg
      \<Longrightarrow> script_form (ascii ''KU'') scheme (pad @ atc @ msg @ [0x3B]) mode
            (ApplicationTransactionCounter (encode_upper atc)) (encode_upper (emv_pad msg))"
| mastercard:
    "length rand = 8 \<Longrightarrow> 0x3B \<notin> set msg
      \<Longrightarrow> script_form (ascii ''KU'') 0x31 (rand @ msg @ [0x3B]) ModeMastercard
            (ApplicationCryptogram (encode_upper rand)) (encode_upper (emv_pad msg))"
| jcb:
    "length ac = 8 \<Longrightarrow> length l = 4 \<Longrightarrow> is_ascii l \<Longrightarrow> from_str_radix 16 l = Some (length msg)
      \<Longrightarrow> script_form (ascii ''KU'') 0x35 (ac @ l @ msg @ [0x3B]) ModeEmvCommon
            (ApplicationCryptogram (encode_upper ac)) (encode_upper (emv_pad msg))"
| unionpay:
    "code = ascii ''JU'' \<and> scheme = 0x31 \<and> mode = ModeEmv2000 \<or> code = ascii ''KU'' \<and> scheme = 0x36 \<and> mode = ModeUnionPay
      \<Longrightarrow> length atc = 2 \<Longrightarrow> length l = 4 \<Longrightarrow> is_ascii l \<Longrightarrow> from_str_radix 16 l = Some (length msg)
      \<Longrightarrow> flag = 0x30 \<and> out = emv_pad msg \<or> flag = 0x31 \<and> out = msg
      \<Longrightarrow> script_form code scheme (atc @ [flag] @ l @ msg @ [0x3B]) mode
            (ApplicationTransactionCounter (encode_upper atc)) (encode_upper out)"

lemma script_form_parse:
  assumes "script_form code scheme tail mode v message"
    and "key_32_field key d" and "length bcd = 8" and "decode_bcd_pan_seq bcd = Ok (pan, sq)"
  shows "\<exists>sv. session_value sv = v
    \<and> (if code = ascii ''JU'' then parse_ju else parse_ku) ([0x30] @ [scheme] @ key @ bcd @ tail @ rest) =
      Ok \<lparr> smi_key_id = d, smi_pan = pan, smi_pan_seq = sq, smi_mapping = \<lparr> sm_session_mode = mode, sm_value = sv \<rparr>,
           smi_message = message \<rparr>
    \<and> (code = ascii ''JU'' \<or> code = ascii ''KU'')"
  using assms(1)
proof cases
  case (visa_amex pad atc msg)
  have "ku_scheme scheme (pad @ atc) = Ok (mode, Atc (encode_upper atc), False)"
    using visa_amex by (auto simp: ku_scheme_def slice_def)
  from parse_ku_wire [OF _ assms(2-4) _ this, of msg msg rest] visa_amex show ?thesis
    by (intro exI [of _ "Atc (encode_upper atc)"]) (auto simp: script_message_def ascii_inj)
next
  case (mastercard rand msg)
  have "ku_scheme scheme rand = Ok (mode, Ac (encode_upper rand), False)"
    using mastercard by (auto simp: ku_scheme_def)
  from parse_ku_wire [OF _ assms(2-4) _ this, of msg msg rest] mastercard show ?thesis
    by (intro exI [of _ "Ac (encode_upper rand)"]) (auto simp: script_message_def ascii_inj)
next
  case (jcb ac l msg)
  have "ku_scheme scheme ac = Ok (mode, Ac (encode_upper ac), True)"
    using jcb by (auto simp: ku_scheme_def)
  from parse_ku_wire [OF _ assms(2-4) _ this, of "l @ msg" msg rest] jcb show ?thesis
    by (intro exI [of _ "Ac (encode_upper ac)"]) (auto simp: script_message_def ascii_inj)
next
  case (unionpay atc l msg flag out)
  then have msg: "script_message True (l @ msg) msg" by (auto simp: script_message_def)
  have flag: "padding_flag flag = Ok (flag = 0x31)" "encode_upper out = script_padded (flag = 0x31) msg"
    using unionpay by (auto simp: padding_flag_def script_padded_def)
  from parse_ju_wire [OF assms(2-4) _ flag(1) msg, of atc rest] parse_ku_unionpay_wire [OF assms(2-4) _ flag(1) msg, of atc rest]
    unionpay flag(2) show ?thesis
    by (intro exI [of _ "Atc (encode_upper atc)"]) (auto simp: ascii_inj)
qed

text \<open>
  C19: an issuer-script command (KU for Visa, Mastercard, Amex, JCB and UnionPay, JU for UnionPay) asks the
  service for one message authentication code of four bytes, under the key its key field resolves to, for
  the account number and sequence of the payload, with the session method and seed the scheme stands for,
  over the message of the payload with EMV padding unless the host flagged it as padded; the client gets
  \<open>00\<close> and the code, or \<open>41\<close> when the service fails.
\<close>

theorem issuer_script_wire:
  assumes "script_form code scheme tail mode v message"
    and "key_32_field key d" and "length bcd = 8" and "decode_bcd_pan_seq bcd = Ok (pan, sq)"
    and "resolve_descriptor (st_key_map st) d = Ok arn"
    and "emv = \<lparr> me_major_mode = EmvOptionA, me_primary_account_number = pan, me_pan_sequence_number = sq,
        me_session_mode = mode, me_session_value = v \<rparr>" and "build_ok st (SMacEmv emv)"
    and "svc w (GenerateMac arn message (EmvMac emv) (Some 4)) = (w', res)"
  shows "run svc (issuer_script_mac_handle st code ([0x30] @ [scheme] @ key @ bcd @ tail @ rest)) w =
    (w', Some (case res of ApcOk resp \<Rightarrow> success (r_mac resp) | _ \<Rightarrow> err (ascii ''41'')))"
proof -
  let ?pl = "[0x30] @ [scheme] @ key @ bcd @ tail @ rest"
  from script_form_parse [OF assms(1-4), of rest] obtain sv where sv: "session_value sv = v"
    and parsed: "(if code = ascii ''JU'' then parse_ju else parse_ku) ?pl =
      Ok \<lparr> smi_key_id = d, smi_pan = pan, smi_pan_seq = sq, smi_mapping = \<lparr> sm_session_mode = mode, sm_value = sv \<rparr>,
           smi_message = message \<rparr>"
    and code: "code = ascii ''JU'' \<or> code = ascii ''KU''" by blast
  have "is_ascii code" using code by (auto simp: is_ascii_def ascii_def)
  then have "issuer_script_mac_handle st code ?pl =
      with_res ((if code = ascii ''JU'' then parse_ju else parse_ku) ?pl) (handle_generate st)"
    using code by (auto simp: issuer_script_mac_handle_def Let_def is_ascii_lossy_id)
  with parsed assms(5-8) sv show ?thesis
    by (cases res) (auto simp: handle_generate_def sdk_build_def from_proxy_error_def)
qed

theorem issuer_script_wire_witness:
  "run (\<lambda>w rq. (Suc w, ApcOk demo_output)) (issuer_script_mac_handle demo_state (ascii ''KU'')
      ([0x30] @ [0x30] @ demo_enc @ [0x41, 0x11, 0x11, 0x11, 0x11, 0x11, 0x11, 0x01]
        @ (replicate 6 0 @ [0, 7] @ [0x84, 0x24, 0] @ [0x3B]) @ [])) 0 = (1, Some (success (r_mac demo_output)))"
proof -
  let ?res = "ApcOk demo_output"
  have "decode_bcd_pan_seq [0x41, 0x11, 0x11, 0x11, 0x11, 0x11, 0x11, 0x01] = Ok (ascii ''41111111111111'', ascii ''01'')"
    by (simp add: decode_bcd_pan_seq_def Let_def encode_upper_def hex_digit_def slice_def trim_start_matches_def ascii_def)
  from issuer_script_wire [OF visa_amex key_32.label_field _ this demo_resolve(1) refl, of "0x30" ModeVisa
      "replicate 6 0" "[0, 7]" "[0x84, 0x24, 0]" "\<lambda>w rq. (Suc w, ?res)" 0 1 ?res "[]"]
  show ?thesis by (simp add: demo_keys) (simp add: demo_state_def demo_enc_def is_ascii_def ascii_def)
qed

end
