(* ===== verification/Pin_Requests.thy ===== *)
theory Pin_Requests
  imports Registry Wire_Requests Mac_Requests
begin

text \<open>
  What the proxy asks of the service for the PIN verification commands on the wire, with and without DUKPT
  (DA, EA, DC, EC, CK, GO). As in \<open>Emv_Requests\<close> the forms of the payloads are an inductive relation that also
  says what each form stands for, and the theorem says that the handler the registry holds for the command
  asks for exactly that and reports exactly the verdict.
\<close>

section \<open>Payload forms\<close>

text \<open>What a verification command asks: the PIN block and how to read it, and what it is checked against.\<close>

record pin_question =
  pq_block :: bytes
  pq_account :: bytes
  pq_format :: pin_block_format
  pq_attrs :: pin_verification_attributes
  pq_dukpt :: "dukpt_attributes option"

definition pin_formats :: "(bytes \<times> pin_block_format) set" where
  "pin_formats = {(ascii ''01'', IsoFormat0), (ascii ''05'', IsoFormat1), (ascii ''47'', IsoFormat3), (ascii ''48'', IsoFormat4)}"

text \<open>The IBM 3624 data: decimalisation table, validation data, offset with fill characters.\<close>

definition ibm_data :: "bytes \<Rightarrow> bytes \<Rightarrow> bytes \<Rightarrow> bool" where
  "ibm_data dec val off \<longleftrightarrow> length dec = 16 \<and> length val = 12 \<and> length off = 12 \<and> is_ascii (dec @ val @ off)"

definition ibm_attributes :: "bytes \<Rightarrow> bytes \<Rightarrow> bytes \<Rightarrow> pin_verification_attributes" where
  "ibm_attributes dec val off = Ibm3624Pin \<lparr> iv_decimalization_table = dec, iv_pad_character = ascii ''F'',
     iv_validation_data = val, iv_pin_offset = trim_end_matches 0x46 off \<rparr>"

text \<open>
  The command table: for a command, what stands before the keys, the grammars of the encryption key and of the
  verification key, what follows them, and the question it stands for. The DUKPT commands refuse the key-block
  variants of the table and of the validation data, which their first character announces.
\<close>

inductive pin_form ::
    "bytes \<Rightarrow> bytes \<Rightarrow> (bytes \<Rightarrow> nat \<Rightarrow> (key_descriptor \<times> nat) result) \<Rightarrow> (bytes \<Rightarrow> nat \<Rightarrow> (key_descriptor \<times> nat) result)
      \<Rightarrow> bytes \<Rightarrow> pin_question \<Rightarrow> bool" where
  ibm:
    "code \<in> {ascii ''DA'', ascii ''EA''} \<Longrightarrow> length skipped = 4 \<Longrightarrow> length pb = 16 \<Longrightarrow> (fmt, f) \<in> pin_formats
      \<Longrightarrow> length acct = 12 \<Longrightarrow> is_ascii (pb @ acct) \<Longrightarrow> ibm_data dec val off
      \<Longrightarrow> pin_form code [] parse_legacy_key parse_legacy_key (skipped @ pb @ fmt @ acct @ dec @ val @ off)
            \<lparr> pq_block = pb, pq_account = acct, pq_format = f, pq_attrs = ibm_attributes dec val off, pq_dukpt = None \<rparr>"
| visa:
    "code \<in> {ascii ''DC'', ascii ''EC''} \<Longrightarrow> length skipped = 4 \<Longrightarrow> length pb = 16 \<Longrightarrow> (fmt, f) \<in> pin_formats
      \<Longrightarrow> length acct = 12 \<Longrightarrow> i < 10 \<Longrightarrow> length pvv = 4 \<Longrightarrow> is_ascii (pb @ acct @ pvv)
      \<Longrightarrow> pin_form code [] parse_legacy_key parse_key_32 (skipped @ pb @ fmt @ acct @ [hex_digit i] @ pvv)
            \<lparr> pq_block = pb, pq_account = acct, pq_format = f,
              pq_attrs = VisaPin \<lparr> vv_key_index = int i, vv_verification_value = pvv \<rparr>, pq_dukpt = None \<rparr>"
| tdes_dukpt:
    "length descr = 3 \<Longrightarrow> length ksn = 20 \<Longrightarrow> length pb = 16 \<Longrightarrow> length chk = 2 \<Longrightarrow> length acct = 12
      \<Longrightarrow> is_ascii (ksn @ pb @ acct) \<Longrightarrow> ibm_data dec val off \<Longrightarrow> hd dec \<notin> {0x4B, 0x4C} \<Longrightarrow> hd val \<noteq> 0x50
      \<Longrightarrow> pin_form (ascii ''CK'') [] parse_bdk parse_legacy_key (descr @ ksn @ pb @ chk @ acct @ dec @ val @ off)
            \<lparr> pq_block = pb, pq_account = acct, pq_format = IsoFormat0, pq_attrs = ibm_attributes dec val off,
              pq_dukpt = Some \<lparr> da_key_serial_number = ksn, da_derivation_type = Tdes2Key \<rparr> \<rparr>"
| any_dukpt:
    "mode \<in> {0x30, 0x32} \<Longrightarrow> length ksn = 20 \<and> length pb = 16 \<and> t = Tdes2Key \<or> length ksn = 24 \<and> length pb = 32 \<and> t = Aes128
      \<Longrightarrow> (fmt, f) \<in> pin_formats \<Longrightarrow> length chk = 2 \<Longrightarrow> length acct = 12
      \<Longrightarrow> is_ascii (ksn @ pb @ acct) \<Longrightarrow> ibm_data dec val off \<Longrightarrow> hd dec \<notin> {0x4B, 0x4C} \<Longrightarrow> hd val \<noteq> 0x50
      \<Longrightarrow> pin_form (ascii ''GO'') [mode] parse_bdk parse_legacy_key
            (ksn_field c ksn @ pb @ fmt @ chk @ acct @ dec @ val @ off)
            \<lparr> pq_block = pb, pq_account = acct, pq_format = f, pq_attrs = ibm_attributes dec val off,
              pq_dukpt = Some \<lparr> da_key_serial_number = ksn, da_derivation_type = t \<rparr> \<rparr>"

section \<open>Reading the fields\<close>

lemma pin_formats_map:
  "(fmt, f) \<in> pin_formats
    \<Longrightarrow> map_pin_block_format fmt = Ok f \<and> length fmt = 2 \<and> is_ascii fmt \<and> fmt \<noteq> ascii ''04''"
  by (auto simp: pin_formats_def map_pin_block_format_def ascii_inj) (simp_all add: is_ascii_def ascii_def)

lemma less_10_cases: "i < 10 \<Longrightarrow> i \<in> {0, 1, 2, 3, 4, 5, 6, 7, 8, 9 :: nat}"
  by auto

lemma reads_pvki:
  assumes "i < 10"
  shows "reads fr_pvki [hex_digit i] (int i)"
proof -
  have "is_ascii [hex_digit i]" using hex_digit_ascii [of i] assms by (simp add: is_ascii_def)
  moreover have "parse_i32 [hex_digit i] = Some (int i)"
    using less_10_cases [OF assms] by (elim insertE emptyE; simp add: parse_i32_def hex_digit_def to_digit_def)
  ultimately show ?thesis
    unfolding fr_pvki_def
    by (intro reads_last [OF reads_take] reads_plift)
      (simp_all add: utf8_or_malformed_ascii, simp add: reads_def plift_def)
qed

lemma reads_ibm:
  assumes "key_field enc ed" and "key_field pvk pd" and "length skipped = 4" and "length pb = 16" and "(fmt, f) \<in> pin_formats"
    and "length acct = 12" and "is_ascii (pb @ acct)" and "ibm_data dec val off"
  shows "reads parse_ibm_fields (enc @ pvk @ skipped @ pb @ fmt @ acct @ dec @ val @ off)
    \<lparr> if_enc_key_id = ed, if_pvk_id = pd, if_pin_block = pb, if_pin_block_format = fmt,
      if_account = acct, if_decim_table = dec, if_pin_val_data = val, if_offset = off \<rparr>"
  unfolding parse_ibm_fields_def using assms pin_formats_map [OF assms(5)]
  by (intro key_field_steps reads_intros) (auto simp: is_ascii_lossy_id ibm_data_def)

lemma reads_visa:
  assumes "key_field enc ed" and "key_32_field pvk pd" and "length skipped = 4" and "length pb = 16" and "(fmt, f) \<in> pin_formats"
    and "length acct = 12" and "i < 10" and "length pvv = 4" and "is_ascii (pb @ acct @ pvv)"
  shows "reads parse_visa_fields (enc @ pvk @ skipped @ pb @ fmt @ acct @ [hex_digit i] @ pvv)
    \<lparr> vf_enc_key_id = ed, vf_pvk_id = pd, vf_pin_block = pb, vf_pin_block_format = fmt,
      vf_account = acct, vf_pvki = int i, vf_pvv = pvv \<rparr>"
  unfolding parse_visa_fields_def using assms pin_formats_map [OF assms(5)]
  by (intro reads_pbind [OF reads_field [where parse = parse_key_32]] key_field_steps reads_pbind [OF reads_pvki] reads_intros)
    (auto simp: is_ascii_lossy_id)

text \<open>The tail the DUKPT commands read by position, with the offsets as the code adds them up.\<close>

lemma ibm_tail:
  assumes "pl = front @ acct @ dec @ val @ off @ rest" and "n = length front" and "length acct = 12"
    and "is_ascii acct" and "ibm_data dec val off"
  shows "slice pl n (n + 12) = Ok acct" and "slice pl (n + 12) (n + 12 + 16) = Ok dec"
    and "slice pl (n + 12 + 16) (n + 12 + 16 + 12) = Ok val"
    and "slice pl (n + 12 + 16 + 12) (n + 12 + 16 + 12 + 12) = Ok off"
    and "(length pl < n + 12 + 16 + 12 + 12) = False"
    and "get pl (n + 12) = Some (hd dec)" and "get pl (n + 12 + 16) = Some (hd val)"
    and "from_utf8_lossy acct = acct" and "from_utf8_lossy dec = dec" and "from_utf8_lossy val = val"
    and "from_utf8_lossy off = off"
proof -
  note len = assms(2-4) assms(5) [unfolded ibm_data_def]
  have ne: "dec \<noteq> []" "val \<noteq> []" using len by auto
  show "slice pl n (n + 12) = Ok acct"
    by (rule slice_at [where pre = front and post = "dec @ val @ off @ rest"]) (use assms(1) len in simp_all)
  show "slice pl (n + 12) (n + 12 + 16) = Ok dec"
    by (rule slice_at [where pre = "front @ acct" and post = "val @ off @ rest"]) (use assms(1) len in simp_all)
  show "slice pl (n + 12 + 16) (n + 12 + 16 + 12) = Ok val"
    by (rule slice_at [where pre = "front @ acct @ dec" and post = "off @ rest"]) (use assms(1) len in simp_all)
  show "slice pl (n + 12 + 16 + 12) (n + 12 + 16 + 12 + 12) = Ok off"
    by (rule slice_at [where pre = "front @ acct @ dec @ val" and post = rest]) (use assms(1) len in simp_all)
  show "(length pl < n + 12 + 16 + 12 + 12) = False" using assms(1) len by simp
  show "get pl (n + 12) = Some (hd dec)" "get pl (n + 12 + 16) = Some (hd val)"
    using assms(1) len ne by (auto simp: get_def nth_append hd_conv_nth)
  show "from_utf8_lossy acct = acct" and "from_utf8_lossy dec = dec" and "from_utf8_lossy val = val"
    and "from_utf8_lossy off = off"
    using len by (simp_all add: is_ascii_lossy_id)
qed

section \<open>One question\<close>

definition ask_pin :: "bytes \<Rightarrow> bytes \<Rightarrow> pin_question \<Rightarrow> handler_result io" where
  "ask_pin pvk enc q =
     Call (VerifyPinData pvk enc (pq_block q) (pq_account q) (pq_format q) (pq_attrs q) (pq_dukpt q))
       (on_verify (\<lambda>_. Done (success [])))"

text \<open>The builders of the service's request accept its parts.\<close>

definition pin_buildable :: "app_state \<Rightarrow> pin_question \<Rightarrow> bool" where
  "pin_buildable st q \<longleftrightarrow>
     (case pq_attrs q of Ibm3624Pin a \<Rightarrow> build_ok st (SIbmVerify a) | VisaPin a \<Rightarrow> build_ok st (SVisaVerify a))
     \<and> (case pq_dukpt q of None \<Rightarrow> True | Some a \<Rightarrow> build_ok st (SDukpt a))"

lemma ck_asks:
  assumes "bdk_field enc ed" and "key_field pvk pd" and "length descr = 3" and "length ksn = 20" and "length pb = 16"
    and "length chk = 2" and "length acct = 12" and "is_ascii (ksn @ pb @ acct)" and "ibm_data dec val off"
    and "hd dec \<notin> {0x4B, 0x4C}" and "hd val \<noteq> 0x50"
    and "resolve_descriptor (st_key_map st) ed = Ok e" and "resolve_descriptor (st_key_map st) pd = Ok p"
    and "q = \<lparr> pq_block = pb, pq_account = acct, pq_format = IsoFormat0, pq_attrs = ibm_attributes dec val off,
           pq_dukpt = Some \<lparr> da_key_serial_number = ksn, da_derivation_type = Tdes2Key \<rparr> \<rparr>" and "pin_buildable st q"
  shows "handle_ck st (enc @ pvk @ (descr @ ksn @ pb @ chk @ acct @ dec @ val @ off) @ rest) = ask_pin p e q"
proof -
  define pl where "pl = enc @ pvk @ (descr @ ksn @ pb @ chk @ acct @ dec @ val @ off) @ rest"
  let ?k = "length enc + length pvk + 3"
  have keys: "parse_bdk pl 0 = Ok (ed, length enc)" "parse_legacy_key pl (length enc) = Ok (pd, length pvk)"
    using field_of_start [OF assms(1)] field_of_at [OF assms(2), of pl enc] by (simp_all add: pl_def)
  have ksn: "slice pl ?k (?k + 20) = (Ok ksn :: bytes result)"
    by (rule slice_at [where pre = "enc @ pvk @ descr"]) (simp_all add: pl_def assms)
  have pb: "slice pl (?k + 20) (?k + 20 + 16) = (Ok pb :: bytes result)"
    by (rule slice_at [where pre = "enc @ pvk @ descr @ ksn"]) (simp_all add: pl_def assms)
  have asc: "is_ascii acct" "from_utf8_lossy ksn = ksn" "from_utf8_lossy pb = pb"
    using assms(8) by (simp_all add: is_ascii_lossy_id)
  have front: "pl = (enc @ pvk @ descr @ ksn @ pb @ chk) @ acct @ dec @ val @ off @ rest"
    "?k + 20 + 16 + 2 = length (enc @ pvk @ descr @ ksn @ pb @ chk)" by (simp_all add: pl_def assms)
  note tail = ibm_tail [OF front assms(7) asc(1) assms(9)]
  have build: "build_ok st (SDukpt \<lparr> da_key_serial_number = ksn, da_derivation_type = Tdes2Key \<rparr>)"
    "build_ok st (SIbmVerify \<lparr> iv_decimalization_table = dec, iv_pad_character = ascii ''F'', iv_validation_data = val,
       iv_pin_offset = trim_end_matches 0x46 off \<rparr>)"
    using assms(14,15) by (simp_all add: pin_buildable_def ibm_attributes_def)
  have "handle_ck st pl = ask_pin p e q"
    unfolding handle_ck_def Let_def
    using assms(10,11)
    by (simp only: keys with_res.simps prod.case tail ksn pb asc assms(12,13) sdk_build_def build if_True if_False)
      (simp add: ask_pin_def assms(14) ibm_attributes_def)
  then show ?thesis by (simp add: pl_def)
qed

lemma parse_go_wire:
  assumes "bdk_field enc ed" and "key_field pvk pd" and "mode \<in> {0x30, 0x32}"
    and "length ksn = 20 \<and> length pb = 16 \<and> t = Tdes2Key \<or> length ksn = 24 \<and> length pb = 32 \<and> t = Aes128"
    and "(fmt, f) \<in> pin_formats" and "length chk = 2" and "length acct = 12" and "is_ascii (ksn @ pb @ acct)"
    and "ibm_data dec val off" and "hd dec \<notin> {0x4B, 0x4C}" and "hd val \<noteq> 0x50"
  shows "parse_go ([mode] @ enc @ pvk @ (ksn_field c ksn @ pb @ fmt @ chk @ acct @ dec @ val @ off) @ rest) =
    Ok \<lparr> go_bdk_id = ed, go_pvk_id = pd, go_deriv_type = t, go_pin_block_format = f, go_ksn = ksn, go_pin_block = pb,
         go_account = acct, go_decim_table = dec, go_pin_val_data = val, go_offset = off \<rparr>"
proof -
  define pl where "pl = [mode] @ enc @ pvk @ (ksn_field c ksn @ pb @ fmt @ chk @ acct @ dec @ val @ off) @ rest"
  let ?k = "1 + length enc + length pvk"
  let ?p = "?k + length (ksn_field c ksn)"
  let ?f = "?p + pin_block_len t"
  have t: "ksn_derivation ksn = t" "length pb = pin_block_len t" "length ksn = 20 \<or> length ksn = 24" and ascii: "is_ascii ksn"
    "is_ascii acct" "from_utf8_lossy pb = pb"
    using assms(4,8) by (auto simp: ksn_derivation_def is_ascii_lossy_id)
  note fmt = pin_formats_map [OF assms(5)]
  have mode: "parse_mode pl = Ok 1" using assms(3) by (auto simp: parse_mode_def pl_def)
  have keys: "parse_bdk pl 1 = Ok (ed, length enc)" "parse_legacy_key pl (1 + length enc) = Ok (pd, length pvk)"
    using field_of_at [OF assms(1), of pl "[mode]"] field_of_at [OF assms(2), of pl "[mode] @ enc"]
    by (simp_all add: pl_def)
  have ksn: "parse_ksn_with_descriptor pl ?k = Ok (ksn, length (ksn_field c ksn), t)"
    using parse_ksn_field [OF t(3) ascii(1), of "[mode] @ enc @ pvk" c] by (simp add: pl_def t(1))
  have pb: "slice pl ?p ?f = (Ok pb :: bytes result)"
    by (rule slice_at [where pre = "[mode] @ enc @ pvk @ ksn_field c ksn"]) (simp_all add: pl_def t)
  have "slice pl ?f (?f + 2) = (Ok fmt :: bytes result)"
    by (rule slice_at [where pre = "[mode] @ enc @ pvk @ ksn_field c ksn @ pb"]) (simp_all add: pl_def t fmt)
  then have format: "map_dukpt_format pl ?f = Ok f"
    using fmt t(2) by (simp add: map_dukpt_format_def Let_def utf8_or_malformed_ascii) (simp add: pl_def)
  have front: "pl = ([mode] @ enc @ pvk @ ksn_field c ksn @ pb @ fmt @ chk) @ acct @ dec @ val @ off @ rest"
    "?f + 2 + 2 = length ([mode] @ enc @ pvk @ ksn_field c ksn @ pb @ fmt @ chk)"
    by (simp_all add: pl_def t fmt assms(6))
  note tail = ibm_tail [OF front assms(7) ascii(2) assms(9)]
  have "parse_go pl = Ok \<lparr> go_bdk_id = ed, go_pvk_id = pd, go_deriv_type = t, go_pin_block_format = f, go_ksn = ksn,
      go_pin_block = pb, go_account = acct, go_decim_table = dec, go_pin_val_data = val, go_offset = off \<rparr>"
    unfolding parse_go_def Let_def
    using assms(10,11)
    by (simp only: mode keys ksn format pb tail ascii rbind.simps prod.case if_False) simp
  then show ?thesis by (simp add: pl_def)
qed

lemma pin_form_handler:
  assumes "pin_form code pre encp pvkp tail q" and "field_of encp enc ed" and "field_of pvkp pvk pd"
    and "resolve_descriptor (st_key_map st) ed = Ok e" and "resolve_descriptor (st_key_map st) pd = Ok p"
    and "pin_buildable st q"
  shows "code \<in> {ascii ''DA'', ascii ''EA'', ascii ''DC'', ascii ''EC''}
      \<and> pin_verify_non_dukpt_handle st code (pre @ enc @ pvk @ tail @ rest) = ask_pin p e q
    \<or> code = ascii ''CK'' \<and> dukpt_pin_verify_handle st code (pre @ enc @ pvk @ tail @ rest) = ask_pin p e q
    \<or> code = ascii ''GO'' \<and> dukpt_pin_verify_aes_handle st code (pre @ enc @ pvk @ tail @ rest) = ask_pin p e q"
  using assms(1)
proof cases
  case (ibm skipped pb fmt f acct dec val off)
  then have "parse_ibm (enc @ pvk @ tail @ rest) =
      Ok \<lparr> if_enc_key_id = ed, if_pvk_id = pd, if_pin_block = pb, if_pin_block_format = fmt,
        if_account = acct, if_decim_table = dec, if_pin_val_data = val, if_offset = off \<rparr>"
    using assms(2,3) run_parser_reads [OF reads_ibm [of enc ed pvk pd skipped pb fmt f acct dec val off], of rest]
    by (simp add: parse_ibm_def)
  with ibm assms(4-6) pin_formats_map [of fmt f] show ?thesis
    by (auto simp: pin_verify_non_dukpt_handle_def handle_ibm_def ask_pin_def pin_buildable_def ibm_attributes_def
        sdk_build_def Let_def)
next
  case (visa skipped pb fmt f acct i pvv)
  then have "parse_visa (enc @ pvk @ tail @ rest) =
      Ok \<lparr> vf_enc_key_id = ed, vf_pvk_id = pd, vf_pin_block = pb, vf_pin_block_format = fmt,
        vf_account = acct, vf_pvki = int i, vf_pvv = pvv \<rparr>"
    using assms(2,3) run_parser_reads [OF reads_visa [of enc ed pvk pd skipped pb fmt f acct i pvv], of rest]
    by (simp add: parse_visa_def)
  with visa assms(4-6) pin_formats_map [of fmt f] show ?thesis
    by (auto simp: pin_verify_non_dukpt_handle_def handle_visa_def ask_pin_def pin_buildable_def sdk_build_def ascii_inj)
next
  case (tdes_dukpt descr ksn pb chk acct dec val off)
  with assms(2,3) have "handle_ck st (enc @ pvk @ tail @ rest) = ask_pin p e q"
    using ck_asks [OF _ _ tdes_dukpt(7-15) assms(4,5) tdes_dukpt(6) assms(6), of enc pvk rest] by simp
  with tdes_dukpt show ?thesis by (simp add: dukpt_pin_verify_handle_def)
next
  case (any_dukpt mode ksn pb t fmt f chk acct dec val off c)
  then have "parse_go (pre @ enc @ pvk @ tail @ rest) =
      Ok \<lparr> go_bdk_id = ed, go_pvk_id = pd, go_deriv_type = t, go_pin_block_format = f, go_ksn = ksn, go_pin_block = pb,
         go_account = acct, go_decim_table = dec, go_pin_val_data = val, go_offset = off \<rparr>"
    using assms(2,3) parse_go_wire [OF _ _ any_dukpt(7-15), of enc ed pvk pd c rest] by simp
  with any_dukpt assms(4-6) show ?thesis
    by (simp add: dukpt_pin_verify_aes_handle_def handle_go_def ask_pin_def pin_buildable_def ibm_attributes_def
        sdk_build_def Let_def)
qed

lemma pin_verify_handlers:
  "code \<in> {ascii ''DA'', ascii ''EA'', ascii ''DC'', ascii ''EC''}
    \<Longrightarrow> registry_get registry_build code = Some PinVerifyNonDukptHandler"
  "registry_get registry_build (ascii ''CK'') = Some DukptPinVerifyHandler"
  "registry_get registry_build (ascii ''GO'') = Some DukptPinVerifyAesHandler"
  "h_handle PinVerifyNonDukptHandler = pin_verify_non_dukpt_handle" "h_handle DukptPinVerifyHandler = dukpt_pin_verify_handle"
  "h_handle DukptPinVerifyAesHandler = dukpt_pin_verify_aes_handle"
  by (rule registry_get_declared;
      simp add: registered_handlers_def thales_handlers_def handler_defs mk_handler_def; blast)+
    (simp_all add: handler_defs mk_handler_def)

section \<open>Properties\<close>

text \<open>
  C16: every PIN verification command asks the service one question and tells the client exactly the verdict. A
  payload of DA or EA (IBM 3624), DC or EC (Visa PVV), CK (IBM 3624 under TDES DUKPT) or GO (IBM 3624 under TDES or
  AES DUKPT), with both keys in any form their fields allow, is handed to the one handler the registry holds
  for it, which asks for the PIN block, account and format of the payload to be checked against its
  decimalisation table, validation data and offset without fill characters, or against its key index and
  verification value, under the two keys the key fields resolve to and the serial number of the payload; the
  client is answered \<open>00\<close> when the service accepts the PIN, \<open>01\<close> when it says the PIN does not match, and
  \<open>41\<close> for every other failure.
\<close>

theorem pin_verification_wire:
  assumes "pin_form code pre encp pvkp tail q" and "field_of encp enc ed" and "field_of pvkp pvk pd"
    and "resolve_descriptor (st_key_map st) ed = Ok e" and "resolve_descriptor (st_key_map st) pd = Ok p"
    and "pin_buildable st q"
    and "svc w (VerifyPinData p e (pq_block q) (pq_account q) (pq_format q) (pq_attrs q) (pq_dukpt q)) = (w', res)"
  shows "\<exists>h. registry_get registry_build code = Some h
    \<and> run svc (h_handle h st code (pre @ enc @ pvk @ tail @ rest)) w =
      (w', Some \<lparr> error_code = ascii (case res of ApcOk _ \<Rightarrow> ''00'' | ApcVerificationFailed \<Rightarrow> ''01'' | ApcErr \<Rightarrow> ''41''),
                  payload = [] \<rparr>)"
proof -
  have "\<exists>h. registry_get registry_build code = Some h \<and> h_handle h st code (pre @ enc @ pvk @ tail @ rest) = ask_pin p e q"
    using pin_form_handler [OF assms(1-6), of rest] pin_verify_handlers by metis
  with assms(7) show ?thesis
    by (cases res) (auto simp: ask_pin_def success_def from_proxy_error_def err_def)
qed

theorem pin_verification_wire_witness:
  "\<exists>h. registry_get registry_build (ascii ''GO'') = Some h
    \<and> run (\<lambda>w rq. (Suc w, ApcVerificationFailed)) (h_handle h demo_state (ascii ''GO'')
        ([0x30] @ demo_enc @ demo_pvk @ (ksn_field 0x36 (ascii ''FFFF9876543210E00001'') @ ascii ''0123456789ABCDEF'' @ ascii ''01''
          @ ascii ''04'' @ ascii ''123456789012'' @ ascii ''0123456789012345'' @ ascii ''1234567890N1'' @ ascii ''1234FFFFFFFF'')
        @ [])) 5 = (6, Some \<lparr> error_code = ascii ''01'', payload = [] \<rparr>)"
proof -
  have ibm: "ibm_data (ascii ''0123456789012345'') (ascii ''1234567890N1'') (ascii ''1234FFFFFFFF'')"
    and asc: "is_ascii (ascii ''FFFF9876543210E00001'' @ ascii ''0123456789ABCDEF'' @ ascii ''123456789012'')"
    and hds: "hd (ascii ''0123456789012345'') \<notin> {0x4B, 0x4C}" "hd (ascii ''1234567890N1'') \<noteq> 0x50"
    by (simp_all add: ibm_data_def is_ascii_def ascii_def)
  have bdk: "bdk_field demo_enc (label demo_enc)"
    by (rule bdk.label_field) (simp_all add: demo_enc_def is_ascii_def ascii_def)
  note form = any_dukpt [where mode = "0x30" and t = Tdes2Key and f = IsoFormat0 and c = "0x36",
      OF _ _ _ _ _ asc ibm hds, of "ascii ''01''" "ascii ''04''"]
  from pin_verification_wire [OF form bdk key_field_legacy demo_resolve(1,2), of "\<lambda>w rq. (Suc w, ApcVerificationFailed)" 5 6
      ApcVerificationFailed "[]"]
  show ?thesis by (simp add: demo_keys pin_formats_def pin_buildable_def ibm_attributes_def) (simp add: demo_state_def)
qed

end
