(* ===== verification/Emv_Requests.thy ===== *)
theory Emv_Requests
  imports Key_Blocks Registry
begin

text \<open>
  What the proxy asks of the service for the EMV commands on the wire: the verification of application
  cryptograms with or without a response (KQ, KW, JS, K2, KS) and the decryption of card counters (K0). The
  forms of the payloads are an inductive relation, one rule per command, which also says what each form
  stands for; the theorems say that the handler the registry holds for the command asks for exactly that.
\<close>

section \<open>Account number and sequence\<close>

text \<open>
  The eight bytes of the account field in packed decimal: the account number with zeros in front up to
  fourteen digits, then the two digits of the sequence number.
\<close>

definition pan_field :: "bytes \<Rightarrow> bytes \<Rightarrow> bytes \<Rightarrow> bool" where
  "pan_field bcd pan psn \<longleftrightarrow>
     length bcd = 8 \<and> length psn = 2 \<and> (pan \<noteq> [] \<longrightarrow> hd pan \<noteq> 0x30)
     \<and> encode_upper bcd = replicate (14 - length pan) 0x30 @ pan @ psn"

lemma trim_leading_zeros:
  "pan \<noteq> [] \<longrightarrow> hd pan \<noteq> 0x30 \<Longrightarrow> trim_start_matches 0x30 (replicate n 0x30 @ pan) = pan"
  by (induction n) (cases pan, simp_all add: trim_start_matches_def)+

lemma decode_pan_field:
  assumes "pan_field bcd pan psn"
  shows "length bcd = 8" and "decode_bcd_pan_seq bcd = Ok (pan, psn)"
proof -
  let ?z = "replicate (14 - length pan) 0x30 :: bytes"
  have f: "length bcd = 8" "length psn = 2" "pan \<noteq> [] \<longrightarrow> hd pan \<noteq> 0x30" "encode_upper bcd = ?z @ pan @ psn"
    using assms by (simp_all add: pan_field_def)
  have "length (encode_upper bcd) = 16" using f(1) by simp
  with f have "length (?z @ pan) = 14" by simp
  then have "take 14 ((?z @ pan) @ psn) = ?z @ pan" "drop 14 ((?z @ pan) @ psn) = psn"
    by (metis append_eq_conv_conj)+
  with f show "length bcd = 8" and "decode_bcd_pan_seq bcd = Ok (pan, psn)"
    by (simp_all add: decode_bcd_pan_seq_Ok trim_leading_zeros)
qed

lemma reads_pan_field:
  "pan_field bcd pan psn \<Longrightarrow> reads (f pan psn) w y \<Longrightarrow> reads (pbind fr_pan_seq (\<lambda>(a, b). f a b)) (bcd @ w) y"
  by (rule reads_pan_step) (simp_all add: decode_pan_field)

section \<open>Cryptogram requests on the wire\<close>

text \<open>The mode of a command and the fields it puts behind the cryptogram, with the response they ask for.\<close>

inductive arpc_form :: "byte \<Rightarrow> bytes \<Rightarrow> cryptogram_auth_response option \<Rightarrow> bool" where
  verify_only: "arpc_form 0x30 [] None"
| method1: "length arc = 2 \<Longrightarrow> arpc_form 0x31 arc (Some (ArpcMethod1 (encode_upper arc)))"
| method2: "length csu = 4 \<Longrightarrow> length pad = unat n \<Longrightarrow>
    arpc_form 0x32 (csu @ [n] @ pad)
      (Some (ArpcMethod2 (encode_upper csu) (if pad = [] then None else Some (encode_upper pad))))"

inductive_cases arpc_formE: "arpc_form mode w arpc"

text \<open>Transaction data behind its length in two bytes.\<close>

definition txn_field :: "bytes \<Rightarrow> bytes \<Rightarrow> bool" where
  "txn_field w txn \<longleftrightarrow> (\<exists>hi lo. w = [hi, lo] @ txn \<and> unat hi * 256 + unat lo = length txn)"

lemma reads_txn_field:
  assumes "txn_field w txn" and "reads (f (encode_upper (emv_pad txn))) w' y"
  shows "reads (pbind fr_txn_data f) (w @ w') y"
proof -
  from assms(1) obtain hi lo where w: "w = [hi, lo] @ txn" "unat hi * 256 + unat lo = length txn"
    by (auto simp: txn_field_def)
  show ?thesis unfolding w(1) by (rule reads_pbind, rule reads_txn_data [OF w(2)], rule assms(2))
qed

text \<open>
  The command table: for a command, what stands before the key, the parser of its key field
  (JS has no key-type prefix and its own key grammar), what follows the account field; and the master-key derivation option, the session-key method, the
  transaction data, the cryptogram and the response the service is asked for.
\<close>

record arqc_request =
  ar_option :: major_key_derivation_mode
  ar_session :: session_key_derivation
  ar_data :: bytes
  ar_arqc :: bytes
  ar_arpc :: "cryptogram_auth_response option"

inductive arqc_form ::
    "bytes \<Rightarrow> bytes \<Rightarrow> bytes \<Rightarrow> (bytes \<Rightarrow> nat \<Rightarrow> (key_descriptor \<times> nat) result)
      \<Rightarrow> bytes \<Rightarrow> bytes \<Rightarrow> arqc_request \<Rightarrow> bool"
  for pan :: bytes and psn :: bytes where
  KQ:
    "(scheme, skd) \<in> {(0x30, SessionKeyVisa pan psn), (0x32, SessionKeyAmex pan psn),
        (0x31, SessionKeyMastercard pan psn (encode_upper atc) (encode_upper un))}
      \<Longrightarrow> arpc_form mode resp arpc \<Longrightarrow> length kt = 3 \<Longrightarrow> length atc = 2 \<Longrightarrow> length un = 4 \<Longrightarrow> txn_field w txn
      \<Longrightarrow> length arqc = 8
      \<Longrightarrow> arqc_form pan psn (ascii ''KQ'') parse_legacy_key ([mode, scheme] @ kt) (atc @ un @ w @ [0x3B] @ arqc @ resp)
            \<lparr> ar_option = EmvOptionA, ar_session = skd, ar_data = encode_upper (emv_pad txn),
              ar_arqc = encode_upper arqc, ar_arpc = arpc \<rparr>"
| KW:
    "scheme \<in> {0x30, 0x31} \<and> skd = SessionKeyEmv2000 pan psn (encode_upper atc)
        \<or> scheme \<in> {0x32, 0x33, 0x35} \<and> skd = SessionKeyEmvCommon pan psn (encode_upper atc)
        \<or> scheme = 0x43 \<and> skd = SessionKeyUnionPay pan psn (encode_upper atc)
      \<Longrightarrow> (b, opt) \<in> {(0x41, EmvOptionA), (0x42, EmvOptionB)}
      \<Longrightarrow> arpc_form mode resp arpc \<Longrightarrow> length kt = 3 \<Longrightarrow> length atc = 2 \<Longrightarrow> length un = 4 \<Longrightarrow> txn_field w txn
      \<Longrightarrow> length arqc = 8
      \<Longrightarrow> arqc_form pan psn (ascii ''KW'') parse_legacy_key ([mode, scheme, b] @ kt) (atc @ un @ w @ [0x3B] @ arqc @ resp)
            \<lparr> ar_option = opt, ar_session = skd, ar_data = encode_upper (emv_pad txn),
              ar_arqc = encode_upper arqc, ar_arpc = arpc \<rparr>"
| JS:
    "arpc_form mode resp arpc \<Longrightarrow> mode \<noteq> 0x32 \<Longrightarrow> length atc = 2
      \<Longrightarrow> length l = 2 \<Longrightarrow> is_ascii l \<Longrightarrow> from_str_radix 16 l = Some (length txn) \<Longrightarrow> length arqc = 8
      \<Longrightarrow> arqc_form pan psn (ascii ''JS'') parse_key_32 [mode, scheme] (atc @ [flag] @ (l @ txn) @ [0x3B] @ arqc @ resp)
            \<lparr> ar_option = EmvOptionA, ar_session = SessionKeyUnionPay pan psn (encode_upper atc),
              ar_data = encode_upper (emv_pad txn), ar_arqc = encode_upper arqc, ar_arpc = arpc \<rparr>"
| K2:
    "length kt = 3 \<Longrightarrow> length atc = 2 \<Longrightarrow> length un = 4 \<Longrightarrow> txn_field w txn \<Longrightarrow> length arqc = 8
      \<Longrightarrow> arqc_form pan psn (ascii ''K2'') parse_legacy_key kt (atc @ un @ w @ [0x3B] @ arqc)
            \<lparr> ar_option = EmvOptionA,
              ar_session = SessionKeyMastercard pan psn (encode_upper atc) (encode_upper un),
              ar_data = encode_upper (emv_pad txn), ar_arqc = encode_upper arqc, ar_arpc = None \<rparr>"
| KS:
    "length kt = 3 \<Longrightarrow> length atc = 2 \<Longrightarrow> txn_field w txn \<Longrightarrow> length arqc = 8
      \<Longrightarrow> arqc_form pan psn (ascii ''KS'') parse_legacy_key kt (atc @ w @ [0x3B] @ arqc)
            \<lparr> ar_option = EmvOptionA, ar_session = SessionKeyEmv2000 pan psn (encode_upper atc),
              ar_data = encode_upper (emv_pad txn), ar_arqc = encode_upper arqc, ar_arpc = None \<rparr>"

section \<open>Reading the fields\<close>

lemma encode_upper_Nil_iff: "encode_upper w = [] \<longleftrightarrow> w = []"
  by (cases w) (simp_all add: encode_upper_def)

text \<open>The response fields, and what the builders make of them.\<close>

lemma arpc_form_reads:
  assumes "arpc_form mode w arpc" and "case arpc of None \<Rightarrow> True | Some a \<Rightarrow> build_ok st (SArpc a)"
  obtains m p where "arqc_mode_of mode = Ok m" and "reads (fr_arpc_params m) w p" and "build_arpc_opt st p = Ok arpc"
  using assms(1)
proof cases
  case verify_only
  then show thesis by (intro that [of VerifyOnly None]) (simp_all add: arqc_mode_of_def reads_preturn)
next
  case method1
  have "reads (fr_arpc_params VerifyArpcMethod1) w (Some (Method1 (encode_upper w)))"
    unfolding fr_arpc_params.simps by (intro reads_intros) (use method1 in simp_all)
  with method1 assms(2) show thesis
    by (intro that [of VerifyArpcMethod1 "Some (Method1 (encode_upper w))"])
      (simp_all add: arqc_mode_of_def)
next
  case (method2 csu pad n)
  have "reads (fr_arpc_params VerifyArpcMethod2) (csu @ [n] @ pad) (Some (Method2 (encode_upper csu) (encode_upper pad)))"
    unfolding fr_arpc_params.simps by (intro reads_intros) (use method2 in simp_all)
  with method2 assms(2) show thesis
    by (intro that [of VerifyArpcMethod2 "Some (Method2 (encode_upper csu) (encode_upper pad))"])
      (simp_all add: arqc_mode_of_def encode_upper_Nil_iff split: if_splits)
qed


lemmas arqc_steps = reads_pan_field reads_txn_field reads_pbind [OF reads_field [where parse = parse_legacy_key]]
  reads_pbind [OF reads_field [where parse = parse_key_32]]

lemma reads_final: "reads p w x \<Longrightarrow> g x = y \<Longrightarrow> reads (pbind p (\<lambda>a. preturn (g a))) w y"
  by (erule reads_last) (simp add: reads_preturn)

text \<open>
  Each parser on a payload of its form. \<open>params\<close> is what the response parser reads behind the cryptogram.
\<close>

lemma parse_kq_wire:
  assumes "arqc_mode_of mode = Ok m" and "kq_session_of scheme = Ok session" and "length kt = 3" and "key_field key d"
    and "pan_field bcd pan psn" and "length atc = 2" and "length un = 4" and "txn_field w txn" and "length arqc = 8"
    and "reads (fr_arpc_params m) resp params"
  shows "parse_kq (([mode, scheme] @ kt) @ key @ bcd @ (atc @ un @ w @ [0x3B] @ arqc @ resp) @ rest) =
    Ok \<lparr> kq_key_id = d, kq_mode = m, kq_session = session, kq_pan = pan, kq_pan_seq = psn, kq_atc = encode_upper atc,
         kq_un = encode_upper un, kq_txn_data = encode_upper (emv_pad txn), kq_arqc = encode_upper arqc,
         kq_arpc_params = params \<rparr>"
proof -
  have "reads parse_kq_fields ([mode] @ [scheme] @ kt @ key @ bcd @ atc @ un @ w @ [0x3B] @ arqc @ resp)
     \<lparr> kq_key_id = d, kq_mode = m, kq_session = session, kq_pan = pan, kq_pan_seq = psn, kq_atc = encode_upper atc,
       kq_un = encode_upper un, kq_txn_data = encode_upper (emv_pad txn), kq_arqc = encode_upper arqc,
       kq_arpc_params = params \<rparr>"
    unfolding parse_kq_fields_def
    by (intro arqc_steps reads_intros) (use assms in simp_all, rule reads_final [OF assms(10) refl])
  from run_parser_reads [OF this, of rest] show ?thesis by (simp add: parse_kq_def)
qed

lemma parse_kw_wire:
  assumes "arqc_mode_of mode = Ok m" and "kw_session_of scheme = Ok session" and "kw_deriv_method b = Ok a"
    and "length kt = 3" and "key_field key d"
    and "pan_field bcd pan psn" and "length atc = 2" and "length un = 4" and "txn_field w txn" and "length arqc = 8"
    and "reads (fr_arpc_params m) resp params"
  shows "parse_kw (([mode, scheme, b] @ kt) @ key @ bcd @ (atc @ un @ w @ [0x3B] @ arqc @ resp) @ rest) =
    Ok \<lparr> kw_key_id = d, kw_mode = m, kw_deriv_mode_a = a, kw_session = session, kw_pan = pan, kw_pan_seq = psn,
         kw_atc = encode_upper atc, kw_un = encode_upper un, kw_txn_data = encode_upper (emv_pad txn),
         kw_arqc = encode_upper arqc, kw_arpc_params = params \<rparr>"
proof -
  have "reads parse_kw_fields ([mode] @ [scheme] @ [b] @ kt @ key @ bcd @ atc @ un @ w @ [0x3B] @ arqc @ resp)
     \<lparr> kw_key_id = d, kw_mode = m, kw_deriv_mode_a = a, kw_session = session, kw_pan = pan, kw_pan_seq = psn,
       kw_atc = encode_upper atc, kw_un = encode_upper un, kw_txn_data = encode_upper (emv_pad txn),
       kw_arqc = encode_upper arqc, kw_arpc_params = params \<rparr>"
    unfolding parse_kw_fields_def
    by (intro arqc_steps reads_intros) (use assms in simp_all, rule reads_final [OF assms(11) refl])
  from run_parser_reads [OF this, of rest] show ?thesis by (simp add: parse_kw_def)
qed

lemma parse_js_wire:
  assumes "js_mode_of mode = Ok with_arpc" and "key_32_field key d" and "pan_field bcd pan psn" and "length atc = 2"
    and "length l = 2" and "is_ascii l" and "from_str_radix 16 l = Some (length txn)" and "length arqc = 8"
    and "if with_arpc then length resp = 2 else resp = []"
  shows "parse_js ([mode, scheme] @ key @ bcd @ (atc @ [flag] @ (l @ txn) @ [0x3B] @ arqc @ resp) @ rest) =
    Ok \<lparr> js_key_id = d, js_pan = pan, js_pan_seq = psn, js_atc = encode_upper atc,
         js_txn_data = encode_upper (emv_pad txn), js_arqc = encode_upper arqc,
         js_arc = (if with_arpc then Some (encode_upper resp) else None) \<rparr>"
proof -
  have arc: "reads (if with_arpc then pbind (fr_take_hex 2) (\<lambda>a. preturn (Some a)) else preturn None) resp
      (if with_arpc then Some (encode_upper resp) else None)"
    using assms(9) by (auto intro!: reads_final reads_take_hex reads_preturn)
  have txn: "reads (fr_take_ascii_len_field 2 16) (l @ txn) txn"
    by (rule reads_ascii_len_field) (use assms in \<open>simp_all add: is_ascii_utf8_valid\<close>)
  have "reads parse_js_fields ([mode] @ [scheme] @ key @ bcd @ atc @ [flag] @ (l @ txn) @ [0x3B] @ arqc @ resp)
     \<lparr> js_key_id = d, js_pan = pan, js_pan_seq = psn, js_atc = encode_upper atc,
       js_txn_data = encode_upper (emv_pad txn), js_arqc = encode_upper arqc,
       js_arc = (if with_arpc then Some (encode_upper resp) else None) \<rparr>"
    unfolding parse_js_fields_def
    by (intro arqc_steps reads_intros reads_pbind [OF txn])
      (use assms in \<open>simp_all split del: if_split\<close>, rule reads_final [OF arc refl])
  from run_parser_reads [OF this, of rest] show ?thesis by (simp add: parse_js_def)
qed

lemma parse_cap_wire:
  assumes "length kt = 3" and "key_field key d" and "pan_field bcd pan psn" and "length atc = 2"
    and "if is_k2 then length un = 4 else un = []" and "txn_field w txn" and "length arqc = 8"
  shows "parse_cap (kt @ key @ bcd @ (atc @ un @ w @ [0x3B] @ arqc) @ rest) is_k2 =
    Ok \<lparr> cap_key_id = d, cap_pan = pan, cap_pan_seq = psn, cap_atc = encode_upper atc,
         cap_unpredictable_number = (if is_k2 then Some (encode_upper un) else None),
         cap_txn_data = encode_upper (emv_pad txn), cap_cryptogram = encode_upper arqc \<rparr>"
proof -
  have un: "reads (if is_k2 then pbind (fr_take_hex 4) (\<lambda>u. preturn (Some u)) else preturn None) un
      (if is_k2 then Some (encode_upper un) else None)"
    using assms(5) by (auto intro!: reads_final reads_take_hex reads_preturn)
  have "reads (parse_cap_fields is_k2) (kt @ key @ bcd @ atc @ un @ w @ [0x3B] @ arqc)
     \<lparr> cap_key_id = d, cap_pan = pan, cap_pan_seq = psn, cap_atc = encode_upper atc,
       cap_unpredictable_number = (if is_k2 then Some (encode_upper un) else None),
       cap_txn_data = encode_upper (emv_pad txn), cap_cryptogram = encode_upper arqc \<rparr>"
    unfolding parse_cap_fields_def
    by (intro arqc_steps reads_intros reads_pbind [OF un]) (use assms in simp_all)
  from run_parser_reads [OF this, of rest] show ?thesis by (simp add: parse_cap_def)
qed

section \<open>One request\<close>

text \<open>The builders of the service's request accept its parts.\<close>

definition arqc_buildable :: "app_state \<Rightarrow> arqc_request \<Rightarrow> bool" where
  "arqc_buildable st r \<longleftrightarrow> build_ok st (SSession (ar_session r))
     \<and> (case ar_arpc r of None \<Rightarrow> True | Some a \<Rightarrow> build_ok st (SArpc a))"

definition ask_arqc :: "bytes \<Rightarrow> arqc_request \<Rightarrow> handler_result io" where
  "ask_arqc arn r = verify_arqc arn (ar_data r) (ar_arqc r) (ar_option r) (ar_session r) (ar_arpc r)"

lemma kq_asks:
  assumes "(scheme, skd) \<in> {(0x30, SessionKeyVisa pan psn), (0x32, SessionKeyAmex pan psn),
        (0x31, SessionKeyMastercard pan psn (encode_upper atc) (encode_upper un))}"
    and "arpc_form mode resp arpc" and "length kt = 3" and "length atc = 2" and "length un = 4" and "txn_field w txn"
    and "length arqc = 8" and "key_field key d" and "pan_field bcd pan psn"
    and "resolve_descriptor (st_key_map st) d = Ok arn"
    and "r = \<lparr> ar_option = EmvOptionA, ar_session = skd, ar_data = encode_upper (emv_pad txn),
              ar_arqc = encode_upper arqc, ar_arpc = arpc \<rparr>" and "arqc_buildable st r"
  shows "kq_handle st code (([mode, scheme] @ kt) @ key @ bcd @ (atc @ un @ w @ [0x3B] @ arqc @ resp) @ rest) =
    ask_arqc arn r"
proof -
  have ok: "build_ok st (SSession skd)" "case arpc of None \<Rightarrow> True | Some a \<Rightarrow> build_ok st (SArpc a)"
    using assms(11,12) by (simp_all add: arqc_buildable_def)
  obtain m p where resp: "arqc_mode_of mode = Ok m" "reads (fr_arpc_params m) resp p" "build_arpc_opt st p = Ok arpc"
    using arpc_form_reads [OF assms(2) ok(2)] by blast
  obtain session where session: "kq_session_of scheme = Ok session"
      "build_session_key st session pan psn (encode_upper atc) (encode_upper un) = Ok skd"
    using assms(1) ok(1) by (auto simp: kq_session_of_def intro: that)
  show ?thesis
    using parse_kq_wire [OF resp(1) session(1) assms(3,8,9,4-7) resp(2), of rest] assms(10) session(2) resp(3)
    by (simp add: kq_handle_def handle_kq_def Let_def ask_arqc_def assms(11))
qed

lemma kw_asks:
  assumes "scheme \<in> {0x30, 0x31} \<and> skd = SessionKeyEmv2000 pan psn (encode_upper atc)
        \<or> scheme \<in> {0x32, 0x33, 0x35} \<and> skd = SessionKeyEmvCommon pan psn (encode_upper atc)
        \<or> scheme = 0x43 \<and> skd = SessionKeyUnionPay pan psn (encode_upper atc)"
    and "(b, opt) \<in> {(0x41, EmvOptionA), (0x42, EmvOptionB)}"
    and "arpc_form mode resp arpc" and "length kt = 3" and "length atc = 2" and "length un = 4" and "txn_field w txn"
    and "length arqc = 8" and "key_field key d" and "pan_field bcd pan psn"
    and "resolve_descriptor (st_key_map st) d = Ok arn"
    and "r = \<lparr> ar_option = opt, ar_session = skd, ar_data = encode_upper (emv_pad txn),
              ar_arqc = encode_upper arqc, ar_arpc = arpc \<rparr>" and "arqc_buildable st r"
  shows "kw_handle st code (([mode, scheme, b] @ kt) @ key @ bcd @ (atc @ un @ w @ [0x3B] @ arqc @ resp) @ rest) =
    ask_arqc arn r"
proof -
  have ok: "build_ok st (SSession skd)" "case arpc of None \<Rightarrow> True | Some a \<Rightarrow> build_ok st (SArpc a)"
    using assms(12,13) by (simp_all add: arqc_buildable_def)
  obtain m p where resp: "arqc_mode_of mode = Ok m" "reads (fr_arpc_params m) resp p" "build_arpc_opt st p = Ok arpc"
    using arpc_form_reads [OF assms(3) ok(2)] by blast
  obtain session where session: "kw_session_of scheme = Ok session"
      "build_session_key st session pan psn (encode_upper atc) (encode_upper un) = Ok skd"
    using assms(1) ok(1) by (auto simp: kw_session_of_def intro: that)
  have a: "kw_deriv_method b = Ok (b = 0x41)" "opt = (if b = 0x41 then EmvOptionA else EmvOptionB)"
    using assms(2) by (auto simp: kw_deriv_method_def)
  show ?thesis
    using parse_kw_wire [OF resp(1) session(1) a(1) assms(4,9,10,5-8) resp(2), of rest] assms(11) session(2) resp(3)
    by (simp add: kw_handle_def handle_kw_def Let_def ask_arqc_def assms(12) a(2))
qed

lemma js_asks:
  assumes "arpc_form mode resp arpc" and "mode \<noteq> 0x32" and "length atc = 2"
    and "length l = 2" and "is_ascii l" and "from_str_radix 16 l = Some (length txn)" and "length arqc = 8"
    and "key_32_field key d" and "pan_field bcd pan psn" and "resolve_descriptor (st_key_map st) d = Ok arn"
    and "r = \<lparr> ar_option = EmvOptionA, ar_session = SessionKeyUnionPay pan psn (encode_upper atc),
              ar_data = encode_upper (emv_pad txn), ar_arqc = encode_upper arqc, ar_arpc = arpc \<rparr>"
    and "arqc_buildable st r"
  shows "js_handle st code ([mode, scheme] @ key @ bcd @ (atc @ [flag] @ (l @ txn) @ [0x3B] @ arqc @ resp) @ rest) =
    ask_arqc arn r"
proof -
  obtain with_arpc where mode: "js_mode_of mode = Ok with_arpc" "if with_arpc then length resp = 2 else resp = []"
      "arpc = (if with_arpc then Some (ArpcMethod1 (encode_upper resp)) else None)"
    using assms(1,2) by (elim arpc_formE) (auto simp: js_mode_of_def intro: that)
  show ?thesis
    using parse_js_wire [OF mode(1) assms(8,9,3-7) mode(2), of scheme flag rest] assms(10,12) mode(3)
    by (cases with_arpc) (simp_all add: js_handle_def handle_js_def Let_def ask_arqc_def assms(11) arqc_buildable_def sdk_build_def)
qed

lemma cap_asks:
  assumes "length kt = 3" and "length atc = 2" and "if with_un then length un = 4 else un = []" and "txn_field w txn"
    and "length arqc = 8" and "key_field key d" and "pan_field bcd pan psn"
    and "resolve_descriptor (st_key_map st) d = Ok arn"
    and "r = \<lparr> ar_option = EmvOptionA,
              ar_session = (if with_un then SessionKeyMastercard pan psn (encode_upper atc) (encode_upper un)
                            else SessionKeyEmv2000 pan psn (encode_upper atc)),
              ar_data = encode_upper (emv_pad txn), ar_arqc = encode_upper arqc, ar_arpc = None \<rparr>"
    and "arqc_buildable st r"
  shows "handle_cap st (kt @ key @ bcd @ (atc @ un @ w @ [0x3B] @ arqc) @ rest) with_un = ask_arqc arn r"
  using parse_cap_wire [OF assms(1,6,7,2-5), of rest] assms(8,10)
  by (cases with_un) (simp_all add: handle_cap_def Let_def ask_arqc_def assms(9) arqc_buildable_def sdk_build_def)

text \<open>The handlers of the commands.\<close>

lemma arqc_handlers:
  "registry_get registry_build (ascii ''KQ'') = Some KqArqcHandler"
  "registry_get registry_build (ascii ''KW'') = Some KwArqcHandler"
  "registry_get registry_build (ascii ''JS'') = Some UnionPayArqcHandler"
  "registry_get registry_build (ascii ''K2'') = Some CapArqcHandler"
  "registry_get registry_build (ascii ''KS'') = Some CapArqcHandler"
  "h_handle KqArqcHandler = kq_handle" "h_handle KwArqcHandler = kw_handle"
  "h_handle UnionPayArqcHandler = js_handle" "h_handle CapArqcHandler = cap_handle"
  by (rule registry_get_declared; simp add: registered_handlers_def thales_handlers_def handler_defs mk_handler_def)+
    (simp_all add: handler_defs mk_handler_def)

text \<open>The handler the registry holds for the command sends the request of the form.\<close>

lemma arqc_form_asks:
  assumes "arqc_form pan psn code parse pre tail r" and "field_of parse key d" and "pan_field bcd pan psn"
    and "resolve_descriptor (st_key_map st) d = Ok arn" and "arqc_buildable st r"
  shows "\<exists>h. registry_get registry_build code = Some h
    \<and> h_handle h st code (pre @ key @ bcd @ tail @ rest) = ask_arqc arn r"
proof -
  let ?pl = "pre @ key @ bcd @ tail @ rest"
  let ?io = "ask_arqc arn r"
  note key = assms(2)
  consider "code = ascii ''KQ''" "kq_handle st code ?pl = ?io" | "code = ascii ''KW''" "kw_handle st code ?pl = ?io"
    | "code = ascii ''JS''" "js_handle st code ?pl = ?io"
    | "code \<in> {ascii ''K2'', ascii ''KS''}" "cap_handle st code ?pl = ?io"
    using assms(1)
  proof cases
    case (KQ scheme skd atc un mode resp arpc kt w txn arqc)
    with key kq_asks [OF KQ(6-12) _ assms(3,4) KQ(5) assms(5)] show thesis by (simp add: that)
  next
    case (KW scheme skd atc b opt mode resp arpc kt un w txn arqc)
    with key kw_asks [OF KW(6-13) _ assms(3,4) KW(5) assms(5)] show thesis by (simp add: that)
  next
    case (JS mode resp arpc atc l txn arqc scheme flag)
    with key js_asks [OF JS(6-12) _ assms(3,4) JS(5) assms(5)] show thesis by (simp add: that)
  next
    case (K2 atc un w txn arqc)
    with key cap_asks [where with_un = True and un = un, OF K2(5,6) _ K2(8,9) _ assms(3,4) _ assms(5)]
    show thesis by (simp add: that cap_handle_def ascii_inj)
  next
    case (KS atc w txn arqc)
    with key cap_asks [where with_un = False and un = "[]", OF KS(5,6) _ KS(7,8) _ assms(3,4) _ assms(5)]
    show thesis by (simp add: that cap_handle_def ascii_inj)
  qed
  then show ?thesis
  proof cases
    case 1
    then show ?thesis by (intro exI [of _ KqArqcHandler]) (simp add: arqc_handlers)
  next
    case 2
    then show ?thesis by (intro exI [of _ KwArqcHandler]) (simp add: arqc_handlers)
  next
    case 3
    then show ?thesis by (intro exI [of _ UnionPayArqcHandler]) (simp add: arqc_handlers)
  next
    case 4
    then show ?thesis by (intro exI [of _ CapArqcHandler]) (auto simp: arqc_handlers)
  qed
qed

section \<open>Properties\<close>

text \<open>
  C27: every cryptogram command asks the service one question. A payload of KQ, KW, JS, K2 or KS, in any of the
  schemes and response modes the commands support and with the key in any form the key field allows, is
  handed to the one handler the registry holds for it, which verifies the cryptogram of the payload over its
  transaction data with EMV padding, under the key the key field resolves to, with the derivation option,
  the session-key method and its inputs the scheme stands for (account number and sequence, counter,
  unpredictable number), and with the response the mode asks for; the client is answered \<open>00\<close> and the response
  cryptogram if there is one, \<open>01\<close> when the cryptogram does not verify, \<open>41\<close> when the service fails. (KQ uses the
  Visa, Mastercard and Amex methods and KW EMV2000, EMV common and UnionPay; the README's note that both use EMV
  common is not what the code does.)
\<close>

theorem arqc_wire:
  assumes "arqc_form pan psn code parse pre tail r" and "field_of parse key d" and "pan_field bcd pan psn"
    and "resolve_descriptor (st_key_map st) d = Ok arn" and "arqc_buildable st r"
    and "svc w (VerifyAuthRequestCryptogram arn (ar_data r) (ar_arqc r) (ar_option r) (ar_session r) (ar_arpc r)) = (w', res)"
  shows "\<exists>h. registry_get registry_build code = Some h
    \<and> run svc (h_handle h st code (pre @ key @ bcd @ tail @ rest)) w =
      (w', Some (case res of
          ApcOk resp \<Rightarrow> success (case r_auth_response_value resp of Some a \<Rightarrow> a | None \<Rightarrow> [])
        | ApcVerificationFailed \<Rightarrow> err (ascii ''01'')
        | ApcErr \<Rightarrow> err (ascii ''41'')))"
proof -
  from arqc_form_asks [OF assms(1-5), of rest] obtain h where "registry_get registry_build code = Some h"
    and "h_handle h st code (pre @ key @ bcd @ tail @ rest) = ask_arqc arn r" by blast
  with assms(6) show ?thesis
    by (intro exI [of _ h], cases res)
      (simp_all add: ask_arqc_def verify_arqc_def from_proxy_error_def split: option.split)
qed

lemma demo_pan_field: "pan_field [0, 0x45, 0x67, 0x89, 0x01, 0x23, 0x45, 0x01] (ascii ''456789012345'') (ascii ''01'')"
  by (simp add: pan_field_def encode_upper_def hex_digit_def ascii_def) (simp add: numeral_eq_Suc)

theorem arqc_wire_witness:
  "\<exists>h. registry_get registry_build (ascii ''KW'') = Some h
    \<and> run (\<lambda>w rq. (Suc w, ApcOk (demo_output\<lparr> r_auth_response_value := Some (ascii ''CAFE'') \<rparr>)))
        (h_handle h demo_state (ascii ''KW'') (([0x31, 0x43, 0x42] @ ascii ''000'') @ demo_enc
          @ [0, 0x45, 0x67, 0x89, 0x01, 0x23, 0x45, 0x01]
          @ ([0, 1] @ [1, 2, 3, 4] @ [0, 1, 7] @ [0x3B] @ [1, 2, 3, 4, 5, 6, 7, 0xAB] @ [0x30, 0x30]) @ [])) 0 =
      (1, Some (success (ascii ''CAFE'')))"
proof -
  let ?out = "demo_output\<lparr> r_auth_response_value := Some (ascii ''CAFE'') \<rparr>"
  have txn: "txn_field [0, 1, 7] [7]" by (simp add: txn_field_def)
  have key: "key_field demo_enc (label demo_enc)" using key_field_legacy demo_keys by simp
  note form = KW [OF _ _ method1 _ _ _ txn, of "0x43" "SessionKeyUnionPay (ascii ''456789012345'') (ascii ''01'') (encode_upper [0, 1])"
      "ascii ''456789012345''" "ascii ''01''" "[0, 1]" "0x42" EmvOptionB "[0x30, 0x30]" "ascii ''000''" "[1, 2, 3, 4]"
      "[1, 2, 3, 4, 5, 6, 7, 0xAB]"]
  from arqc_wire [OF form key demo_pan_field demo_resolve(1), of "\<lambda>w rq. (Suc w, ApcOk ?out)" 0 1 "ApcOk ?out" "[]"]
  show ?thesis by (simp add: arqc_buildable_def) (simp add: demo_state_def)
qed

text \<open>
  C37: the padding flag of JS has no effect. The command documents a flag that says the host has already applied the
  EMV padding; payloads that differ in this flag only ask the same question, over the transaction data padded
  once more. So a host that sets the flag has its padded data padded a second time, which is never what it
  padded: the cryptogram is checked over other data than the card signed.
\<close>

theorem js_padding_flag_ignored:
  assumes "arpc_form mode resp arpc" and "mode \<noteq> 0x32" and "length atc = 2" and "length arqc = 8"
    and "length l = 2" and "is_ascii l" and "from_str_radix 16 l = Some (length (emv_pad txn))"
    and "key_32_field key d" and "pan_field bcd pan psn" and "resolve_descriptor (st_key_map st) d = Ok arn"
    and "build_ok st (SSession (SessionKeyUnionPay pan psn (encode_upper atc)))"
    and "case arpc of None \<Rightarrow> True | Some a \<Rightarrow> build_ok st (SArpc a)"
  shows "js_handle st code ([mode, scheme] @ key @ bcd @ (atc @ [flag] @ (l @ emv_pad txn) @ [0x3B] @ arqc @ resp) @ rest) =
      verify_arqc arn (encode_upper (emv_pad (emv_pad txn))) (encode_upper arqc) EmvOptionA
        (SessionKeyUnionPay pan psn (encode_upper atc)) arpc
    \<and> encode_upper (emv_pad (emv_pad txn)) \<noteq> encode_upper (emv_pad txn)"
proof
  show "encode_upper (emv_pad (emv_pad txn)) \<noteq> encode_upper (emv_pad txn)"
    using emv_pad_canonical [of "emv_pad txn" txn] by (auto dest: arg_cong [of _ _ length])
  show "js_handle st code ([mode, scheme] @ key @ bcd @ (atc @ [flag] @ (l @ emv_pad txn) @ [0x3B] @ arqc @ resp) @ rest) =
      verify_arqc arn (encode_upper (emv_pad (emv_pad txn))) (encode_upper arqc) EmvOptionA
        (SessionKeyUnionPay pan psn (encode_upper atc)) arpc"
    by (subst js_asks [OF assms(1-3,5-7,4,8-10) refl])
      (simp_all add: assms arqc_buildable_def ask_arqc_def)
qed

theorem js_padding_flag_ignored_witness:
  "js_handle demo_state (ascii ''JS'') ([0x30, 0x31] @ demo_enc @ [0, 0x45, 0x67, 0x89, 0x01, 0x23, 0x45, 0x01]
        @ ([0, 1] @ [0x31] @ (ascii ''08'' @ emv_pad [7]) @ [0x3B] @ [1, 2, 3, 4, 5, 6, 7, 0xAB] @ []) @ []) =
      verify_arqc (ascii ''arn:e'') (encode_upper (emv_pad (emv_pad [7]))) (encode_upper [1, 2, 3, 4, 5, 6, 7, 0xAB]) EmvOptionA
        (SessionKeyUnionPay (ascii ''456789012345'') (ascii ''01'') (encode_upper [0, 1])) None
    \<and> encode_upper (emv_pad (emv_pad [7])) \<noteq> encode_upper (emv_pad [7])"
  by (rule js_padding_flag_ignored [OF verify_only _ _ _ _ _ _ key_32.label_field demo_pan_field demo_resolve(1)])
    (simp_all add: emv_pad_def pad_zero8.simps ascii_def from_str_radix_def to_digit_def is_ascii_def demo_enc_def,
      simp_all add: demo_state_def)

section \<open>Decryption of card counters\<close>

text \<open>
  K0 asks the service for one decryption of the cipher text of the payload under the session key the counter,
  followed by zeros, derives, and answers the plain text.
\<close>

lemma k0_wire:
  assumes "length kt = 3" and "key_field key d" and "pan_field bcd pan psn" and "length atc = 2"
    and "unat hi * 256 + unat lo = length ct" and "resolve_descriptor (st_key_map st) d = Ok arn"
    and "emv = \<lparr> ee_major_mode = EmvOptionA, ee_primary_account_number = pan, ee_pan_sequence_number = psn,
           ee_session_derivation_data = encode_upper (atc @ replicate 6 0), ee_mode = Cbc \<rparr>"
    and "build_ok st (SEmvEncryption emv)"
    and "svc w (DecryptData arn (encode_upper ct) (Emv emv)) = (w', res)"
  shows "run svc (k0_handle st code (kt @ key @ bcd @ atc @ [hi, lo] @ ct @ rest)) w =
    (w', Some (case res of ApcOk resp \<Rightarrow> success (r_plain_text resp) | _ \<Rightarrow> err (ascii ''41'')))"
proof -
  have "reads parse_k0_fields (kt @ key @ bcd @ atc @ [hi, lo] @ ct)
     \<lparr> k0_key_id = d, k0_pan = pan, k0_pan_seq = psn, k0_atc = encode_upper atc, k0_cipher_text = encode_upper ct \<rparr>"
    unfolding parse_k0_fields_def by (intro arqc_steps reads_intros) (use assms in simp_all)
  from run_parser_reads [OF this, of rest]
  have "parse_k0 (kt @ key @ bcd @ atc @ [hi, lo] @ ct @ rest) =
      Ok \<lparr> k0_key_id = d, k0_pan = pan, k0_pan_seq = psn, k0_atc = encode_upper atc, k0_cipher_text = encode_upper ct \<rparr>"
    by (simp add: parse_k0_def)
  moreover have "encode_upper (atc @ replicate 6 0) = encode_upper atc @ ascii ''000000000000''"
    by (simp add: encode_upper_def hex_digit_def ascii_def) (simp add: numeral_eq_Suc)
  ultimately show ?thesis using assms(6-9)
    by (cases res) (simp_all add: k0_handle_def handle_k0_def Let_def sdk_build_def from_proxy_error_def success_def)
qed

end
