(* ===== verification/Grounding.thy ===== *)
theory Grounding
  imports Registry "HOL-Library.Option_ord" "HOL-Library.Sublist"
begin

text \<open>
  The grounding report (\<open>src/src/handlers/grounding.rs\<close> and \<open>grounding_entries\<close> of
  \<open>src/src/handlers/mod.rs\<close>): the Markdown document generated from the evidence the handlers carry.
  The handlers are taken from the values of a hash table, whose order is arbitrary: it is an
  argument of the walk. The evidence is also held against the behaviour of the handlers.
\<close>

section \<open>The report\<close>

record entry =
  en_codes :: "bytes list"
  en_evidence :: "evidence list"

text \<open>\<open>slice::join\<close>.\<close>

fun join :: "bytes \<Rightarrow> bytes list \<Rightarrow> bytes" where
  "join sep [] = []"
| "join sep [x] = x"
| "join sep (x # y # ys) = x @ sep @ join sep (y # ys)"

abbreviation newline :: bytes where "newline \<equiv> [0x0A]"
abbreviation middle_dot :: bytes where "middle_dot \<equiv> [0xC2, 0xB7]"

definition codes_text :: "entry \<Rightarrow> bytes" where
  "codes_text e = join (ascii ''`, `'') (en_codes e)"

definition report_head :: bytes where
  "report_head =
     ascii ''<!-- GENERATED by tests/grounding.rs (grounding_report_is_current). DO NOT EDIT. -->'' @ newline
     @ ascii ''<!-- Source of truth: each handler'' @ apostrophe
     @ ascii ''s Handler::grounding(); see src/handlers/grounding.rs. -->'' @ newline @ newline
     @ ascii ''# Grounding report'' @ newline @ newline
     @ ascii ''Evidence for *why* each handler behaves as it does and *how* it was ''
     @ ascii ''verified. Generated from `Handler::grounding()` '' @ em_dash @ ascii '' do not edit by hand. ''
     @ ascii ''Grounding labels: wire `vec-thru` > `diff-xprov` > `cited` > `none`; ''
     @ ascii ''crypto `vec` > `2impl` > `apc` > `none`.'' @ newline @ newline"

definition coverage_line :: "nat \<Rightarrow> nat \<Rightarrow> nat \<Rightarrow> bytes" where
  "coverage_line grounded all ungrounded =
     ascii ''**Coverage:** '' @ display_nat grounded @ ascii '' of '' @ display_nat all
     @ ascii '' handlers carry grounding; '' @ display_nat ungrounded @ ascii '' not yet grounded ''
     @ ascii ''(tracked at the end). This reflects current state '' @ em_dash @ ascii '' it does not claim the ''
     @ ascii ''rest are verified.'' @ newline @ newline"

definition evidence_lines :: "evidence \<Rightarrow> bytes" where
  "evidence_lines ev =
     ascii ''- **'' @ ev_decision ev @ ascii ''**'' @ newline
     @ ascii ''  - wire `'' @ wire_label (ev_wire ev) @ ascii ''` '' @ middle_dot @ ascii '' crypto `''
     @ crypto_label (ev_crypto ev) @ ascii ''` '' @ middle_dot @ ascii '' '' @ proof_label (ev_proof ev) @ newline
     @ ascii ''  - '' @ ev_because ev @ newline"

definition grounded_section :: "entry \<Rightarrow> bytes" where
  "grounded_section e =
     ascii ''## `'' @ codes_text e @ ascii ''`'' @ newline @ newline
     @ concat (map evidence_lines (en_evidence e)) @ newline"

definition ungrounded_line :: "entry \<Rightarrow> bytes" where
  "ungrounded_line e = ascii ''- `'' @ codes_text e @ ascii ''`'' @ newline"

definition ungrounded_head :: bytes where
  "ungrounded_head =
     ascii ''## Not yet grounded'' @ newline @ newline
     @ ascii ''These handlers have no `grounding()` yet '' @ em_dash @ ascii '' the open documentation/testing ''
     @ ascii ''gap. Grounding them is the ongoing work (documentation + test added together).'' @ newline @ newline"

definition format_report :: "entry list \<Rightarrow> bytes" where
  "format_report entries =
     (let grounded = filter (\<lambda>e. en_evidence e \<noteq> []) entries;
          ungrounded = filter (\<lambda>e. en_evidence e = []) entries in
      report_head @ coverage_line (length grounded) (length entries) (length ungrounded)
      @ concat (map grounded_section grounded)
      @ (if ungrounded \<noteq> [] then ungrounded_head @ concat (map ungrounded_line ungrounded) else []))"

text \<open>The walk over the values of the table, in the order \<open>hs\<close> the table yields them.\<close>

definition handler_entry :: "handler \<Rightarrow> entry" where
  "handler_entry h = \<lparr> en_codes = h_command_codes h, en_evidence = h_grounding h \<rparr>"

fun collect_entries :: "bytes set \<Rightarrow> handler list \<Rightarrow> entry list" where
  "collect_entries seen [] = []"
| "collect_entries seen (h # hs) =
     (case first (h_command_codes h) of
        None \<Rightarrow> collect_entries seen hs
      | Some c \<Rightarrow>
          if c \<in> seen then collect_entries seen hs
          else handler_entry h # collect_entries (insert c seen) hs)"

definition grounding_entries :: "handler list \<Rightarrow> entry list" where
  "grounding_entries hs = sort_key (\<lambda>e. first (en_codes e)) (collect_entries {} hs)"

definition grounding_report :: "handler list \<Rightarrow> bytes" where
  "grounding_report hs = format_report (grounding_entries hs)"

section \<open>The order of the table does not matter\<close>

lemma collect_entries_set:
  assumes "inj_on (\<lambda>h. first (h_command_codes h)) (set hs)" and "\<forall>h \<in> set hs. h_command_codes h \<noteq> []"
  shows "set (collect_entries seen hs) =
    handler_entry ` {h \<in> set hs. first (h_command_codes h) \<notin> Some ` seen}"
  using assms
proof (induction hs arbitrary: seen)
  case (Cons h hs)
  then obtain c where c: "first (h_command_codes h) = Some c" by (cases "h_command_codes h") auto
  show ?case
  proof (cases "c \<in> seen")
    case False
    have only: "first (h_command_codes h') = Some c \<longleftrightarrow> h' = h" if "h' \<in> set (h # hs)" for h'
      using Cons.prems(1) that c unfolding inj_on_def by (metis list.set_intros(1))
    have "{h' \<in> set (h # hs). first (h_command_codes h') \<notin> Some ` seen} =
        insert h {h' \<in> set hs. first (h_command_codes h') \<notin> Some ` insert c seen}"
    proof (rule set_eqI)
      fix x
      show "x \<in> {h' \<in> set (h # hs). first (h_command_codes h') \<notin> Some ` seen} \<longleftrightarrow>
          x \<in> insert h {h' \<in> set hs. first (h_command_codes h') \<notin> Some ` insert c seen}"
        using only [of x] False c by (cases "x = h"; cases "x \<in> set hs") (auto simp: image_iff)
    qed
    moreover have "set (collect_entries (insert c seen) hs) =
        handler_entry ` {h' \<in> set hs. first (h_command_codes h') \<notin> Some ` insert c seen}"
      using Cons by simp
    ultimately show ?thesis using False c by (simp del: image_insert) simp
  next
    case True
    then have "{h' \<in> set (h # hs). first (h_command_codes h') \<notin> Some ` seen} =
        {h' \<in> set hs. first (h_command_codes h') \<notin> Some ` seen}" using c by auto
    with True c Cons show ?thesis by simp
  qed
qed simp

lemma collect_entries_distinct:
  "distinct (map (\<lambda>e. first (en_codes e)) (collect_entries seen hs))
    \<and> (\<forall>e \<in> set (collect_entries seen hs). first (en_codes e) \<notin> Some ` seen)"
proof (induction hs arbitrary: seen)
  case (Cons h hs)
  then show ?case
    by (cases "first (h_command_codes h)") (auto simp: handler_entry_def image_iff, fastforce)
qed simp

text \<open>A list without repeated keys is determined by its elements once it is sorted.\<close>

lemma sort_key_set_eq:
  assumes "distinct (map f xs)" and "distinct (map f ys)" and "set xs = set ys"
  shows "sort_key f xs = sort_key f ys"
proof -
  have "mset xs = mset (sort_key f ys)"
    using assms by (simp add: distinct_map set_eq_iff_mset_eq_distinct [symmetric])
  then show ?thesis
    by (rule sort_key_inj_key_eq) (use assms(1) in \<open>simp_all add: distinct_map\<close>)
qed

section \<open>The table of the proxy\<close>

lemma distinct_foldl:
  "(\<And>t x. distinct (map fst t) \<Longrightarrow> distinct (map fst (f t x))) \<Longrightarrow> distinct (map fst t) \<Longrightarrow>
    distinct (map fst (foldl f t xs))"
  by (induction xs arbitrary: t) simp_all

lemma distinct_register: "distinct (map fst t) \<Longrightarrow> distinct (map fst (register t h))"
  unfolding register_def by (rule distinct_foldl) (simp_all add: distinct_update)

lemma distinct_registry: "distinct (map fst registry_build)"
  unfolding registry_build_def registry_for_module_def
  by (intro distinct_register distinct_foldl) (simp_all add: registry_empty_def)

lemma registered_codes_not_Nil: "h \<in> set registered_handlers \<Longrightarrow> h_command_codes h \<noteq> []"
  by (auto simp: registered_handlers_def thales_handlers_def handler_defs mk_handler_def not_available_codes_def)

lemma registry_values: "set (map snd registry_build) = set registered_handlers"
proof (intro equalityI subsetI)
  fix h assume "h \<in> set (map snd registry_build)"
  then obtain c where "registry_get registry_build c = Some h"
    unfolding registry_get_def using distinct_registry by (auto intro: map_of_is_SomeI)
  then show "h \<in> set registered_handlers" using registry_get_SomeD by blast
next
  fix h assume h: "h \<in> set registered_handlers"
  then obtain c where "c \<in> set (h_command_codes h)" using registered_codes_not_Nil [of h] by fastforce
  with h have "map_of registry_build c = Some h" using registry_get_declared by (simp add: registry_get_def)
  then show "h \<in> set (map snd registry_build)" by (force dest: map_of_SomeD)
qed

lemma first_code_inj: "inj_on (\<lambda>h. first (h_command_codes h)) (set registered_handlers)"
proof (rule inj_onI)
  fix h h' assume hs: "h \<in> set registered_handlers" "h' \<in> set registered_handlers"
    and eq: "first (h_command_codes h) = first (h_command_codes h')"
  then obtain c where "c \<in> set (h_command_codes h)" "c \<in> set (h_command_codes h')"
    using registered_codes_not_Nil [OF hs(1)] registered_codes_not_Nil [OF hs(2)]
    by (cases "h_command_codes h"; cases "h_command_codes h'") auto
  with hs registry_get_declared have "Some h = Some h'" by metis
  then show "h = h'" by simp
qed

lemma distinct_registered: "distinct registered_handlers"
proof -
  have "distinct hs" if "distinct (concat (map f hs))" and "\<forall>h \<in> set hs. f h \<noteq> []" for f :: "handler \<Rightarrow> bytes list" and hs
    using that
  proof (induction hs)
    case (Cons h hs)
    then show ?case by (cases "f h") auto
  qed simp
  then show ?thesis using distinct_codes registered_codes_not_Nil by blast
qed

lemma sublist_append_left: "sublist x b \<Longrightarrow> sublist x (a @ b)"
  by (meson sublist_append_leftI sublist_order.order.trans)

lemma sublist_append_right: "sublist x a \<Longrightarrow> sublist x (a @ b)"
  by (meson sublist_append_rightI sublist_order.order.trans)

lemma sublist_concat: "x \<in> set xs \<Longrightarrow> sublist x (concat xs)"
  by (induction xs) (auto intro: sublist_append_left)

lemma codes_line:
  "sublist (ascii ''`'' @ codes_text e @ ascii ''`'') (ungrounded_line e)"
  "sublist (ascii ''`'' @ codes_text e @ ascii ''`'') (grounded_section e)"
proof -
  have split: "ascii ''- `'' = ascii ''- '' @ ascii ''`''" "ascii ''## `'' = ascii ''## '' @ ascii ''`''"
    by (simp_all add: ascii_def)
  show "sublist (ascii ''`'' @ codes_text e @ ascii ''`'') (ungrounded_line e)"
    using sublist_appendI [of "ascii ''`'' @ codes_text e @ ascii ''`''" "ascii ''- ''" newline]
    by (simp add: ungrounded_line_def split)
  show "sublist (ascii ''`'' @ codes_text e @ ascii ''`'') (grounded_section e)"
    using sublist_appendI [of "ascii ''`'' @ codes_text e @ ascii ''`''" "ascii ''## ''"
        "newline @ newline @ concat (map evidence_lines (en_evidence e)) @ newline"]
    by (simp add: grounded_section_def split)
qed

lemma format_report_lists:
  assumes "e \<in> set entries"
  shows "sublist (ascii ''`'' @ codes_text e @ ascii ''`'') (format_report entries)"
proof (cases "en_evidence e = []")
  case True
  with assms have e: "e \<in> set (filter (\<lambda>e. en_evidence e = []) entries)" by simp
  then have "sublist (ungrounded_line e) (concat (map ungrounded_line (filter (\<lambda>e. en_evidence e = []) entries)))"
    by (intro sublist_concat) simp
  then have "sublist (ungrounded_line e) (format_report entries)"
    unfolding format_report_def Let_def
    using e by (intro sublist_append_left) (auto intro: sublist_append_left simp: filter_empty_conv)
  then show ?thesis by (rule sublist_order.order.trans [OF codes_line(1)])
next
  case False
  with assms have "e \<in> set (filter (\<lambda>e. en_evidence e \<noteq> []) entries)" by simp
  then have "sublist (grounded_section e) (concat (map grounded_section (filter (\<lambda>e. en_evidence e \<noteq> []) entries)))"
    by (intro sublist_concat) simp
  then have "sublist (grounded_section e) (format_report entries)"
    unfolding format_report_def Let_def by (intro sublist_append_left sublist_append_right)
  then show ?thesis by (rule sublist_order.order.trans [OF codes_line(2)])
qed

lemma format_report_coverage:
  assumes "\<forall>e \<in> set entries. en_evidence e \<noteq> []" and "length entries = n"
  shows "sublist (coverage_line n n 0) (format_report entries)"
proof -
  have "filter (\<lambda>e. en_evidence e \<noteq> []) entries = entries" "filter (\<lambda>e. en_evidence e = []) entries = []"
    using assms(1) by (simp_all add: filter_id_conv filter_empty_conv)
  then show ?thesis
    unfolding format_report_def Let_def using assms(2) by (simp add: sublist_append_left)
qed

section \<open>Evidence and behaviour\<close>

fun is_gated :: "proof_ref \<Rightarrow> bool" where
  "is_gated (Gated r) = True"
| "is_gated _ = False"

definition all_gated :: "handler \<Rightarrow> bool" where
  "all_gated h \<longleftrightarrow> list_all (\<lambda>ev. is_gated (ev_proof ev)) (h_grounding h)"

definition all_refused :: "handler \<Rightarrow> bool" where
  "all_refused h \<longleftrightarrow> (\<forall>c \<in> set (h_command_codes h). \<forall>st pl. h_handle h st c pl = Done (err (ascii ''68'')))"

lemma not_all_refused:
  "c \<in> set (h_command_codes h) \<Longrightarrow> h_handle h st c pl = Done r \<Longrightarrow> error_code r \<noteq> ascii ''68'' \<Longrightarrow> \<not> all_refused h"
  unfolding all_refused_def by (metis err_def handler_result.select_convs(1) io.inject(1))

lemmas grounding_defs = PinHandler_grounding_def PinChangeHandler_grounding_def DieboldPinHandler_grounding_def
  RandomPinHandler_grounding_def DukptPinVerifyHandler_grounding_def DukptPinVerifyAesHandler_grounding_def
  PinVerifyNonDukptHandler_grounding_def EncryptDecryptHandler_grounding_def InternationalEncryptHandler_grounding_def
  DukptMacHandler_grounding_def IssuerScriptMacHandler_grounding_def CapArqcHandler_grounding_def
  EmvDecryptHandler_grounding_def KqArqcHandler_grounding_def KwArqcHandler_grounding_def
  UnionPayArqcHandler_grounding_def HmacHandler_grounding_def MacHandler_grounding_def
  MacTranslateHandler_grounding_def LegacyMacHandler_grounding_def CvvHandler_grounding_def
  DynamicCvvHandler_grounding_def HeartbeatHandler_grounding_def NotAvailableHandler_grounding_def

definition translating_handlers :: "handler list" where
  "translating_handlers =
    [PinHandler, PinChangeHandler, DukptPinVerifyHandler, DukptPinVerifyAesHandler, PinVerifyNonDukptHandler,
     EncryptDecryptHandler, InternationalEncryptHandler, DukptMacHandler, IssuerScriptMacHandler, CapArqcHandler,
     EmvDecryptHandler, KqArqcHandler, KwArqcHandler, UnionPayArqcHandler, MacHandler, MacTranslateHandler,
     LegacyMacHandler, CvvHandler, HeartbeatHandler]"

lemma registered_grounded: "list_all (\<lambda>h. h_grounding h \<noteq> []) registered_handlers"
  by (simp add: registered_handlers_def thales_handlers_def handler_defs mk_handler_def grounding_defs)

lemma gated_handlers:
  "list_all all_gated [DieboldPinHandler, RandomPinHandler, HmacHandler, DynamicCvvHandler, NotAvailableHandler]"
  by (simp add: all_gated_def handler_defs mk_handler_def grounding_defs)

lemma refusing_handlers:
  "list_all all_refused [DieboldPinHandler, RandomPinHandler, HmacHandler, DynamicCvvHandler, NotAvailableHandler]"
  by (simp add: all_refused_def handler_defs mk_handler_def diebold_pin_handle_def random_pin_handle_def
      hmac_handle_def dynamic_cvv_handle_def not_available_handle_def unsupported_68)

lemma live_handlers:
  "list_all (\<lambda>h. \<not> all_gated h) translating_handlers"
  by (simp add: translating_handlers_def all_gated_def handler_defs mk_handler_def grounding_defs)

lemma empty_reads:
  "run_parser (pbind fr_byte f1) [] = Err MalformedPayload"
  "0 < n \<Longrightarrow> run_parser (pbind (fr_take n) f2) [] = Err MalformedPayload"
  "0 < n \<Longrightarrow> run_parser (pbind (fr_take_lossy n) f3) [] = Err MalformedPayload"
  "run_parser (pbind (fr_expect_byte b) f4) [] = Err MalformedPayload"
  "run_parser (pbind (fr_parse_with parse_legacy_key) f5) [] = Err MalformedPayload"
  "run_parser (pbind (fr_parse_with parse_bdk) f6) [] = Err MalformedPayload"
  "run_parser (pbind (fr_parse_with parse_key_32) f7) [] = Err MalformedPayload"
  "parse_legacy_key [] 0 = Err MalformedPayload" "parse_bdk [] 0 = Err MalformedPayload" "parse_key_32 [] 0 = Err MalformedPayload"
  by (simp_all add: run_parser_def pbind_def fr_byte_def fr_take_def fr_take_lossy_def fr_expect_byte_def fr_new_def
      fr_parse_with_def parse_legacy_key_def parse_bdk_def parse_key_32_def)

lemma lossy_JU: "from_utf8_lossy (ascii ''JU'') = ascii ''JU''"
  by (rule is_ascii_lossy_id) (simp add: is_ascii_def ascii_def)

lemma empty_payload:
  "h_handle PinHandler st (ascii ''CA'') [] = Done (err (ascii ''15''))"
  "h_handle PinChangeHandler st (ascii ''DU'') [] = Done (err (ascii ''15''))"
  "h_handle DukptPinVerifyHandler st (ascii ''CK'') [] = Done (err (ascii ''15''))"
  "h_handle DukptPinVerifyAesHandler st (ascii ''GO'') [] = Done (err (ascii ''15''))"
  "h_handle PinVerifyNonDukptHandler st (ascii ''DA'') [] = Done (err (ascii ''15''))"
  "h_handle EncryptDecryptHandler st (ascii ''HE'') [] = Done (err (ascii ''15''))"
  "h_handle InternationalEncryptHandler st (ascii ''M0'') [] = Done (err (ascii ''15''))"
  "h_handle DukptMacHandler st (ascii ''GW'') [] = Done (err (ascii ''15''))"
  "h_handle IssuerScriptMacHandler st (ascii ''JU'') [] = Done (err (ascii ''15''))"
  "h_handle CapArqcHandler st (ascii ''K2'') [] = Done (err (ascii ''15''))"
  "h_handle EmvDecryptHandler st (ascii ''K0'') [] = Done (err (ascii ''15''))"
  "h_handle KqArqcHandler st (ascii ''KQ'') [] = Done (err (ascii ''15''))"
  "h_handle KwArqcHandler st (ascii ''KW'') [] = Done (err (ascii ''15''))"
  "h_handle UnionPayArqcHandler st (ascii ''JS'') [] = Done (err (ascii ''15''))"
  "h_handle MacHandler st (ascii ''M6'') [] = Done (err (ascii ''15''))"
  "h_handle MacTranslateHandler st (ascii ''MY'') [] = Done (err (ascii ''15''))"
  "h_handle LegacyMacHandler st (ascii ''MA'') [] = Done (err (ascii ''15''))"
  "h_handle CvvHandler st (ascii ''CW'') [] = Done (err (ascii ''15''))"
  "h_handle HeartbeatHandler st (ascii ''B2'') [] = Done (success [])"
  by (simp_all add: handler_defs mk_handler_def from_proxy_error_def ascii_inj empty_reads lossy_JU
      pin_handle_def translate_pin_def parse_translate_def parse_translate_fields_def
      pin_change_handle_def handle_du_def parse_du_def parse_du_fields_def
      dukpt_pin_verify_handle_def handle_ck_def dukpt_pin_verify_aes_handle_def handle_go_def parse_go_def parse_mode_def
      pin_verify_non_dukpt_handle_def handle_ibm_def parse_ibm_def parse_ibm_fields_def
      encrypt_decrypt_handle_def handle_he_def parse_key_and_data_def
      international_encrypt_handle_def handle_m0_def parse_m0_fields_def parse_m0_parser_def
      gw_handle_def parse_gw_def parse_gw_fields_def
      issuer_script_mac_handle_def parse_ju_def parse_ju_fields_def
      cap_handle_def handle_cap_def parse_cap_def parse_cap_fields_def k0_handle_def handle_k0_def parse_k0_def parse_k0_fields_def
      kq_handle_def handle_kq_def parse_kq_def parse_kq_fields_def kw_handle_def handle_kw_def parse_kw_def parse_kw_fields_def
      js_handle_def handle_js_def parse_js_def parse_js_fields_def
      mac_handle_def parse_m6_payload_def parse_m6_fields_def my_handle_def parse_my_def parse_my_fields_def
      legacy_mac_handle_def handle_ma_def cvv_handle_def handle_cw_def parse_cw_def heartbeat_handle_def)

lemma live_not_refused:
  "list_all (\<lambda>h. \<not> all_refused h) translating_handlers"
  unfolding translating_handlers_def list.pred_inject
  by (intro conjI TrueI empty_payload [THEN not_all_refused [rotated]])
    (simp_all add: handler_defs mk_handler_def err_def success_def ascii_inj)

lemma gated_iff_refused_all: "list_all (\<lambda>h. all_gated h \<longleftrightarrow> all_refused h) registered_handlers"
  using gated_handlers refusing_handlers live_handlers live_not_refused
  by (simp add: registered_handlers_def thales_handlers_def translating_handlers_def)

section \<open>Properties\<close>

text \<open>
  C40: the grounding report is deterministic and leaves nothing out. In whatever order the hash table
  of the proxy yields its handlers, the report is the one of the reference list, one entry per
  registered handler in the order of the first command codes; it counts all 24 handlers as grounded,
  and the command codes of every registered handler appear in it.
\<close>

theorem grounding_report_reference:
  assumes "mset hs = mset (map snd registry_build)" and "h \<in> set registered_handlers"
  shows "grounding_report hs =
      format_report (sort_key (\<lambda>e. first (en_codes e)) (map handler_entry registered_handlers))
    \<and> sublist (coverage_line 24 24 0) (grounding_report hs)
    \<and> sublist (ascii ''`'' @ codes_text (handler_entry h) @ ascii ''`'') (grounding_report hs)"
proof -
  have hs: "set hs = set registered_handlers" using assms(1) registry_values by (metis set_mset_mset)
  have keys: "distinct (map (\<lambda>e. first (en_codes e)) (map handler_entry registered_handlers))"
    using distinct_registered first_code_inj by (simp add: comp_def handler_entry_def distinct_map)
  have "set (collect_entries {} hs) = set (map handler_entry registered_handlers)"
    using collect_entries_set [of hs "{}"] first_code_inj registered_codes_not_Nil by (simp add: hs)
  then have eq: "grounding_entries hs = sort_key (\<lambda>e. first (en_codes e)) (map handler_entry registered_handlers)"
    unfolding grounding_entries_def
    by (rule sort_key_set_eq [OF collect_entries_distinct [THEN conjunct1] keys])
  have "handler_entry h \<in> set (grounding_entries hs)" using assms(2) by (simp add: eq)
  moreover have "sublist (coverage_line 24 24 0) (format_report (grounding_entries hs))"
    by (rule format_report_coverage) (use registered_grounded in \<open>simp_all add: eq handler_entry_def list_all_iff\<close>,
        simp add: registered_handlers_def thales_handlers_def)
  ultimately show ?thesis using format_report_lists eq by (simp add: grounding_report_def)
qed

theorem grounding_report_reference_witness:
  "grounding_report (rev (map snd registry_build)) =
     format_report (sort_key (\<lambda>e. first (en_codes e)) (map handler_entry registered_handlers))
   \<and> sublist (coverage_line 24 24 0) (grounding_report (rev (map snd registry_build)))
   \<and> sublist (ascii ''`'' @ ascii ''B2'' @ ascii ''`'') (grounding_report (rev (map snd registry_build)))"
proof -
  have h: "HeartbeatHandler \<in> set registered_handlers" by (simp add: registered_handlers_def thales_handlers_def)
  have "codes_text (handler_entry HeartbeatHandler) = ascii ''B2''"
    by (simp add: codes_text_def handler_entry_def HeartbeatHandler_def mk_handler_def)
  moreover have "mset (rev (map snd registry_build)) = mset (map snd registry_build)" by simp
  note grounding_report_reference [OF this h]
  ultimately show ?thesis by metis
qed

text \<open>
  C39: the evidence agrees with the code. Every registered handler carries evidence, and what it claims
  about support is what the handler does: all its evidence is of the gated kind exactly when the
  handler refuses every one of its commands with \<open>68\<close>, whatever the payload and the key map.
\<close>

theorem evidence_matches_behaviour:
  assumes "registry_get registry_build code = Some h"
  shows "h_grounding h \<noteq> []
    \<and> (\<forall>ev \<in> set (h_grounding h). is_gated (ev_proof ev)) =
        (\<forall>c \<in> set (h_command_codes h). \<forall>st pl. h_handle h st c pl = Done (err (ascii ''68'')))"
proof -
  have h: "h \<in> set registered_handlers" using registry_get_SomeD [OF assms] by simp
  with gated_iff_refused_all have "all_gated h \<longleftrightarrow> all_refused h" by (simp add: list_all_iff)
  moreover from h registered_grounded have "h_grounding h \<noteq> []" by (simp add: list_all_iff)
  ultimately show ?thesis by (simp add: all_gated_def all_refused_def list_all_iff)
qed

theorem evidence_matches_behaviour_witness:
  "h_grounding HeartbeatHandler \<noteq> [] \<and> \<not> list_all (\<lambda>ev. is_gated (ev_proof ev)) (h_grounding HeartbeatHandler)"
proof -
  have get: "registry_get registry_build (ascii ''B2'') = Some HeartbeatHandler"
    by (rule registry_get_declared)
      (simp_all add: registered_handlers_def thales_handlers_def HeartbeatHandler_def mk_handler_def)
  have "h_handle HeartbeatHandler st (ascii ''B2'') [] \<noteq> Done (err (ascii ''68''))" for st
    by (simp add: empty_payload err_def success_def ascii_inj)
  moreover have "ascii ''B2'' \<in> set (h_command_codes HeartbeatHandler)"
    by (simp add: HeartbeatHandler_def mk_handler_def)
  ultimately show ?thesis using evidence_matches_behaviour [OF get] unfolding list_all_iff by blast
qed

end
