(* ===== verification/Spec2Isabelle.thy ===== *)
theory Spec2Isabelle
  imports Command_Line Verdicts Concurrency Accept_Loop Pin_Requests Emv_Requests Grounding
begin

text \<open>
  A verification of the payShield proxy in front of AWS Payment Cryptography (APC). The program
  listens for host commands of a Thales payShield 10K, turns each into requests to APC, and
  answers in the vendor's framing; commands it has no handler for are refused or, in discovery
  mode, logged and forwarded to a real HSM.

  \<^bold>\<open>The program.\<close> \<open>main.rs\<close> reads the configuration and either verifies it (\<open>verify.rs\<close>) or
  starts the server (\<open>server.rs\<close>). The server scans the key inventory (\<open>key_map.rs\<close>), builds the
  table of handlers (\<open>handlers/mod.rs\<close>, \<open>handlers/thales/mod.rs\<close>), picks the forward leg
  (\<open>forward.rs\<close>, \<open>hsm_client.rs\<close>) and accepts connections, one task each. A task collects bytes,
  cuts off frames (\<open>protocol/thales.rs\<close>), looks up the handler, lets it read its fields
  (\<open>reader.rs\<close>, \<open>common.rs\<close>), resolve its keys and call the service, and writes the response.

  \<^bold>\<open>The theories\<close>, in the order they build on each other, with the files under \<open>src/src/\<close>:

  \<^item> Prelude: bytes, the outcomes \<open>Ok\<close>, \<open>Err\<close> and \<open>Panic\<close>, slicing and indexing that panic out of
    range, shared list lemmas and the collections of simplification rules.
  \<^item> Rust\_Std: the used parts of the standard library: UTF-8, integer parsing, hex, trimming.
  \<^item> Proxy\_Error: \<open>error.rs\<close> and the result of a command.
  \<^item> Wire\_Protocol: \<open>protocol/\<close>. Frames are recognised exactly, responses round-trip below the
    16-bit limit and are truncated above it. Locale \<open>framing\<close>: what a connection needs of a parser.
  \<^item> Key\_Map: \<open>key_map.rs\<close>. Resolution by identifier, check value and label; the paginated scan and
    which of several keys with one check value is indexed. Locale \<open>key_resolver\<close>.
  \<^item> Apc: the boundary to the service: requests, answers, and handlers as trees of requests, with
    three judgements on trees: what every run ends in, what precedes a request, and how a result
    depends on the answers.
  \<^item> Field\_Reader: \<open>handlers/thales/reader.rs\<close>, with the judgements \<open>psat\<close> (stays in bounds) and
    \<open>reads\<close> (consumes exactly this text) that carry the parser proofs, and what each operation reads.
  \<^item> Key\_Fields, Key\_Blocks: \<open>handlers/thales/common.rs\<close>: key fields, TR-31 blocks with their optional
    blocks, EMV helpers; the forms a key field can have on the wire, and the way of a block on the wire
    to a key of the inventory. Locale \<open>key_parser\<close>: what the three key-field parsers have in common.
  \<^item> Pin\_Handlers, Mac\_Handlers, Emv\_Handlers, Card\_Data\_Handlers: the command handlers of
    \<open>handlers/thales/\<close>, whole: field layouts, guards, key resolution, requests, error paths.
  \<^item> Wire\_Requests, Mac\_Requests: payloads on the wire against the requests they become, for PIN
    translation, card verification values, data encryption, message authentication codes (M6, M8, DUKPT
    and legacy) and issuer scripts; what the proxy generates or encrypts, it verifies or decrypts again.
  \<^item> Evidence: the types of \<open>handlers/grounding.rs\<close> and the evidence each \<open>grounding()\<close> method returns.
  \<^item> Registry: the handler list, \<open>handlers/noop.rs\<close>, \<open>heartbeat.rs\<close>, \<open>vendor.rs\<close> and the dispatch
    table. Locale \<open>command_table\<close>.
  \<^item> Pin\_Requests, Emv\_Requests: the PIN verification commands and the cryptogram commands. The forms of
    their payloads are inductive relations (\<open>pin_form\<close>, \<open>arqc_form\<close>), one rule per command, which give
    the question each form stands for; the registered handler asks exactly that question.
  \<^item> Key\_Provenance: the judgement \<open>yields\<close> (what a parser hands out of its buffer) and, per command, that the
    key descriptors of its fields were read from the payload.
  \<^item> Discipline: what all registered handlers have in common: only keys that a key field of the payload
    resolves to reach the service, and a success is never reported over a refusal.
  \<^item> Verdicts: the commands that report a verdict. The list is exact (no other command asks for a
    verification or answers \<open>01\<close>), and \<open>00\<close> from one of them stands for an accepted verification or, for the MACs the
    proxy compares itself, for equal leading digits.
  \<^item> Grounding: \<open>handlers/grounding.rs\<close>, the generated report, and the evidence held against what the
    handlers do: exactly the handlers labelled as not available refuse every payload.
  \<^item> Forward: \<open>hsm_client.rs\<close>, \<open>forward.rs\<close>, and the configuration of the leg. Locale \<open>sound_leg\<close>.
  \<^item> Hsm\_Probe: \<open>hsm_probe.rs\<close>.
  \<^item> Server: \<open>server.rs\<close>: start-up, discovery log and the connection loop. The loop refines an abstract
    server that answers whole commands (\<open>serve_commands\<close>). Locale \<open>stream_codec\<close> extends \<open>framing\<close> with
    the wire form of a command.
  \<^item> Accept\_Loop: the accept loop of \<open>server.rs\<close> as a timed step relation over permits and tasks: connections
    never exceed the limit, and clients that stall in the handshake (or, with an idle timeout, in a
    read) lose their permits when the timers run out; without an idle timeout they may hold them for ever.
  \<^item> Concurrency: the connection tasks as a small-step system under arbitrary schedules. Alone, a
    task computes what the loop of Server computes; together, tasks do not interfere, and every command
    begun gets a request span with an id of its own.
  \<^item> Verify: \<open>verify.rs\<close>, the whole pass with its report and what it prints.
  \<^item> Command\_Line: \<open>main.rs\<close> and \<open>ProxyConfig::from_yaml\<close>.

  This theory holds the statements that span components: no connection panics, every registered
  command is answered, a PIN translation followed from the socket to the service and back, a wrapped key
  followed from the inventory of the account to the request of a started proxy, and a command without
  a handler followed from the client's socket to the HSM and back.

  \<^bold>\<open>Locales and their instances.\<close> \<open>framing\<close> and \<open>stream_codec\<close> are interpreted on the payShield
  parser and its frames (\<open>thales\<close>, \<open>thales_stream\<close>), \<open>key_resolver\<close> on both resolution
  functions (\<open>by_id\<close>, \<open>by_descriptor\<close>), \<open>command_table\<close> on the association list of the registry
  (\<open>alist_table\<close>), \<open>sound_leg\<close> on all three legs (\<open>client_leg\<close>, \<open>endpoint_leg\<close>, \<open>no_leg\<close>),
  \<open>key_parser\<close> on the three key-field parsers (\<open>legacy_key\<close>, \<open>bdk\<close>, \<open>key_32\<close>). The lemmas of
  the connection loop are proved inside the locales and hold for any vendor framing that
  keeps the laws.

  \<^bold>\<open>Parameters.\<close> Code outside the repository is an argument of the definitions: the APC data plane
  (a state transformer answering requests), its control plane (\<open>ListKeys\<close>, \<open>GetKey\<close>), whether an
  SDK builder accepts a structure, TLS and PEM loading, the sockets (scripts of read events and the
  outcome of each write), the file system, \<open>serde_yaml\<close>, the clock. Two statements assume
  \<open>documented_answer\<close>: MACs come back as text, and a CMAC has at least sixteen characters. The
  statement on M6 and M8 takes the documented length of an ISO 9797 MAC too, eight characters.

  \<^bold>\<open>Bounds and termination.\<close> Reads deliver at most 4096 bytes, inbound and HSM buffers are capped
  at 256 KiB, 1024 connections hold permits, a handshake lasts ten seconds at most, request ids are 64-bit words, frame lengths 16-bit
  words. Two loops are partial functions: the pagination of the scan, proved to return on every
  finite inventory, and the command loop over a buffer, proved to return for every framing whose
  frames are not empty. Everything else is total; no fuel is used.

  \<^bold>\<open>Not modelled.\<close> Log output and the texts inside errors and report lines (the printed report takes
  the text of a line as an argument), and argument parsing by \<open>clap\<close>. Builds without the \<open>thales\<close>
  feature. The tests.

  The statements from payload to request cover every command that verifies a PIN, a cryptogram or a card
  value and the main generating ones; the other commands (C2 and C4, HE and HG, PIN change, the remaining
  legacy codes) are covered by the statements of Discipline and of their own theories.
\<close>

section \<open>Properties of the whole proxy\<close>

text \<open>
  C3: a proxy started by the built-in \<open>run\<close> never loses a connection to a panic: if the
  service answers MAC requests as documented, no stream of bytes, no forward-leg outcome and
  no configuration makes a connection task panic.
\<close>

theorem connection_never_panics:
  assumes "server_run env w cfg = Some (Ok (ctx, sh, acceptor))"
    and "\<And>v rq. documented_answer rq (snd (en_service env (pc_aws cfg) v rq))"
    and "handle_connection ctx sh evs = Some (c, e)"
  shows "e \<noteq> ConnPanic"
proof -
  note run = server_run_OkD [OF assms(1)]
  have "p_parse (cx_protocol ctx) = thales_parse" by (simp add: run(2))
  moreover have "snd (respond ctx s buf cmd) = None \<or> (\<exists>out. snd (respond ctx s buf cmd) = Some (Ok out))"
    if "frame_len cmd \<le> length buf" for s buf cmd
    by (rule sound_leg.respond_answers [OF select_forward_sound run(3,2,4) _ that])
      (simp add: run(6) assms(2))
  ultimately show ?thesis
    using assms(3) unfolding handle_connection_def by (rule thales.conn_loop_no_panic)
qed

theorem connection_never_panics_witness:
  "\<exists>ctx sh c e. server_run demo_env () demo_cfg = Some (Ok (ctx, sh, None))
    \<and> handle_connection ctx sh [ReadBytes [0, 4, 1, 2, 0x42, 0x34], ReadErr] = Some (c, e) \<and> e \<noteq> ConnPanic"
proof -
  obtain ctx sh where run: "server_run demo_env () demo_cfg = Some (Ok (ctx, sh, None))"
    using demo_run by blast
  let ?evs = "[ReadBytes [0, 4, 1, 2, 0x42, 0x34], ReadErr]"
  have "p_parse (cx_protocol ctx) = thales_parse" using server_run_OkD(2) [OF run] by simp
  from thales.conn_loop_ends [OF this, of ?evs "\<lparr> cn_shared = sh, cn_buf = [], cn_out = [] \<rparr>"]
  obtain c e where conn: "handle_connection ctx sh ?evs = Some (c, e)"
    by (auto simp: handle_connection_def READ_BUF_def)
  have "documented_answer rq (snd (en_service demo_env (pc_aws demo_cfg) v rq))" for v rq
    by (simp add: demo_env_def documented_answer_def)
  from connection_never_panics [OF run this conn] run conn show ?thesis by blast
qed

text \<open>
  C5: a command a handler is registered for gets a response the client can match to it, provided the
  service answers as documented (\<open>documented_answer\<close>: the MACs it returns are text, and a CMAC has at least 16
  digits). Whatever the payload of the command, the handler then returns a result and the proxy answers with one
  frame; and if the payload of that result is shorter than 65530 bytes, so that the 16-bit length
  does not wrap, the frame carries the header of the request, the command code with its second
  character advanced by one, and the error code and payload of the result.
\<close>

theorem registered_command_answered:
  assumes "cx_registry ctx = registry_build" and "cx_protocol ctx = ThalesPayShield"
    and "registry_get registry_build (command_code cmd) = Some h"
    and "\<And>v rq. documented_answer rq (snd (cx_service ctx v rq))"
  shows "\<exists>r out. snd (run (cx_service ctx) (h_handle h (cx_state ctx) (command_code cmd) (cmd_payload cmd)) (sh_world sh))
      = Some r \<and> snd (respond ctx sh buf cmd) = Some (Ok out) \<and>
    (length (payload r) < 65530 \<longrightarrow>
      thales_parse out = Ok (Some \<lparr> header = header cmd, command_code = thales_response_code (command_code cmd),
        cmd_payload = error_code r @ payload r, frame_len = length out \<rparr>))"
proof -
  have "io_ok documented_answer (h_handle h (cx_state ctx) (command_code cmd) (cmd_payload cmd)) well_formed_result"
    using registry_get_SomeD [OF assms(3)] registered_handlers_ok by blast
  from io_ok_run [OF this, of "cx_service ctx" "sh_world sh", OF assms(4)] obtain r
    where r: "snd (run (cx_service ctx) (h_handle h (cx_state ctx) (command_code cmd) (cmd_payload cmd)) (sh_world sh)) = Some r"
      and wf: "length (error_code r) = 2" by (auto simp: well_formed_result_def)
  define out where "out = thales_frame_response (header cmd) (thales_response_code (command_code cmd)) (error_code r) (payload r)"
  have "snd (respond ctx sh buf cmd) = Some (Ok out)"
    using r assms(1-3) by (auto simp: respond_def Let_def out_def ThalesPayShield_def split: prod.splits option.splits)
  moreover have "thales_parse out = Ok (Some \<lparr> header = header cmd, command_code = thales_response_code (command_code cmd),
      cmd_payload = error_code r @ payload r, frame_len = length out \<rparr>)" if "length (payload r) < 65530"
    using response_round_trip [OF length_response_code, where rest = "[]"] wf that by (simp add: out_def)
  ultimately show ?thesis using r by blast
qed

theorem registered_command_answered_witness:
  "\<exists>out. snd (respond echo_ctx \<lparr> sh_world = (), sh_request_seq = 0, sh_log = None \<rparr> (request_frame heartbeat) heartbeat)
       = Some (Ok out) \<and>
     thales_parse out = Ok (Some \<lparr> header = (1, 2), command_code = ascii ''B3'', cmd_payload = ascii ''00'', frame_len = length out \<rparr>)"
proof -
  let ?sh = "\<lparr> sh_world = (), sh_request_seq = 0, sh_log = None \<rparr>" and ?buf = "request_frame heartbeat"
  have "\<exists>r out. snd (run (cx_service echo_ctx) (h_handle HeartbeatHandler (cx_state echo_ctx) (command_code heartbeat)
        (cmd_payload heartbeat)) (sh_world ?sh)) = Some r \<and> snd (respond echo_ctx ?sh ?buf heartbeat) = Some (Ok out) \<and>
      (length (payload r) < 65530 \<longrightarrow>
        thales_parse out = Ok (Some \<lparr> header = header heartbeat, command_code = thales_response_code (command_code heartbeat),
          cmd_payload = error_code r @ payload r, frame_len = length out \<rparr>))"
    by (rule registered_command_answered)
      (simp_all add: echo_ctx_def heartbeat_def registry_get_B2 documented_answer_def)
  then obtain out where "snd (respond echo_ctx ?sh ?buf heartbeat) = Some (Ok out)"
      "thales_parse out = Ok (Some \<lparr> header = header heartbeat, command_code = thales_response_code (command_code heartbeat),
          cmd_payload = ascii ''00'', frame_len = length out \<rparr>)"
    by (auto simp: HeartbeatHandler_def mk_handler_def heartbeat_handle_def)
  moreover have "thales_response_code (command_code heartbeat) = ascii ''B3''"
    by (simp add: heartbeat_def thales_response_code_def get_def ascii_def)
  ultimately show ?thesis by (auto simp: heartbeat_def)
qed

lemma connection_single_frame:
  assumes "cx_protocol ctx = ThalesPayShield" and "well_formed_command cmd"
    and "\<forall>ch \<in> set chunks. ch \<noteq> [] \<and> length ch \<le> READ_BUF" and "concat chunks = request_frame cmd"
    and "respond ctx sh (request_frame cmd) cmd = (sh', Some (Ok out))" and "cx_write ctx (sh_world sh') out = (v, True)"
  shows "handle_connection ctx sh (map ReadBytes chunks) =
    Some (\<lparr> cn_shared = sh'\<lparr> sh_world := v \<rparr>, cn_buf = [], cn_out = [out] \<rparr>, Waiting)"
proof -
  have "serve_commands request_frame ctx sh [cmd] = (sh'\<lparr> sh_world := v \<rparr>, [out], None)"
    using assms(5,6) by simp
  with thales_stream.conn_loop_frames [of ctx "[]" "[cmd]" chunks "\<lparr> cn_shared = sh, cn_buf = [], cn_out = [] \<rparr>"
      "sh'\<lparr> sh_world := v \<rparr>" "[out]" None "[]"] assms(1-4)
  show ?thesis
    by (simp add: handle_connection_def thales_parse_short READ_BUF_def MAX_INBOUND_ACCUMULATION_def)
qed

lemma registry_get_CA: "registry_get registry_build (ascii ''CA'') = Some PinHandler"
  by (rule registry_get_declared)
    (simp_all add: registered_handlers_def thales_handlers_def PinHandler_def mk_handler_def)

text \<open>
  C2: a PIN translation from the socket to the service and back. A client sends a CA frame, cut into
  reads in any way; the connection asks the service once, for the translation of the PIN block of the
  payload between the keys the two key fields resolve to, in the formats the payload names, and
  writes one response: the header of the request, \<open>CB\<close>, and either \<open>00\<close> with the block the service
  returned or \<open>41\<close> when the service failed. Nothing is left in the buffer. The two key fields stand at the
  start of the payload and take any form \<open>parse_legacy_key\<close> reads, key blocks included; the documentation's
  fixed-width fields at offsets 2 and 34 without blocks are not what the code reads.
\<close>

theorem pin_translation_end_to_end:
  assumes "cx_registry ctx = registry_build" and "cx_protocol ctx = ThalesPayShield"
    and "key_field src sd" and "key_field dst dd" and "hd dst \<notin> {0x2A, 0x7E}"
    and "length maxlen = 2" and "length pb = 16" and "length acct = 12" and "is_ascii (pb @ acct)"
    and "map_translate_format sc = Ok sf" and "map_translate_format dc = Ok df"
    and "resolve_descriptor (st_key_map (cx_state ctx)) sd = Ok a"
    and "resolve_descriptor (st_key_map (cx_state ctx)) dd = Ok b"
    and "\<And>f. f \<in> {sf, df} \<Longrightarrow> f \<noteq> F1 \<Longrightarrow> build_ok (cx_state ctx) (STranslation (translation_of f acct))"
    and "cmd = \<lparr> header = h, command_code = ascii ''CA'',
        cmd_payload = src @ dst @ maxlen @ pb @ sc @ dc @ acct @ rest, frame_len = n \<rparr>"
    and "well_formed_command cmd" and "concat chunks = request_frame cmd"
    and "\<forall>ch \<in> set chunks. ch \<noteq> [] \<and> length ch \<le> READ_BUF"
    and "cx_service ctx (sh_world sh) (TranslatePinData a b pb (translation_of sf acct) (translation_of df acct)) = (w, res)"
    and "out = thales_frame_response h (ascii ''CB'')
        (case res of ApcOk _ \<Rightarrow> ascii ''00'' | _ \<Rightarrow> ascii ''41'')
        (case res of ApcOk resp \<Rightarrow> r_pin_block resp | _ \<Rightarrow> [])"
    and "cx_write ctx w out = (v, True)"
  shows "handle_connection ctx sh (map ReadBytes chunks) =
    Some (\<lparr> cn_shared = sh\<lparr> sh_world := v, sh_request_seq := sh_request_seq sh + 1 \<rparr>, cn_buf = [], cn_out = [out] \<rparr>, Waiting)"
proof -
  define sh' where "sh' = sh\<lparr> sh_world := w, sh_request_seq := sh_request_seq sh + 1 \<rparr>"
  have call: "pin_handle (cx_state ctx) (ascii ''CA'') (cmd_payload cmd) =
      Call (TranslatePinData a b pb (translation_of sf acct) (translation_of df acct))
        (on_ok (\<lambda>resp. Done (success (r_pin_block resp))))"
    using pin_translate_call [OF _ assms(3,4,6,7,8,10,11,9,12-14), of "ascii ''CA''" rest] assms(5,15) by simp
  have code: "thales_response_code (ascii ''CA'') = ascii ''CB''"
    by (simp add: thales_response_code_def get_def ascii_def)
  have "respond ctx sh (request_frame cmd) cmd = (sh', Some (Ok out))"
    using call assms(1,2,15,19) registry_get_CA
    by (cases res) (simp_all add: respond_def Let_def PinHandler_def mk_handler_def ThalesPayShield_def code sh'_def
        assms(20) success_def from_proxy_error_def err_def)
  from connection_single_frame [OF assms(2,16,18,17) this, of v] assms(21) show ?thesis by (simp add: sh'_def)
qed

definition demo_ca :: parsed_command where
  "demo_ca = \<lparr> header = (1, 2), command_code = ascii ''CA'',
     cmd_payload = demo_enc @ demo_pvk @ ascii ''12'' @ ascii ''0123456789ABCDEF'' @ ascii ''01'' @ ascii ''47''
       @ ascii ''123456789012'' @ [], frame_len = 106 \<rparr>"

definition demo_ctx :: "nat conn_ctx" where
  "demo_ctx =
     \<lparr> cx_state = demo_state, cx_service = (\<lambda>w rq. (Suc w, ApcOk (demo_output\<lparr> r_pin_block := ascii ''FEDCBA9876543210'' \<rparr>))),
       cx_registry = registry_build, cx_protocol = ThalesPayShield, cx_discover = None, cx_forward = no_forward_leg,
       cx_idle_timeout = None, cx_clock = (\<lambda>_. 0), cx_write = (\<lambda>w _. (w, True)) \<rparr>"

lemma demo_ca_frame: "length (request_frame demo_ca) = 106" "well_formed_command demo_ca"
  by (simp_all add: request_frame_def well_formed_command_def demo_ca_def demo_enc_def demo_pvk_def u16_to_be_bytes_def)

theorem pin_translation_end_to_end_witness:
  "handle_connection demo_ctx \<lparr> sh_world = 7, sh_request_seq = 3, sh_log = None \<rparr>
      (map ReadBytes [take 1 (request_frame demo_ca), drop 1 (request_frame demo_ca)]) =
    Some (\<lparr> cn_shared = \<lparr> sh_world = 8, sh_request_seq = 4, sh_log = None \<rparr>, cn_buf = [],
            cn_out = [thales_frame_response (1, 2) (ascii ''CB'') (ascii ''00'') (ascii ''FEDCBA9876543210'')] \<rparr>, Waiting)"
proof -
  let ?sh = "\<lparr> sh_world = 7, sh_request_seq = 3, sh_log = None \<rparr> :: nat shared"
  let ?res = "ApcOk (demo_output\<lparr> r_pin_block := ascii ''FEDCBA9876543210'' \<rparr>)"
  have "handle_connection demo_ctx ?sh (map ReadBytes [take 1 (request_frame demo_ca), drop 1 (request_frame demo_ca)]) =
    Some (\<lparr> cn_shared = ?sh\<lparr> sh_world := 8, sh_request_seq := sh_request_seq ?sh + 1 \<rparr>, cn_buf = [],
      cn_out = [thales_frame_response (1, 2) (ascii ''CB'') (case ?res of ApcOk _ \<Rightarrow> ascii ''00'' | _ \<Rightarrow> ascii ''41'')
        (case ?res of ApcOk resp \<Rightarrow> r_pin_block resp | _ \<Rightarrow> [])] \<rparr>, Waiting)"
  proof (rule pin_translation_end_to_end [OF _ _ key_field_legacy [OF demo_keys(1,3)] key_field_legacy [OF demo_keys(2,4)]
        _ _ _ _ _ _ _ _ _ _ demo_ca_def demo_ca_frame(2) _ _ _ refl])
    show "resolve_descriptor (st_key_map (cx_state demo_ctx)) (label demo_enc) = Ok (ascii ''arn:e'')"
      "resolve_descriptor (st_key_map (cx_state demo_ctx)) (label demo_pvk) = Ok (ascii ''arn:p'')"
      by (simp_all add: demo_ctx_def demo_resolve)
    show "map_translate_format (ascii ''01'') = Ok F0" "map_translate_format (ascii ''47'') = Ok F3"
      by (simp_all add: map_translate_format_def ascii_inj)
    show "\<forall>ch \<in> set [take 1 (request_frame demo_ca), drop 1 (request_frame demo_ca)]. ch \<noteq> [] \<and> length ch \<le> READ_BUF"
      using demo_ca_frame(1) by (auto simp: READ_BUF_def)
  qed (simp_all add: demo_ctx_def demo_state_def demo_pvk_def, simp_all add: is_ascii_def ascii_def)
  then show ?thesis by simp
qed

text \<open>
  C7: a freshly started proxy serves wrapped keys out of the inventory of the account, with no entry in
  \<open>key_mappings\<close>. If the account lists the enabled keys \<open>x\<close> and \<open>y\<close>, a translation command whose key
  fields are key blocks with the usage, algorithm and check value of these keys becomes one
  request to the service; its keys are keys of the account, enabled and with the same usage,
  algorithm and check value, and the client gets the translated block. (The documentation lists CA and CC
  among the commands that accept no key block; the code reads their key fields with \<open>parse_legacy_key\<close>, which does.)
\<close>

theorem inventory_translation:
  assumes "server_run env w cfg = Some (Ok (ctx, sh, acceptor))"
    and "serves (en_control env (pc_aws cfg)) w None sums w'"
    and "x \<in> set sums" and "block_names_key src x" and "y \<in> set sums" and "block_names_key dst y"
    and "code = ascii ''CA'' \<or> code = ascii ''CC''"
    and "length maxlen = 2" and "length pb = 16" and "length acct = 12" and "is_ascii (pb @ acct)"
    and "map_translate_format sc = Ok sf" and "map_translate_format dc = Ok df"
    and "\<And>f. f \<in> {sf, df} \<Longrightarrow> f \<noteq> F1 \<Longrightarrow> en_build_ok env (STranslation (translation_of f acct))"
  shows "\<exists>x' y'. x' \<in> set sums \<and> interchangeable x x' \<and> y' \<in> set sums \<and> interchangeable y y'
    \<and> pin_handle (cx_state ctx) code
        (key_block_field src @ key_block_field dst @ maxlen @ pb @ sc @ dc @ acct @ rest) =
      Call (TranslatePinData (ks_key_arn x') (ks_key_arn y') pb (translation_of sf acct) (translation_of df acct))
        (on_ok (\<lambda>resp. Done (success (r_pin_block resp))))"
proof -
  let ?m = "key_map_new (map_of (pc_key_mappings cfg))"
  have scan: "scan_apc (en_control env (pc_aws cfg)) w ?m = Some (w', Ok (st_key_map (cx_state ctx)))"
    using scan_apc_serves [OF assms(2), of ?m] server_run_state(1) [OF assms(1)] by (simp add: load_key_map_def Let_def)
  obtain sd x' where x': "key_field (key_block_field src) sd"
      "resolve_descriptor (st_key_map (cx_state ctx)) sd = Ok (ks_key_arn x')" "x' \<in> set sums" "interchangeable x x'"
    using key_block_resolves [OF assms(2-4) scan] by blast
  obtain dd y' where y': "key_field (key_block_field dst) dd"
      "resolve_descriptor (st_key_map (cx_state ctx)) dd = Ok (ks_key_arn y')" "y' \<in> set sums" "interchangeable y y'"
    using key_block_resolves [OF assms(2,5,6) scan] by blast
  have "code = ascii ''CC'' \<or> code = ascii ''CA'' \<and> hd (key_block_field dst) \<notin> {0x2A, 0x7E}"
    using assms(7) by (auto simp: key_block_field_def)
  from pin_translate_call [OF this x'(1) y'(1) assms(8-10,12,13,11) x'(2) y'(2)] assms(14)
  have "pin_handle (cx_state ctx) code (key_block_field src @ key_block_field dst @ maxlen @ pb @ sc @ dc @ acct @ rest) =
      Call (TranslatePinData (ks_key_arn x') (ks_key_arn y') pb (translation_of sf acct) (translation_of df acct))
        (on_ok (\<lambda>resp. Done (success (r_pin_block resp))))"
    by (simp add: server_run_state(2) [OF assms(1)])
  with x' y' show ?thesis by blast
qed

definition inventory_env :: "unit start_env" where
  "inventory_env = demo_env\<lparr> en_control := (\<lambda>_ s rq. (s, Some \<lparr> lk_keys = [demo_inventory_key], lk_next_token = None \<rparr>)) \<rparr>"

lemma inventory_run: "\<exists>ctx sh. server_run inventory_env () demo_cfg = Some (Ok (ctx, sh, None))"
proof -
  let ?client = "\<lambda>s rq. (s, Some \<lparr> lk_keys = [demo_inventory_key], lk_next_token = None \<rparr>) :: unit \<times> list_keys_output option"
  have "serves ?client () None [demo_inventory_key] ()"
    using last_page [of ?client "()" None "()" "\<lparr> lk_keys = [demo_inventory_key], lk_next_token = None \<rparr>"] by simp
  from scan_apc_serves [OF this] show ?thesis
    by (simp add: server_run_def run_with_def load_key_map_def inventory_env_def demo_env_def demo_cfg_def ThalesModule_def
        default_listen_config_def Let_def)
qed

theorem inventory_translation_witness:
  "\<exists>ctx sh x' y'. server_run inventory_env () demo_cfg = Some (Ok (ctx, sh, None))
    \<and> x' \<in> set [demo_inventory_key] \<and> y' \<in> set [demo_inventory_key]
    \<and> pin_handle (cx_state ctx) (ascii ''CA'')
        (key_block_field demo_wire @ key_block_field demo_wire @ ascii ''12'' @ ascii ''0123456789ABCDEF'' @ ascii ''01''
          @ ascii ''47'' @ ascii ''123456789012'' @ []) =
      Call (TranslatePinData (ks_key_arn x') (ks_key_arn y') (ascii ''0123456789ABCDEF'')
          (translation_of F0 (ascii ''123456789012'')) (translation_of F3 (ascii ''123456789012'')))
        (on_ok (\<lambda>resp. Done (success (r_pin_block resp))))"
proof -
  obtain ctx sh where run: "server_run inventory_env () demo_cfg = Some (Ok (ctx, sh, None))" using inventory_run by blast
  have serves: "serves (en_control inventory_env (pc_aws demo_cfg)) () None [demo_inventory_key] ()"
    using last_page [of "en_control inventory_env (pc_aws demo_cfg)" "()" None "()"
        "\<lparr> lk_keys = [demo_inventory_key], lk_next_token = None \<rparr>"] by (simp add: inventory_env_def)
  have key: "demo_inventory_key \<in> set [demo_inventory_key]" by simp
  have "is_ascii (ascii ''0123456789ABCDEF'' @ ascii ''123456789012'')" by (simp add: is_ascii_def ascii_def)
  moreover have "map_translate_format (ascii ''01'') = Ok F0" "map_translate_format (ascii ''47'') = Ok F3"
    by (simp_all add: map_translate_format_def ascii_inj)
  moreover have "en_build_ok inventory_env v" for v by (simp add: inventory_env_def demo_env_def)
  ultimately show ?thesis
    using inventory_translation [OF run serves key demo_wire_names key demo_wire_names, of "ascii ''CA''" "ascii ''12''"
        "ascii ''0123456789ABCDEF''" "ascii ''123456789012''" "ascii ''01''" F0 "ascii ''47''" F3 "[]"] run by auto
qed

text \<open>
  C8: a command the proxy has no handler for, from the client's socket to the HSM and back. On a proxy
  started with discovery enabled and a usable HSM endpoint, the bytes of the command, cut into reads in
  any way, open one connection to the HSM; the response frame the HSM sends, in pieces of any sizes and
  whatever follows it, is what the client gets, byte for byte. Nothing is left in the buffer, the request
  counter advances by one and the discovery log gains at most the redacted line of the command. (The
  README's passthrough limitations still say that a single response chunk is read.)
\<close>

theorem passthrough_end_to_end:
  assumes "server_run env w cfg = Some (Ok (ctx, sh\<^sub>0, acceptor))"
    and "pc_discover cfg = Some d" and "dc_enabled d" and "from_discover (en_client_tls env) d = Ok client"
    and "registry_get registry_build (command_code cmd) = None" and "well_formed_command cmd"
    and "\<forall>ch \<in> set chunks. ch \<noteq> [] \<and> length ch \<le> READ_BUF" and "concat chunks = request_frame cmd"
    and "en_connect env (sh_world sh) (request_frame cmd) = (u, net)"
    and "ns_connect net = IoOk" and "ns_handshake net = IoOk" and "ns_write net = IoOk"
    and "ns_reads net = map ReadBytes pieces @ evs" and "pieces \<noteq> []" and "\<forall>p \<in> set pieces. p \<noteq> []"
    and "concat pieces = thales_frame_response h rc ec p" and "2 + length rc + length ec + length p < 65536"
    and "en_write env u (concat pieces) = (v, True)"
  shows "handle_connection ctx sh (map ReadBytes chunks) =
    Some (\<lparr> cn_shared = \<lparr> sh_world = v, sh_request_seq = sh_request_seq sh + 1,
              sh_log = log_discovery_command ThalesPayShield (en_clock env (sh_world sh)) (command_code cmd)
                (cmd_payload cmd) (sh_log sh) \<rparr>,
            cn_buf = [], cn_out = [concat pieces] \<rparr>, Waiting)"
proof -
  note run = server_run_OkD [OF assms(1)] and state = server_run_state [OF assms(1)]
  have "hsm_exchange client net (request_frame cmd) ThalesPayShield = Some (Ok (concat pieces))"
    using hsm_exchange_frame [OF assms(10-17)] by (simp add: assms(16))
  then have leg: "cx_forward ctx (sh_world sh) (request_frame cmd) ThalesPayShield = (u, Some (Ok (concat pieces)))"
    by (simp add: run(4) assms(2,4,9) select_forward_def single_endpoint_leg_def hsm_client_leg_def)
  have frame: "slice (request_frame cmd) 0 (frame_len cmd) = (Ok (request_frame cmd) :: (bytes, net_error) res)"
    using assms(6) by (simp add: slice_def request_frame_length [symmetric])
  let ?log = "log_discovery_command ThalesPayShield (en_clock env (sh_world sh)) (command_code cmd) (cmd_payload cmd) (sh_log sh)"
  have "respond ctx sh (request_frame cmd) cmd =
      (sh\<lparr> sh_request_seq := sh_request_seq sh + 1, sh_log := ?log, sh_world := u \<rparr>, Some (Ok (concat pieces)))"
    using assms(2,3,5) leg frame by (simp add: respond_def Let_def run(2,3,5) state(4))
  from connection_single_frame [OF run(2) assms(6-8) this, of v] assms(18) show ?thesis
    by (simp add: state(3))
qed

definition passthrough_net :: net_script where
  "passthrough_net = \<lparr> ns_connect = IoOk, ns_handshake = IoOk, ns_write = IoOk,
     ns_reads = map ReadBytes [[0], [6, 1, 2, 0x5A], [0x5B, 0x30, 0x30]] @ [ReadBytes [9]] \<rparr>"

definition passthrough_env :: "unit start_env" where
  "passthrough_env = demo_env\<lparr> en_connect := (\<lambda>s _. (s, passthrough_net)) \<rparr>"

lemma passthrough_run: "\<exists>ctx sh. server_run passthrough_env () demo_cfg = Some (Ok (ctx, sh, None))"
proof -
  have "serves (en_control passthrough_env (pc_aws demo_cfg)) () None (lk_keys \<lparr> lk_keys = [], lk_next_token = None \<rparr>) ()"
    by (rule last_page) (simp_all add: passthrough_env_def demo_env_def)
  from scan_apc_serves [OF this] show ?thesis
    by (simp add: server_run_def run_with_def load_key_map_def Let_def)
      (simp add: demo_cfg_def passthrough_env_def demo_env_def ThalesModule_def default_listen_config_def)
qed

theorem passthrough_end_to_end_witness:
  "\<exists>ctx sh\<^sub>0. server_run passthrough_env () demo_cfg = Some (Ok (ctx, sh\<^sub>0, None))
    \<and> handle_connection ctx \<lparr> sh_world = (), sh_request_seq = 1, sh_log = None \<rparr>
        (map ReadBytes [take 1 (request_frame unknown_command), drop 1 (request_frame unknown_command)]) =
      Some (\<lparr> cn_shared = \<lparr> sh_world = (), sh_request_seq = 2, sh_log = None \<rparr>, cn_buf = [],
              cn_out = [[0, 6, 1, 2, 0x5A, 0x5B, 0x30, 0x30]] \<rparr>, Waiting)"
proof -
  obtain ctx sh\<^sub>0 where run: "server_run passthrough_env () demo_cfg = Some (Ok (ctx, sh\<^sub>0, None))"
    using passthrough_run by blast
  let ?sh = "\<lparr> sh_world = (), sh_request_seq = 1, sh_log = None \<rparr> :: unit shared"
  let ?cmd = unknown_command
  have wf: "well_formed_command ?cmd" by (simp add: unknown_command_def well_formed_command_def)
  have len: "length (request_frame ?cmd) = 6" by (simp add: request_frame_length [OF wf]) (simp add: unknown_command_def)
  have frame: "concat [[0], [6, 1, 2, 0x5A], [0x5B, 0x30, 0x30]] =
      thales_frame_response (1, 2) [0x5A, 0x5B] [0x30, 0x30] []"
    by (simp add: thales_frame_response_def u16_to_be_bytes_def unat_of_nat)
  have unregistered: "registry_get registry_build (command_code ?cmd) = None"
    by (simp add: unknown_command_def registry_get_ZZ)
  have endpoint: "from_discover (en_client_tls passthrough_env) demo_discover =
      Ok \<lparr> hc_host = ascii ''hsm'', hc_port = 1500, hc_read_timeout = 30, hc_tls = None \<rparr>"
    by (simp add: from_discover_def demo_discover_def)
  have chunks: "\<forall>ch \<in> set [take 1 (request_frame ?cmd), drop 1 (request_frame ?cmd)]. ch \<noteq> [] \<and> length ch \<le> READ_BUF"
    using len by (auto simp: READ_BUF_def)
  have "handle_connection ctx ?sh (map ReadBytes [take 1 (request_frame ?cmd), drop 1 (request_frame ?cmd)]) =
    Some (\<lparr> cn_shared = \<lparr> sh_world = (), sh_request_seq = sh_request_seq ?sh + 1,
              sh_log = log_discovery_command ThalesPayShield (en_clock passthrough_env (sh_world ?sh)) (command_code ?cmd)
                (cmd_payload ?cmd) (sh_log ?sh) \<rparr>,
            cn_buf = [], cn_out = [concat [[0], [6, 1, 2, 0x5A], [0x5B, 0x30, 0x30]]] \<rparr>, Waiting)"
    by (rule passthrough_end_to_end [OF run _ _ endpoint unregistered wf chunks _ _ _ _ _ _ _ _ frame,
          where net = passthrough_net and evs = "[ReadBytes [9]]"])
      (simp_all add: demo_cfg_def demo_discover_def passthrough_env_def passthrough_net_def demo_env_def)
  with run show ?thesis by (simp add: log_discovery_command_def)
qed

end
